(* ===== verification/Onvif_Prelude.thy ===== *)
theory Onvif_Prelude
  imports Main "HOL-Library.Word" "HOL-Library.Sublist"
begin

text \<open>
  Shared vocabulary of the development.

  \<^item> The machine types of the code (\<open>uint8_t\<close>, \<open>uint32_t\<close>, \<open>uint64_t\<close>) as words.
  \<^item> C strings.  A \<open>const char *\<close> is the list of characters before the terminating NUL; a
    pointer into a string is the suffix it points at, so \<open>p + 1\<close> is the tail, \<open>*p\<close> at the
    NUL is the empty list, and the \<open><string.h>\<close> searches return suffixes.
  \<^item> \<open>snprintf\<close>: the would-be length together with what ends up in the buffer.
  \<^item> Decimal conversions \<open>%d\<close>, \<open>%u\<close> and the zero-padded fields of \<open>strftime\<close>.
  \<^item> Lemma collections that the component theories use and extend.
\<close>

named_theorems cstr \<open>facts on C strings and the searches over them\<close>
named_theorems rendering \<open>lengths and contents of rendered messages\<close>

type_synonym byte = "8 word"
type_synonym u32 = "32 word"
type_synonym u64 = "64 word"

abbreviation (input) NUL :: char where "NUL \<equiv> CHR 0x00"


section \<open>C strings\<close>

text \<open>A buffer of bytes read as a C string ends at its first NUL.\<close>

definition c_str :: "string \<Rightarrow> string" where
  "c_str buf = takeWhile (\<lambda>c. c \<noteq> NUL) buf"

text \<open>\<open>strchr\<close>: the suffix that starts at the first occurrence.\<close>

fun strchr :: "string \<Rightarrow> char \<Rightarrow> string option" where
  "strchr [] c = None"
| "strchr (x # xs) c = (if x = c then Some (x # xs) else strchr xs c)"

text \<open>\<open>strstr\<close>: the suffix that starts at the first match.\<close>

fun strstr :: "string \<Rightarrow> string \<Rightarrow> string option" where
  "strstr hay pat =
     (if prefix pat hay then Some hay
      else (case hay of [] \<Rightarrow> None | _ # t \<Rightarrow> strstr t pat))"

declare strstr.simps [simp del]

definition contains :: "string \<Rightarrow> string \<Rightarrow> bool" where
  "contains hay pat = (strstr hay pat \<noteq> None)"

lemma strstr_Nil [simp]: "strstr [] pat = (if pat = [] then Some [] else None)"
  by (simp add: strstr.simps)

lemma strstr_Cons [simp]:
  "strstr (x # xs) pat = (if prefix pat (x # xs) then Some (x # xs) else strstr xs pat)"
  by (subst strstr.simps) simp

lemma strstr_Some_iff [cstr]: "(\<exists>s. strstr hay pat = Some s) \<longleftrightarrow> sublist pat hay"
  by (induction hay) (auto simp: sublist_Cons_right)

lemma contains_iff [cstr]: "contains hay pat \<longleftrightarrow> sublist pat hay"
  unfolding contains_def by (metis not_None_eq strstr_Some_iff)

lemma strstr_suffix [cstr]: "strstr hay pat = Some s \<Longrightarrow> suffix s hay"
  by (induction hay) (auto split: if_splits intro: suffix_ConsI)

lemma strstr_prefix [cstr]: "strstr hay pat = Some s \<Longrightarrow> prefix pat s"
  by (induction hay) (auto split: if_splits)

lemma strchr_suffix [cstr]: "strchr s c = Some t \<Longrightarrow> suffix t s"
  by (induction s) (auto split: if_splits intro: suffix_ConsI)

lemma strchr_hd [cstr]: "strchr s c = Some t \<Longrightarrow> \<exists>r. t = c # r"
  by (induction s) (auto split: if_splits)

lemma strchr_length: "strchr s c = Some t \<Longrightarrow> length t \<le> length s"
  by (blast dest: strchr_suffix suffix_length_le)

lemma strchr_tl_less: "strchr s c = Some t \<Longrightarrow> length (tl t) < length s"
  by (frule strchr_length, drule strchr_hd) auto

lemma strchr_None_iff [simp]: "strchr s c = None \<longleftrightarrow> c \<notin> set s"
  by (induction s) auto

lemma strchr_append [simp]: "c \<notin> set a \<Longrightarrow> strchr (a @ c # b) c = Some (c # b)"
  by (induction a) auto

lemma strchr_skip [simp]: "c \<notin> set a \<Longrightarrow> strchr (a @ b) c = strchr b c"
  by (induction a) auto

lemma sublist_refl_append [simp]: "sublist p (a @ p @ b)"
  by (auto simp: sublist_def)

lemma contains_append_left: "contains a p \<Longrightarrow> contains (a @ b) p"
  by (auto simp: cstr sublist_def) blast

lemma contains_append_right: "contains b p \<Longrightarrow> contains (a @ b) p"
  by (auto simp: cstr sublist_def) (metis append_assoc)

lemma contains_mid [simp]: "contains (a @ p @ b) p"
  by (simp add: cstr)


section \<open>Formatted output\<close>

text \<open>
  \<open>snprintf (buf, n, \<dots>)\<close> for the already rendered text \<open>s\<close>: the return value is the length
  the text would have, whatever \<open>n\<close> is; the buffer receives at most \<open>n - 1\<close> characters and a
  NUL.  Rendered texts are shorter than \<open>2 ^ 31\<close> characters, so the \<open>int\<close> result does not
  overflow.
\<close>

definition snprintf :: "nat \<Rightarrow> string \<Rightarrow> int \<times> string" where
  "snprintf n s = (int (length s), take (n - 1) s)"

lemma snprintf_sel [simp]:
  "fst (snprintf n s) = int (length s)" "snd (snprintf n s) = take (n - 1) s"
  by (simp_all add: snprintf_def)

lemma snprintf_fits: "length s < n \<Longrightarrow> snprintf n s = (int (length s), s)"
  by (simp add: snprintf_def)

text \<open>Decimal digits, \<open>%u\<close>, \<open>%d\<close>, and \<open>%0wd\<close> with leading zeros.\<close>

definition digit_char :: "nat \<Rightarrow> char" where
  "digit_char d = ''0123456789'' ! d"

fun show_nat :: "nat \<Rightarrow> string" where
  "show_nat n = (if n < 10 then [digit_char n] else show_nat (n div 10) @ [digit_char (n mod 10)])"

declare show_nat.simps [simp del]

definition show_int :: "int \<Rightarrow> string" where
  "show_int i = (if i < 0 then CHR ''-'' # show_nat (nat (- i)) else show_nat (nat i))"

definition zero_pad :: "nat \<Rightarrow> string \<Rightarrow> string" where
  "zero_pad w s = replicate (w - length s) (CHR ''0'') @ s"

lemma show_nat_nonempty [simp]: "show_nat n \<noteq> []"
  by (subst show_nat.simps) simp

lemma show_nat_length:
  "n < 10 ^ k \<Longrightarrow> 0 < k \<Longrightarrow> length (show_nat n) \<le> k"
proof (induction k arbitrary: n)
  case 0
  then show ?case by simp
next
  case (Suc k)
  show ?case
  proof (cases "n < 10")
    case True
    then show ?thesis by (simp add: show_nat.simps [of n])
  next
    case False
    with Suc.prems have "0 < k" by (cases k) auto
    moreover from Suc.prems have "n div 10 < 10 ^ k"
      by (simp add: less_mult_imp_div_less mult.commute)
    ultimately have "length (show_nat (n div 10)) \<le> k" by (rule Suc.IH [rotated])
    with False show ?thesis by (simp add: show_nat.simps [of n])
  qed
qed

lemma zero_pad_length: "length s \<le> w \<Longrightarrow> length (zero_pad w s) = w"
  by (simp add: zero_pad_def)

end
