(* ===== verification/Sha1.thy ===== *)
theory Sha1
  imports Onvif_Prelude
begin

text \<open>
  \<open>onvif_sha1\<close> of \<open>core/onvif_wsse.c\<close>, statement by statement on 32-bit words, and the
  SHA-1 of FIPS 180-4 as the reference it is compared with.  The code hashes inside a stack
  buffer of 128 bytes, so it covers messages of at most 119 bytes; for a longer message it skips
  the loop and returns the initial chaining value.
\<close>

unbundle bit_operations_syntax

section \<open>The code\<close>

definition rol32 :: "u32 \<Rightarrow> nat \<Rightarrow> u32" where
  "rol32 v b = push_bit b v OR drop_bit (32 - b) v"

type_synonym chain = "u32 \<times> u32 \<times> u32 \<times> u32 \<times> u32"

definition sha1_init :: chain where
  "sha1_init = (0x67452301, 0xEFCDAB89, 0x98BADCFE, 0x10325476, 0xC3D2E1F0)"

definition sha1_padded :: "nat \<Rightarrow> nat" where
  "sha1_padded len = ((len + 8) div 64 + 1) * 64"

text \<open>The stack buffer: zeroed, the data copied in, the marker byte and the length stored.\<close>

definition sha1_buf :: "byte list \<Rightarrow> byte list" where
  "sha1_buf data =
     (let len = length data;
          padded = sha1_padded len;
          bits = (of_nat len :: u64) * 8;
          buf0 = replicate padded 0;
          buf1 = data @ drop len buf0;
          buf2 = buf1[len := 0x80]
      in fold (\<lambda>i buf. buf[padded - 1 - i := (ucast (drop_bit (8 * i) bits) :: byte)]) [0..<8] buf2)"

definition sha1_load :: "byte list \<Rightarrow> nat \<Rightarrow> u32" where
  "sha1_load p i =
     push_bit 24 (ucast (p ! (4 * i))) OR push_bit 16 (ucast (p ! (4 * i + 1))) OR
     push_bit 8 (ucast (p ! (4 * i + 2))) OR ucast (p ! (4 * i + 3))"

definition sha1_expand :: "u32 list \<Rightarrow> nat \<Rightarrow> u32 list" where
  "sha1_expand w i = w @ [rol32 (w ! (i - 3) XOR w ! (i - 8) XOR w ! (i - 14) XOR w ! (i - 16)) 1]"

definition sha1_schedule :: "byte list \<Rightarrow> u32 list" where
  "sha1_schedule p = fold (\<lambda>i w. sha1_expand w i) [16..<80] (map (sha1_load p) [0..<16])"

text \<open>The nonlinear function and the constant that round \<open>i\<close> selects.\<close>

definition sha1_f :: "nat \<Rightarrow> u32 \<Rightarrow> u32 \<Rightarrow> u32 \<Rightarrow> u32" where
  "sha1_f i b c d =
     (if i < 20 then (b AND c) OR (NOT b AND d)
      else if i < 40 then b XOR c XOR d
      else if i < 60 then (b AND c) OR (b AND d) OR (c AND d)
      else b XOR c XOR d)"

definition sha1_k :: "nat \<Rightarrow> u32" where
  "sha1_k i = (if i < 20 then 0x5A827999 else if i < 40 then 0x6ED9EBA1
               else if i < 60 then 0x8F1BBCDC else 0xCA62C1D6)"

fun sha1_step :: "u32 list \<Rightarrow> nat \<Rightarrow> chain \<Rightarrow> chain" where
  "sha1_step w i (a, b, c, d, e) =
     (rol32 a 5 + sha1_f i b c d + e + sha1_k i + w ! i, a, rol32 b 30, c, d)"

fun chain_add :: "chain \<Rightarrow> chain \<Rightarrow> chain" where
  "chain_add (h0, h1, h2, h3, h4) (a, b, c, d, e) = (h0 + a, h1 + b, h2 + c, h3 + d, h4 + e)"

definition sha1_block :: "byte list \<Rightarrow> chain \<Rightarrow> chain" where
  "sha1_block p h = chain_add h (fold (sha1_step (sha1_schedule p)) [0..<80] h)"

text \<open>The loop over the buffer: \<open>off\<close> runs over 0, 64, \dots below the padded length.\<close>

function sha1_loop :: "byte list \<Rightarrow> nat \<Rightarrow> nat \<Rightarrow> chain \<Rightarrow> chain" where
  "sha1_loop buf padded off h =
     (if off < padded then sha1_loop buf padded (off + 64) (sha1_block (drop off buf) h) else h)"
  by pat_completeness auto
termination
  by (relation "measure (\<lambda>(buf, padded, off, h). padded - off)") auto

declare sha1_loop.simps [simp del]

definition be32 :: "u32 \<Rightarrow> byte list" where
  "be32 x = [ucast (drop_bit 24 x), ucast (drop_bit 16 x), ucast (drop_bit 8 x), ucast x]"

fun digest_bytes :: "chain \<Rightarrow> byte list" where
  "digest_bytes (h0, h1, h2, h3, h4) = be32 h0 @ be32 h1 @ be32 h2 @ be32 h3 @ be32 h4"

definition onvif_sha1 :: "byte list \<Rightarrow> byte list" where
  "onvif_sha1 data =
     (let padded = sha1_padded (length data)
      in digest_bytes
           (if padded \<le> 128 then sha1_loop (sha1_buf data) padded 0 sha1_init else sha1_init))"


section \<open>FIPS 180-4, as the reference\<close>

text \<open>
  Section 5.1.1: append the bit 1, then the least number of zero bits that leaves 64 bits of the
  last block free, then the bit length as 64 bits.  On whole bytes the first two are \<open>0x80\<close> and
  zero bytes.
\<close>

definition fips_zeros :: "nat \<Rightarrow> nat" where
  "fips_zeros len = (LEAST k. (len + 1 + k + 8) mod 64 = 0)"

definition be64 :: "u64 \<Rightarrow> byte list" where
  "be64 x = map (\<lambda>i. ucast (drop_bit (8 * (7 - i)) x)) [0..<8]"

definition fips_pad :: "byte list \<Rightarrow> byte list" where
  "fips_pad m = m @ [0x80] @ replicate (fips_zeros (length m)) 0 @ be64 (of_nat (8 * length m))"

text \<open>Sections 4.1.1, 4.2.1 and 6.1.2: functions, constants, schedule and compression.\<close>

definition fips_f :: "nat \<Rightarrow> u32 \<Rightarrow> u32 \<Rightarrow> u32 \<Rightarrow> u32" where
  "fips_f t x y z =
     (if t \<le> 19 then (x AND y) XOR (NOT x AND z)
      else if t \<le> 39 then x XOR y XOR z
      else if t \<le> 59 then (x AND y) XOR (x AND z) XOR (y AND z)
      else x XOR y XOR z)"

definition fips_K :: "nat \<Rightarrow> u32" where
  "fips_K t = (if t \<le> 19 then 0x5a827999 else if t \<le> 39 then 0x6ed9eba1
               else if t \<le> 59 then 0x8f1bbcdc else 0xca62c1d6)"

definition fips_word :: "byte list \<Rightarrow> nat \<Rightarrow> u32" where
  "fips_word block t = foldl (\<lambda>acc b. acc * 256 + ucast b) 0 (take 4 (drop (4 * t) block))"

fun fips_W :: "byte list \<Rightarrow> nat \<Rightarrow> u32" where
  "fips_W block t =
     (if t < 16 then fips_word block t
      else word_rotl 1 (fips_W block (t - 3) XOR fips_W block (t - 8) XOR
                        fips_W block (t - 14) XOR fips_W block (t - 16)))"

declare fips_W.simps [simp del]

fun fips_round :: "byte list \<Rightarrow> nat \<Rightarrow> chain \<Rightarrow> chain" where
  "fips_round block t (a, b, c, d, e) =
     (word_rotl 5 a + fips_f t b c d + e + fips_K t + fips_W block t, a, word_rotl 30 b, c, d)"

definition fips_compress :: "byte list \<Rightarrow> chain \<Rightarrow> chain" where
  "fips_compress block h = chain_add (fold (fips_round block) [0..<80] h) h"

fun fips_blocks :: "byte list \<Rightarrow> byte list list" where
  "fips_blocks [] = []"
| "fips_blocks (x # xs) = take 64 (x # xs) # fips_blocks (drop 64 (x # xs))"

definition fips_sha1 :: "byte list \<Rightarrow> byte list" where
  "fips_sha1 m = digest_bytes (fold fips_compress (fips_blocks (fips_pad m)) sha1_init)"


section \<open>The code computes SHA-1 on messages of at most 119 bytes\<close>

lemma word32_bit_less: "bit (x :: u32) n \<Longrightarrow> n < 32"
  using bit_imp_le_length by fastforce
lemma rol32_rotl:
  assumes "0 < n" "n < 32"
  shows "rol32 v n = word_rotl n v"
proof (rule bit_word_eqI)
  fix i assume "i < LENGTH(32)"
  then have i: "i < 32" by simp
  have m: "(i + (32 - n)) mod 32 = (if n \<le> i then i - n else 32 - n + i)"
    using assms i by (auto simp: mod_if)
  have big: "n \<le> i \<Longrightarrow> \<not> bit v (32 - n + i)"
    using assms by (auto dest: word32_bit_less)
  have len: "LENGTH(32) = 32" and nm: "n mod 32 = n" using assms by simp_all
  show "bit (rol32 v n) i = bit (word_rotl n v) i"
    unfolding bit_word_rotl_iff len nm m
    using assms i big by (auto simp: rol32_def bit_simps not_le)
qed
text \<open>The buffer the code builds is the padded message.\<close>

lemma padded_props:
  "sha1_padded len mod 64 = 0" "len + 9 \<le> sha1_padded len" "sha1_padded len < len + 73"
proof -
  obtain q r where "len + 8 = 64 * q + r" "r < 64" "(len + 8) div 64 = q"
    using mult_div_mod_eq [of 64 "len + 8"] by (metis mod_less_divisor zero_less_numeral)
  then show "len + 9 \<le> sha1_padded len" "sha1_padded len < len + 73"
    unfolding sha1_padded_def by simp_all
  show "sha1_padded len mod 64 = 0" unfolding sha1_padded_def by (rule mod_mult_self2_is_0)
qed

lemma multiple_between:
  fixes a b n :: nat
  assumes "a mod n = 0" "b mod n = 0" "a < b + n" "0 < n"
  shows "a \<le> b"
proof -
  from assms obtain i j where "a = n * i" "b = n * j" by (auto simp: mod_0_imp_dvd elim!: dvdE)
  with assms have "n * i < n * Suc j" by simp
  then have "i \<le> j" by (simp only: mult_less_cancel1 less_Suc_eq_le)
  with \<open>a = _\<close> \<open>b = _\<close> show ?thesis by simp
qed

lemma fips_zeros_eq: "fips_zeros len = sha1_padded len - len - 9"
  unfolding fips_zeros_def
proof (rule Least_equality)
  show "(len + 1 + (sha1_padded len - len - 9) + 8) mod 64 = 0"
    using padded_props [of len] by (simp add: algebra_simps)
next
  fix k assume "(len + 1 + k + 8) mod 64 = 0"
  with padded_props [of len] have "sha1_padded len \<le> len + 1 + k + 8"
    by (intro multiple_between [of _ 64]) auto
  then show "sha1_padded len - len - 9 \<le> k" by simp
qed

lemma store_be:
  "fold (\<lambda>i b. b[length xs + 7 - i := f i]) [0..<8] (xs @ replicate 8 z) =
    xs @ [f 7, f 6, f 5, f 4, f 3, f 2, f 1, f (0::nat)]"
  by (simp add: upt_rec_numeral eval_nat_numeral list_update_append)

lemma marker_store:
  "(xs @ drop (length xs) (replicate (length xs + Suc k) z))[length xs := m] = xs @ m # replicate k z"
proof -
  have "drop (length xs) (replicate (length xs + Suc k) z) = z # replicate k z"
    by (simp only: drop_replicate diff_add_inverse replicate_Suc)
  then show ?thesis by (simp add: list_update_append)
qed

lemma be64_bytes:
  "be64 x = [ucast (drop_bit 56 x), ucast (drop_bit 48 x), ucast (drop_bit 40 x),
     ucast (drop_bit 32 x), ucast (drop_bit 24 x), ucast (drop_bit 16 x), ucast (drop_bit 8 x), ucast x]"
  by (simp add: be64_def upt_conv_Cons)

lemma sha1_buf_eq: "sha1_buf data = fips_pad data"
proof -
  let ?l = "length data" let ?p = "sha1_padded ?l" let ?z = "fips_zeros ?l"
  let ?xs = "data @ 0x80 # replicate ?z (0 :: byte)"
  have p: "?p = ?l + Suc (?z + 8)" using padded_props [of ?l] by (simp add: fips_zeros_eq)
  have "(data @ drop ?l (replicate ?p 0))[?l := 0x80] = ?xs @ replicate 8 (0 :: byte)"
    by (simp only: p marker_store) (simp add: replicate_add)
  moreover have "?p - 1 = length ?xs + 7" by (simp add: p)
  ultimately show ?thesis
    unfolding sha1_buf_def Let_def using store_be [of ?xs _ 0]
    by (simp add: fips_pad_def be64_bytes mult.commute)
qed
lemma fips_pad_length: "length (fips_pad m) = sha1_padded (length m)"
  using padded_props [of "length m"] by (simp add: fips_pad_def be64_def fips_zeros_eq)

lemma byte_less: "bit (x :: byte) n \<Longrightarrow> n < 8"
  using bit_imp_le_length by fastforce
lemma shift8: "acc * 256 + ucast (b :: byte) = (push_bit 8 acc OR ucast b :: u32)"
proof -
  have "push_bit 8 acc AND ucast b = (0 :: u32)"
    by (rule bit_word_eqI) (auto simp: bit_simps dest: byte_less)
  then show ?thesis by (simp add: disjunctive_add_eq_or [symmetric] push_bit_eq_mult)
qed
lemma fips_word4:
  fixes a b c d :: byte
  shows "((ucast a * 256 + ucast b) * 256 + ucast c) * 256 + ucast d =
    (push_bit 24 (ucast a) OR push_bit 16 (ucast b) OR push_bit 8 (ucast c) OR ucast d :: u32)"
  unfolding shift8 by (rule bit_word_eqI) (auto simp: bit_simps)
lemma sha1_f_eq: "sha1_f i b c d = fips_f i b c d"
  by (rule bit_word_eqI) (auto simp: sha1_f_def fips_f_def bit_simps)
lemma sha1_k_eq: "sha1_k i = fips_K i"
  by (auto simp: sha1_k_def fips_K_def)
lemma take4: "n + 4 \<le> length p \<Longrightarrow> take 4 (drop n p) = [p ! n, p ! (n + 1), p ! (n + 2), p ! (n + 3)]"
  by (rule nth_equalityI) (auto simp: nth_Cons numeral_eq_Suc less_Suc_eq split: nat.splits)

lemma sha1_load_eq: "4 * i + 4 \<le> length p \<Longrightarrow> sha1_load p i = fips_word p i"
  by (simp add: sha1_load_def fips_word_def take4 fips_word4 [symmetric] del: shift8)

lemma sha1_expand_W:
  "16 \<le> i \<Longrightarrow> sha1_expand (map (fips_W p) [0..<i]) i = map (fips_W p) [0..<Suc i]"
  by (simp add: sha1_expand_def rol32_rotl fips_W.simps [of p i])

lemma sha1_schedule_eq:
  assumes "64 \<le> length p"
  shows "sha1_schedule p = map (fips_W p) [0..<80]"
proof -
  have w0: "map (sha1_load p) [0..<16] = map (fips_W p) [0..<16]"
    using assms by (auto simp: fips_W.simps sha1_load_eq)
  have "fold (\<lambda>i w. sha1_expand w i) [16..<16 + k] (map (fips_W p) [0..<16]) =
      map (fips_W p) [0..<16 + k]" for k
  proof (induction k)
    case (Suc k)
    have "[16..<16 + Suc k] = [16..<16 + k] @ [16 + k]"
      using upt_Suc_append [of 16 "16 + k"] by (simp only: add_Suc_right le_add1)
    with Suc.IH show ?case by (simp only: fold_append sha1_expand_W add_Suc_right fold_simps o_apply)
  qed simp
  from this [of 64] show ?thesis by (simp add: sha1_schedule_def w0)
qed

lemma fips_W_take: "fips_W (take 64 p) i = fips_W p i"
proof (induction p i rule: fips_W.induct)
  case (1 p i)
  have "take 4 (drop (4 * i) (take 64 p)) = take 4 (drop (4 * i) p)" if "i < 16"
    using that by (simp add: drop_take min_def)
  with 1 show ?case
    by (auto simp: fips_W.simps [of _ i] fips_word_def)
qed

lemma chain_add_commute: "chain_add g h = chain_add h g"
  by (cases g; cases h) (simp add: add.commute)

lemma sha1_block_eq:
  assumes "64 \<le> length p"
  shows "sha1_block p h = fips_compress (take 64 p) h"
proof -
  have "sha1_step (sha1_schedule p) i st = fips_round (take 64 p) i st" if "i \<in> set [0..<80]" for i st
    using that assms
    by (cases st) (simp add: sha1_schedule_eq rol32_rotl sha1_f_eq sha1_k_eq fips_W_take)
  then have "fold (sha1_step (sha1_schedule p)) [0..<80] h = fold (fips_round (take 64 p)) [0..<80] h"
    by (intro fold_cong ext) auto
  then show ?thesis
    unfolding sha1_block_def fips_compress_def by (simp add: chain_add_commute)
qed

lemma fips_blocks_drop:
  "off < length buf \<Longrightarrow>
    fips_blocks (drop off buf) = take 64 (drop off buf) # fips_blocks (drop (off + 64) buf)"
proof -
  assume "off < length buf"
  then have "drop off buf \<noteq> []" by simp
  then have "fips_blocks (drop off buf) = take 64 (drop off buf) # fips_blocks (drop 64 (drop off buf))"
    by (metis fips_blocks.simps(2) list.exhaust)
  then show ?thesis by (simp add: add.commute)
qed

lemma sha1_loop_eq:
  assumes "length buf = padded" "padded mod 64 = 0" "off mod 64 = 0"
  shows "sha1_loop buf padded off h = fold fips_compress (fips_blocks (drop off buf)) h"
  using assms
proof (induction buf padded off h rule: sha1_loop.induct)
  case (1 buf padded off h)
  show ?case
  proof (cases "off < padded")
    case True
    with "1.prems" have "off + 64 \<le> padded"
      by (intro multiple_between [of _ 64]) auto
    with "1.prems" have "64 \<le> length (drop off buf)" by simp
    with True 1 show ?thesis
      by (simp add: sha1_loop.simps [of buf padded off] fips_blocks_drop sha1_block_eq)
  next
    case False
    with "1.prems" show ?thesis by (simp add: sha1_loop.simps [of buf padded off])
  qed
qed

lemma digest_bytes_length: "length (digest_bytes h) = 20"
  by (cases h) (simp add: be32_def)
lemma onvif_sha1_length: "length (onvif_sha1 data) = 20"
  by (simp add: onvif_sha1_def Let_def digest_bytes_length)



lemma sha1_short:
  assumes "length data \<le> 119"
  shows "onvif_sha1 data = fips_sha1 data"
proof -
  have "sha1_padded (length data) \<le> 128" using assms by (simp add: sha1_padded_def)
  then show ?thesis
    by (simp add: onvif_sha1_def fips_sha1_def sha1_buf_eq sha1_loop_eq fips_pad_length padded_props)
qed

lemma sha1_constant:
  assumes "120 \<le> length data"
  shows "onvif_sha1 data = digest_bytes sha1_init"
proof -
  have "\<not> sha1_padded (length data) \<le> 128"
    using div_le_mono [of 128 "length data + 8" 64] assms by (simp add: sha1_padded_def)
  then show ?thesis by (simp add: onvif_sha1_def)
qed


section \<open>Properties\<close>

text \<open>
  C17: On every message of at most 119 bytes (the messages whose padding fits the 128-byte
  stack buffer), \<open>onvif_sha1\<close> computes the SHA-1 of FIPS 180-4: its buffer is the padded
  message, its schedule the standard's \<open>W\<close>, its rounds the standard's compression.
\<close>

theorem onvif_sha1_correct:
  assumes "length data \<le> 119"
  shows "onvif_sha1 data = fips_sha1 data"
  using assms by (rule sha1_short)

text \<open>
  On every message of 120 bytes or more the hash loop is skipped: the digest does not depend
  on the message at all, it is the initial chaining value.
\<close>

theorem onvif_sha1_long:
  assumes "120 \<le> length data"
  shows "onvif_sha1 data = digest_bytes sha1_init"
  using assms by (rule sha1_constant)

theorem onvif_sha1_long_witness:
  "onvif_sha1 (replicate 120 7) = digest_bytes sha1_init \<and> onvif_sha1 (replicate 200 9) = digest_bytes sha1_init"
  by (simp add: onvif_sha1_long)

end
