(* ===== verification/Sha1_Vectors.thy ===== *)
theory Sha1_Vectors
  imports Sha1
begin

text \<open>
  The test vector of FIPS 180-1 for the message \<open>abc\<close>, evaluated in the kernel on the model of
  the code: buffer, schedule, and the chaining values after 20, 40, 60 and 80 rounds.  It pins
  the model's constants and byte order to the standard's published digest.  The digest of a client's
  token, which the witness of an authenticated request uses, is evaluated in the same way.
\<close>

lemma sha1_buf_abc:
  "sha1_buf [0x61, 0x62, 0x63] =
     [0x61, 0x62, 0x63, 0x80, 0, 0, 0, 0, 0, 0, 0, 0, 0, 0, 0, 0,
      0, 0, 0, 0, 0, 0, 0, 0, 0, 0, 0, 0, 0, 0, 0, 0,
      0, 0, 0, 0, 0, 0, 0, 0, 0, 0, 0, 0, 0, 0, 0, 0,
      0, 0, 0, 0, 0, 0, 0, 0, 0, 0, 0, 0, 0, 0, 0, 24]"
  by (simp add: sha1_buf_eq fips_pad_def fips_zeros_eq sha1_padded_def be64_bytes)
     (simp add: eval_nat_numeral)

definition abc_schedule :: "u32 list" where
  "abc_schedule =
     [0x61626380, 0x00000000, 0x00000000, 0x00000000, 0x00000000, 0x00000000, 0x00000000, 0x00000000,
      0x00000000, 0x00000000, 0x00000000, 0x00000000, 0x00000000, 0x00000000, 0x00000000, 0x00000018,
      0xc2c4c700, 0x00000000, 0x00000030, 0x85898e01, 0x00000000, 0x00000060, 0x0b131c03, 0x00000030,
      0x85898ec1, 0x16263806, 0x00000000, 0x00000180, 0x2c4c700c, 0x000000f0, 0x93afb507, 0x5898e048,
      0x8e9a9202, 0x00000600, 0xb131c0f0, 0x16263bc6, 0x4ebed41e, 0x626380a1, 0x16263806, 0x000018c0,
      0xd2e138c4, 0x00000f00, 0x3afb5079, 0x898e04e5, 0xe2ba3c2b, 0x000060c0, 0x053a37cd, 0x74458547,
      0xda9415ed, 0x26380a16, 0x626383a1, 0x4ebf54de, 0x3835b44b, 0x0000f600, 0x1e84c7a3, 0x98e04d98,
      0x651d16a0, 0x62658ca1, 0x458544d6, 0x44584cb7, 0x7ba06619, 0x6380aea2, 0x0ae55269, 0x627b49a1,
      0x7cd45c9d, 0x000f0000, 0xfb50753a, 0xec6765e8, 0xba3c2be2, 0x0060c000, 0x3a37cd05, 0x458546f4,
      0xb8599dd6, 0x380a1a26, 0x01e02203, 0xe7cc3456, 0xe6e60b69, 0x00f60a00, 0x5795ef4f, 0x822e0879]"

lemma sha1_schedule_abc: "sha1_schedule (sha1_buf [0x61, 0x62, 0x63]) = abc_schedule"
  unfolding sha1_buf_abc sha1_schedule_def abc_schedule_def
  by (simp add: sha1_load_def sha1_expand_def rol32_def upt_conv_Cons)

lemma fold_upt_step: "i < j \<Longrightarrow> fold f [i..<j] s = fold f [Suc i..<j] (f i s)"
  by (simp add: upt_conv_Cons)

lemmas round_eval = fold_upt_step abc_schedule_def sha1_f_def sha1_k_def rol32_def

lemma abc_rounds_20:
  "fold (sha1_step abc_schedule) [0..<20]
     (0x67452301, 0xefcdab89, 0x98badcfe, 0x10325476, 0xc3d2e1f0) =
     (0xfd9e1d7d, 0xdc64901d, 0x20aa99ca, 0xd3a49608, 0xc82f758b)"
  by (simp add: round_eval)

lemma abc_rounds_40:
  "fold (sha1_step abc_schedule) [20..<40]
     (0xfd9e1d7d, 0xdc64901d, 0x20aa99ca, 0xd3a49608, 0xc82f758b) =
     (0x32de1cba, 0x4c986405, 0xf718e5cf, 0x03d447f6, 0xf72eec32)"
  by (simp add: round_eval)

lemma abc_rounds_60:
  "fold (sha1_step abc_schedule) [40..<60]
     (0x32de1cba, 0x4c986405, 0xf718e5cf, 0x03d447f6, 0xf72eec32) =
     (0x3f52de5a, 0x09d785fd, 0x3498bfd4, 0xf211824f, 0xd79915ab)"
  by (simp add: round_eval)

lemma abc_rounds_80:
  "fold (sha1_step abc_schedule) [60..<80]
     (0x3f52de5a, 0x09d785fd, 0x3498bfd4, 0xf211824f, 0xd79915ab) =
     (0x42541b35, 0x5738d5e1, 0x21834873, 0x681e6df6, 0xd8fdf6ad)"
  by (simp add: round_eval)

lemma fold_upt_split:
  "i \<le> j \<Longrightarrow> j \<le> k \<Longrightarrow> fold f [i..<k] s = fold f [j..<k] (fold f [i..<j] s)" for i j k :: nat
  using upt_add_eq_append [of i j "k - j"] by simp

lemma abc_rounds: "fold (sha1_step abc_schedule) [0..<80] sha1_init =
     (0x42541b35, 0x5738d5e1, 0x21834873, 0x681e6df6, 0xd8fdf6ad)"
  unfolding sha1_init_def
  by (simp only: fold_upt_split [of 0 20 80] fold_upt_split [of 20 40 80] fold_upt_split [of 40 60 80]
      abc_rounds_20 abc_rounds_40 abc_rounds_60 abc_rounds_80 zero_le numeral_le_iff semiring_norm)

lemma onvif_sha1_abc:
  "onvif_sha1 [0x61, 0x62, 0x63] =
     [0xa9, 0x99, 0x3e, 0x36, 0x47, 0x06, 0x81, 0x6a, 0xba, 0x3e,
      0x25, 0x71, 0x78, 0x50, 0xc2, 0x6c, 0x9c, 0xd0, 0xd8, 0x9d]"
  by (simp add: onvif_sha1_def sha1_padded_def sha1_loop.simps sha1_block_def sha1_schedule_abc
      abc_rounds)
     (simp add: sha1_init_def be32_def)

text \<open>The same for the token of a client: the nonce bytes 1, 2, 3, the creation time
  \<open>2024-01-01T00:00:00Z\<close> and the password \<open>secret\<close>.\<close>

definition token_msg :: "byte list" where
  "token_msg =
     [0x01, 0x02, 0x03, 0x32, 0x30, 0x32, 0x34, 0x2d, 0x30, 0x31, 0x2d, 0x30, 0x31, 0x54, 0x30, 0x30,
      0x3a, 0x30, 0x30, 0x3a, 0x30, 0x30, 0x5a, 0x73, 0x65, 0x63, 0x72, 0x65, 0x74]"

lemma sha1_buf_token:
  "sha1_buf token_msg =
     [0x01, 0x02, 0x03, 0x32, 0x30, 0x32, 0x34, 0x2d, 0x30, 0x31, 0x2d, 0x30, 0x31, 0x54, 0x30, 0x30,
      0x3a, 0x30, 0x30, 0x3a, 0x30, 0x30, 0x5a, 0x73, 0x65, 0x63, 0x72, 0x65, 0x74, 0x80, 0x00, 0x00,
      0x00, 0x00, 0x00, 0x00, 0x00, 0x00, 0x00, 0x00, 0x00, 0x00, 0x00, 0x00, 0x00, 0x00, 0x00, 0x00,
      0x00, 0x00, 0x00, 0x00, 0x00, 0x00, 0x00, 0x00, 0x00, 0x00, 0x00, 0x00, 0x00, 0x00, 0x00, 0xe8]"
  by (simp add: sha1_buf_eq fips_pad_def fips_zeros_eq sha1_padded_def be64_bytes token_msg_def)
     (simp add: eval_nat_numeral)

definition token_schedule :: "u32 list" where
  "token_schedule =
     [0x01020332, 0x3032342d, 0x30312d30, 0x31543030, 0x3a30303a, 0x30305a73, 0x65637265, 0x74800000,
      0x00000000, 0x00000000, 0x00000000, 0x00000000, 0x00000000, 0x00000000, 0x00000000, 0x000000e8,
      0x62665c04, 0x02cc083a, 0x14023bc4, 0xc6046c8e, 0xbb3e94ca, 0xa164c36e, 0x46ce3dd7, 0x9f7d2845,
      0x86053ed5, 0x88046bda, 0x16fe2703, 0x8002a4b6, 0x6675fe20, 0x6f35c90b, 0x49558acb, 0xf789bd6f,
      0x3ea9203d, 0x0b330b4a, 0x9c966ac4, 0xb39656d7, 0x216cb8ef, 0x9b7491c9, 0x7411be3c, 0x83388c3f,
      0x6a4d5044, 0xee48f434, 0xde4a7fb0, 0x6dd8d65c, 0xc0087061, 0xbb05343b, 0xdc6b852c, 0x7f1494f7,
      0xe6ee5d0c, 0x150c590b, 0x394872d8, 0x47a8989d, 0x00f25f73, 0x3402b62b, 0x0b3fe793, 0x252d671e,
      0xcdd789a6, 0x3b4739e1, 0x044e342e, 0xb945e6b8, 0x4fad27be, 0xe8ba4593, 0x11ffb217, 0x01311ab8,
      0xf597c7c3, 0xf03894c0, 0x798a067a, 0x7ef01f9a, 0x68b0173d, 0x003f25b9, 0x53cf8771, 0xefd6a6f4,
      0x7862bfe4, 0x43eb99d0, 0xbb7f663d, 0xaeda06aa, 0xea123688, 0xa596395e, 0x32fbe81e, 0xe99a3c09]"

lemma sha1_schedule_token: "sha1_schedule (sha1_buf token_msg) = token_schedule"
  unfolding sha1_buf_token sha1_schedule_def token_schedule_def
  by (simp add: sha1_load_def sha1_expand_def rol32_def upt_conv_Cons)

lemma token_rounds:
  "fold (sha1_step token_schedule) [0..<20] (0x67452301, 0xefcdab89, 0x98badcfe, 0x10325476, 0xc3d2e1f0) =
     (0x91052d19, 0x04c89cc6, 0xa3d7760f, 0x5d7206c3, 0x029220a1)"
  "fold (sha1_step token_schedule) [20..<40] (0x91052d19, 0x04c89cc6, 0xa3d7760f, 0x5d7206c3, 0x029220a1) =
     (0x40ab6032, 0xd9b62692, 0x51cf3956, 0x2d4edb05, 0xc3c23e14)"
  "fold (sha1_step token_schedule) [40..<60] (0x40ab6032, 0xd9b62692, 0x51cf3956, 0x2d4edb05, 0xc3c23e14) =
     (0x65c0c321, 0xddcb0554, 0x3cf85b95, 0xd49514bc, 0x6e36d0a0)"
  "fold (sha1_step token_schedule) [60..<80] (0x65c0c321, 0xddcb0554, 0x3cf85b95, 0xd49514bc, 0x6e36d0a0) =
     (0xe2f3bd5a, 0xfbc6f0d2, 0x8b94c952, 0x6e87e0cd, 0x17e72876)"
  by (simp_all add: round_eval token_schedule_def)

lemma token_rounds_80: "fold (sha1_step token_schedule) [0..<80] sha1_init =
     (0xe2f3bd5a, 0xfbc6f0d2, 0x8b94c952, 0x6e87e0cd, 0x17e72876)"
  unfolding sha1_init_def
  by (simp only: fold_upt_split [of 0 20 80] fold_upt_split [of 20 40 80] fold_upt_split [of 40 60 80]
      token_rounds zero_le numeral_le_iff semiring_norm)

lemma token_msg_length: "length token_msg = 29"
  by (simp add: token_msg_def)

lemma onvif_sha1_token:
  "onvif_sha1 token_msg =
     [0x4a, 0x38, 0xe0, 0x5b, 0xeb, 0x94, 0x9c, 0x5b, 0x24, 0x4f,
      0xa6, 0x50, 0x7e, 0xba, 0x35, 0x43, 0xdb, 0xba, 0x0a, 0x66]"
  by (simp add: onvif_sha1_def sha1_padded_def token_msg_length sha1_loop.simps sha1_block_def
      sha1_schedule_token token_rounds_80)
     (simp add: sha1_init_def be32_def)

theorem onvif_sha1_correct_witness:
  "length [0x61 :: byte, 0x62, 0x63] \<le> 119 \<and>
   fips_sha1 [0x61, 0x62, 0x63] =
     [0xa9, 0x99, 0x3e, 0x36, 0x47, 0x06, 0x81, 0x6a, 0xba, 0x3e,
      0x25, 0x71, 0x78, 0x50, 0xc2, 0x6c, 0x9c, 0xd0, 0xd8, 0x9d]"
  using onvif_sha1_correct [of "[0x61, 0x62, 0x63]"] onvif_sha1_abc by simp

end
