(* ===== verification/Xml_Doc.thy ===== *)
theory Xml_Doc
  imports Onvif_Prelude
begin

text \<open>
  The documents that the SOAP builders promise, as trees, with the text of a tree and a reference
  reader for that text.  The library's messages use a small part of XML: an element is empty
  (\<open><n/>\<close>), a leaf with text, or a node with child elements; attributes are separated by one
  blank.  The reader is recursive descent with fuel; \<open>read_render\<close> is its correctness.
\<close>

section \<open>Trees and their text\<close>

datatype xml =
    Empty string "(string \<times> string) list"
  | Leaf string "(string \<times> string) list" string
  | Node string "(string \<times> string) list" "xml list"

fun attrs_text :: "(string \<times> string) list \<Rightarrow> string" where
  "attrs_text [] = []"
| "attrs_text ((a, v) # as) = CHR '' '' # a @ ''=\"'' @ v @ CHR 0x22 # attrs_text as"

fun render :: "xml \<Rightarrow> string" where
  "render (Empty n as) = CHR ''<'' # n @ attrs_text as @ ''/>''"
| "render (Leaf n as t) = CHR ''<'' # n @ attrs_text as @ CHR ''>'' # t @ ''</'' @ n @ ''>''"
| "render (Node n as cs) = CHR ''<'' # n @ attrs_text as @ CHR ''>'' # concat (map render cs) @ ''</'' @ n @ ''>''"

definition render_doc :: "string \<Rightarrow> xml \<Rightarrow> string" where
  "render_doc enc d = ''<?xml version=\"1.0\" encoding=\"'' @ enc @ ''\"?>'' @ render d"


section \<open>The reader\<close>

definition tag_char :: "char \<Rightarrow> bool" where
  "tag_char c \<longleftrightarrow> c \<notin> set ''<>/= ?'' \<and> c \<noteq> CHR 0x22"

definition span :: "(char \<Rightarrow> bool) \<Rightarrow> string \<Rightarrow> string \<times> string" where
  "span P s = (takeWhile P s, dropWhile P s)"

definition strip :: "string \<Rightarrow> string \<Rightarrow> string option" where
  "strip p s = (if prefix p s then Some (drop (length p) s) else None)"

fun read_attrs :: "nat \<Rightarrow> string \<Rightarrow> ((string \<times> string) list \<times> string) option" where
  "read_attrs 0 s = None"
| "read_attrs (Suc k) s =
     (case strip '' '' s of
        None \<Rightarrow> Some ([], s)
      | Some s1 \<Rightarrow>
          (let (a, s2) = span tag_char s1 in
           case strip ''=\"'' s2 of
             None \<Rightarrow> None
           | Some s3 \<Rightarrow>
               (let (v, s4) = span (\<lambda>c. c \<noteq> CHR 0x22) s3 in
                case strip [CHR 0x22] s4 of
                  None \<Rightarrow> None
                | Some s5 \<Rightarrow> map_option (\<lambda>(as, r). ((a, v) # as, r)) (read_attrs k s5))))"

fun read_xml :: "nat \<Rightarrow> string \<Rightarrow> (xml \<times> string) option"
  and read_list :: "nat \<Rightarrow> string \<Rightarrow> (xml list \<times> string) option" where
  "read_xml 0 s = None"
| "read_xml (Suc k) s =
     (case strip ''<'' s of
        None \<Rightarrow> None
      | Some s1 \<Rightarrow>
          (let (n, s2) = span tag_char s1 in
           if n = [] then None
           else case read_attrs k s2 of
             None \<Rightarrow> None
           | Some (as, s3) \<Rightarrow>
               (case strip ''/>'' s3 of
                  Some r \<Rightarrow> Some (Empty n as, r)
                | None \<Rightarrow>
                    (case strip ''>'' s3 of
                       None \<Rightarrow> None
                     | Some s4 \<Rightarrow>
                         if prefix ''<'' s4 \<and> \<not> prefix ''</'' s4
                         then (case read_list k s4 of
                                 None \<Rightarrow> None
                               | Some (cs, s5) \<Rightarrow> map_option (\<lambda>r. (Node n as cs, r)) (strip (''</'' @ n @ ''>'') s5))
                         else (let (t, s5) = span (\<lambda>c. c \<noteq> CHR ''<'') s4 in
                               map_option (\<lambda>r. (Leaf n as t, r)) (strip (''</'' @ n @ ''>'') s5))))))"
| "read_list 0 s = None"
| "read_list (Suc k) s =
     (if prefix ''</'' s then Some ([], s)
      else (case read_xml k s of
              None \<Rightarrow> None
            | Some (x, r) \<Rightarrow> map_option (\<lambda>(xs, r'). (x # xs, r')) (read_list k r)))"

definition read_doc :: "string \<Rightarrow> xml option" where
  "read_doc s =
     (case strip ''<?xml version=\"1.0\" encoding=\"'' s of
        None \<Rightarrow> None
      | Some s1 \<Rightarrow>
          (case strip ''\"?>'' (snd (span (\<lambda>c. c \<noteq> CHR 0x22) s1)) of
             None \<Rightarrow> None
           | Some s2 \<Rightarrow>
               (case read_xml (length s2) s2 of Some (d, []) \<Rightarrow> Some d | _ \<Rightarrow> None)))"


section \<open>Reading back\<close>

text \<open>Trees whose names and texts do not break the markup.\<close>

definition name_ok :: "string \<Rightarrow> bool" where
  "name_ok n \<longleftrightarrow> n \<noteq> [] \<and> list_all tag_char n"

definition attrs_ok :: "(string \<times> string) list \<Rightarrow> bool" where
  "attrs_ok as \<longleftrightarrow> list_all (\<lambda>(a, v). name_ok a \<and> CHR 0x22 \<notin> set v) as"

definition text_ok :: "string \<Rightarrow> bool" where
  "text_ok t \<longleftrightarrow> CHR ''<'' \<notin> set t"

fun xml_ok :: "xml \<Rightarrow> bool" where
  "xml_ok (Empty n as) \<longleftrightarrow> name_ok n \<and> attrs_ok as"
| "xml_ok (Leaf n as t) \<longleftrightarrow> name_ok n \<and> attrs_ok as \<and> text_ok t"
| "xml_ok (Node n as cs) \<longleftrightarrow> name_ok n \<and> attrs_ok as \<and> cs \<noteq> [] \<and> list_all xml_ok cs"

lemma strip_append [simp]: "strip p (p @ s) = Some s"
  by (simp add: strip_def)

lemma span_append:
  assumes "list_all P a" and "s = [] \<or> \<not> P (hd s)"
  shows "span P (a @ s) = (a, s)"
  using assms by (cases s) (auto simp: span_def list_all_iff takeWhile_append dropWhile_append)

lemma not_tag_char [simp]:
  "\<not> tag_char (CHR ''<'')" "\<not> tag_char (CHR ''>'')" "\<not> tag_char (CHR ''/'')" "\<not> tag_char (CHR ''='')"
  "\<not> tag_char (CHR '' '')" "\<not> tag_char (CHR ''?'')" "\<not> tag_char (CHR 0x22)"
  by (simp_all add: tag_char_def)

lemma read_attrs_text:
  "attrs_ok as \<Longrightarrow> \<not> prefix '' '' s \<Longrightarrow> length as < k \<Longrightarrow> read_attrs k (attrs_text as @ s) = Some (as, s)"
proof (induction as arbitrary: k)
  case Nil
  then show ?case by (cases k) (auto simp: strip_def)
next
  case (Cons p as)
  obtain a v where p: "p = (a, v)" by fastforce
  obtain j where k: "k = Suc j" "length as < j" using Cons.prems(3) by (cases k) auto
  let ?r = "attrs_text as @ s"
  have a: "list_all tag_char a" "CHR 0x22 \<notin> set v" "attrs_ok as"
    using Cons.prems(1) by (auto simp: p attrs_ok_def name_ok_def)
  have "span tag_char (a @ ''=\"'' @ v @ CHR 0x22 # ?r) = (a, ''=\"'' @ v @ CHR 0x22 # ?r)"
    by (rule span_append) (use a in auto)
  moreover have "span (\<lambda>c. c \<noteq> CHR 0x22) (v @ CHR 0x22 # ?r) = (v, CHR 0x22 # ?r)"
    by (rule span_append) (use a in \<open>auto simp: list_all_iff\<close>)
  moreover have "read_attrs j ?r = Some (as, s)" by (rule Cons.IH [OF a(3) Cons.prems(2) k(2)])
  moreover have "strip '' '' (attrs_text (p # as) @ s) = Some (a @ ''=\"'' @ v @ CHR 0x22 # ?r)"
    by (simp add: p strip_def)
  ultimately show ?case
    by (simp add: k(1) p Let_def strip_def)
qed

lemma attrs_text_length: "length as \<le> length (attrs_text as)"
  by (induction as rule: attrs_text.induct) auto

lemma render_head: "\<exists>r. render x = CHR ''<'' # r"
  by (cases x) auto

lemma render_not_close: "xml_ok x \<Longrightarrow> \<not> prefix ''</'' (render x @ s)"
proof -
  assume "xml_ok x"
  then obtain c n r where "render x = CHR ''<'' # (c # n) @ r" "tag_char c"
    by (cases x) (auto simp: name_ok_def neq_Nil_conv)
  then show ?thesis by (auto simp: tag_char_def)
qed

lemma attrs_then:
  assumes "attrs_ok as" "length (attrs_text as @ s) \<le> k" "s = CHR ''>'' # r \<or> s = ''/>'' @ r"
  shows "read_attrs k (attrs_text as @ s) = Some (as, s)"
  using assms attrs_text_length [of as] by (intro read_attrs_text) auto

lemma name_then:
  assumes "name_ok n" "s = CHR ''>'' # r \<or> s = ''/>'' @ r"
  shows "span tag_char (n @ attrs_text as @ s) = (n, attrs_text as @ s)"
proof (rule span_append)
  show "list_all tag_char n" using assms(1) by (simp add: name_ok_def)
  show "attrs_text as @ s = [] \<or> \<not> tag_char (hd (attrs_text as @ s))"
    using assms(2) by (cases as rule: attrs_text.cases) auto
qed

text \<open>The round trip: one unit of fuel per character is enough.\<close>

lemma read_list_render:
  assumes "\<And>x s k. x \<in> set xs \<Longrightarrow> length (render x @ s) \<le> k \<Longrightarrow> read_xml k (render x @ s) = Some (x, s)"
    and "list_all xml_ok xs" and "prefix ''</'' s" and "length (concat (map render xs) @ s) < k"
  shows "read_list k (concat (map render xs) @ s) = Some (xs, s)"
  using assms
proof (induction xs arbitrary: k)
  case Nil
  then show ?case by (cases k) auto
next
  case (Cons x xs)
  obtain j where k: "k = Suc j" using Cons.prems(4) by (cases k) auto
  let ?r = "concat (map render xs) @ s"
  have "read_xml j (render x @ ?r) = Some (x, ?r)"
    using Cons.prems(1,4) by (simp add: k)
  moreover have "0 < length (render x)" using render_head [of x] by auto
  then have "length ?r < j"
    using Cons.prems(4) unfolding k length_append list.map concat.simps by linarith
  then have "read_list j ?r = Some (xs, s)"
    using Cons.prems by (intro Cons.IH) auto
  moreover have "\<not> prefix ''</'' (render x @ ?r)" using Cons.prems(2) by (simp add: render_not_close)
  ultimately show ?case by (simp add: k)
qed

lemma read_render:
  "xml_ok x \<Longrightarrow> length (render x @ s) \<le> k \<Longrightarrow> read_xml k (render x @ s) = Some (x, s)"
proof (induction x arbitrary: s k)
  case (Empty n as)
  obtain j where k: "k = Suc j" using Empty.prems(2) by (cases k) auto
  have "span tag_char (n @ attrs_text as @ ''/>'' @ s) = (n, attrs_text as @ ''/>'' @ s)"
    using Empty.prems(1) by (intro name_then) auto
  moreover have "read_attrs j (attrs_text as @ ''/>'' @ s) = Some (as, ''/>'' @ s)"
    using Empty.prems by (intro attrs_then) (auto simp: k)
  moreover have "n \<noteq> []" using Empty.prems(1) by (simp add: name_ok_def)
  ultimately show ?case by (simp add: k Let_def strip_def)
next
  case (Leaf n as t)
  obtain j where k: "k = Suc j" using Leaf.prems(2) by (cases k) auto
  let ?c = "t @ ''</'' @ n @ ''>'' @ s"
  have "span tag_char (n @ attrs_text as @ CHR ''>'' # ?c) = (n, attrs_text as @ CHR ''>'' # ?c)"
    using Leaf.prems(1) by (intro name_then) auto
  moreover have "read_attrs j (attrs_text as @ CHR ''>'' # ?c) = Some (as, CHR ''>'' # ?c)"
    using Leaf.prems by (intro attrs_then) (auto simp: k)
  moreover have "n \<noteq> []" using Leaf.prems(1) by (simp add: name_ok_def)
  moreover have "\<not> (prefix ''<'' ?c \<and> \<not> prefix ''</'' ?c)"
    using Leaf.prems(1) by (cases t) (auto simp: text_ok_def)
  moreover have "span (\<lambda>c. c \<noteq> CHR ''<'') ?c = (t, ''</'' @ n @ ''>'' @ s)"
    by (rule span_append) (use Leaf.prems(1) in \<open>auto simp: text_ok_def list_all_iff\<close>)
  moreover have "strip (''</'' @ n @ ''>'') (''</'' @ n @ ''>'' @ s) = Some s"
    using strip_append [of "''</'' @ n @ ''>''" s] by simp
  ultimately show ?case by (auto simp: k Let_def strip_def)
next
  case (Node n as cs)
  obtain j where k: "k = Suc j" using Node.prems(2) by (cases k) auto
  let ?e = "''</'' @ n @ ''>'' @ s"
  let ?c = "concat (map render cs) @ ?e"
  have "span tag_char (n @ attrs_text as @ CHR ''>'' # ?c) = (n, attrs_text as @ CHR ''>'' # ?c)"
    using Node.prems(1) by (intro name_then) auto
  moreover have "read_attrs j (attrs_text as @ CHR ''>'' # ?c) = Some (as, CHR ''>'' # ?c)"
    using Node.prems by (intro attrs_then) (auto simp: k)
  moreover have "n \<noteq> []" using Node.prems(1) by (simp add: name_ok_def)
  moreover obtain x xs where cs: "cs = x # xs" using Node.prems(1) by (cases cs) auto
  have "prefix ''<'' ?c" "\<not> prefix ''</'' ?c"
    using render_head [of x] render_not_close [of x "concat (map render xs) @ ?e"] Node.prems(1)
    by (auto simp: cs)
  moreover have "read_list j ?c = Some (cs, ?e)"
    using Node.prems by (intro read_list_render Node.IH) (auto simp: k list_all_iff)
  moreover have "strip (''</'' @ n @ ''>'') ?e = Some s"
    using strip_append [of "''</'' @ n @ ''>''" s] by simp
  ultimately show ?case by (simp add: k Let_def strip_def)
qed

lemma read_render_doc:
  assumes "xml_ok d" and "CHR 0x22 \<notin> set enc"
  shows "read_doc (render_doc enc d) = Some d"
proof -
  have "span (\<lambda>c. c \<noteq> CHR 0x22) (enc @ ''\"?>'' @ render d) = (enc, ''\"?>'' @ render d)"
    by (rule span_append) (use assms(2) in \<open>auto simp: list_all_iff\<close>)
  then show ?thesis
    using read_render [OF assms(1), of "[]" "length (render d)"]
    by (simp add: read_doc_def render_doc_def strip_def)
qed


section \<open>Messages in buffers\<close>

text \<open>
  The builders' idiom for messages of several parts: \<open>off += snprintf (buf + off, n - off, \<dots>)\<close>,
  with the check \<open>off < 0 || off >= n\<close> and an early return between two parts.
\<close>

definition snprintf_more :: "nat \<Rightarrow> int \<times> string \<Rightarrow> string \<Rightarrow> int \<times> string" where
  "snprintf_more n r s =
     (if fst r < 0 \<or> int n \<le> fst r then r
      else (fst r + int (length s), snd r @ take (n - nat (fst r) - 1) s))"

text \<open>What a builder's result promises about a text: below the size it is the length and the whole
  text, otherwise the result is not below the size; the buffer is never overrun.\<close>

definition renders :: "nat \<Rightarrow> int \<times> string \<Rightarrow> string \<Rightarrow> bool" where
  "renders n r s \<longleftrightarrow> 0 \<le> fst r \<and> (0 < n \<longrightarrow> length (snd r) < n) \<and>
     (length s < n \<longrightarrow> r = (int (length s), s)) \<and> (n \<le> length s \<longrightarrow> int n \<le> fst r)"

lemma renders_snprintf: "renders n (snprintf n s) s"
  by (auto simp: renders_def snprintf_def)

lemma renders_more:
  assumes "renders n r s"
  shows "renders n (snprintf_more n r t) (s @ t)"
proof (cases "length s < n")
  case True
  with assms have "r = (int (length s), s)" by (simp add: renders_def)
  with True show ?thesis by (auto simp: renders_def snprintf_more_def)
next
  case False
  with assms show ?thesis by (auto simp: renders_def snprintf_more_def)
qed

lemma renders_fits: "renders n r s \<Longrightarrow> fst r < int n \<longleftrightarrow> length s < n"
  by (auto simp: renders_def not_le)

lemma renders_snd: "renders n r s \<Longrightarrow> fst r < int n \<Longrightarrow> snd r = s \<and> fst r = int (length s)"
  by (auto simp: renders_fits) (auto simp: renders_def)

text \<open>A response that fits is read back as its document.\<close>

lemma renders_read:
  assumes "renders n r (render_doc enc d)" and "xml_ok d" and "CHR 0x22 \<notin> set enc" and "fst r < int n"
  shows "read_doc (snd r) = Some d"
  using renders_snd [OF assms(1,4)] read_render_doc [OF assms(2,3)] by simp


section \<open>Checking documents\<close>

lemma tag_table:
  "list_all tag_char ''ABCDEFGHIJKLMNOPQRSTUVWXYZabcdefghijklmnopqrstuvwxyz0123456789:_-.''"
  by (simp add: tag_char_def)

lemmas tag_facts = tag_table [unfolded list.pred_inject]

lemma text_ok_simps [simp]:
  "text_ok []" "text_ok (c # s) \<longleftrightarrow> c \<noteq> CHR ''<'' \<and> text_ok s" "text_ok (s @ t) \<longleftrightarrow> text_ok s \<and> text_ok t"
  by (auto simp: text_ok_def)

lemma digit_char_set: "d < 10 \<Longrightarrow> digit_char d \<in> set ''0123456789''"
  by (simp add: digit_char_def less_Suc_eq numeral_eq_Suc) (elim disjE; simp)

lemma show_nat_set: "set (show_nat n) \<subseteq> set ''0123456789''"
proof (induction n rule: show_nat.induct)
  case (1 n)
  show ?case
  proof (cases "n < 10")
    case True
    then show ?thesis using digit_char_set [of n] by (simp add: show_nat.simps [of n])
  next
    case False
    then show ?thesis using 1 digit_char_set [of "n mod 10"] by (simp add: show_nat.simps [of n])
  qed
qed

lemma show_text_ok [simp]: "text_ok (show_nat n)" "text_ok (show_int i)"
  using show_nat_set by (auto simp: text_ok_def show_int_def)

lemma show_no_quote [simp]: "CHR 0x22 \<notin> set (show_nat n)" "CHR 0x22 \<notin> set (show_int i)"
  using show_nat_set by (auto simp: show_int_def)

lemmas xml_check = name_ok_def attrs_ok_def tag_facts


section \<open>Documents delivered\<close>

text \<open>Every element's prefix is declared on the element or around it.\<close>

definition prefix_of :: "string \<Rightarrow> string" where
  "prefix_of n = (if CHR '':'' \<in> set n then takeWhile (\<lambda>c. c \<noteq> CHR '':'') n else [])"

definition declared :: "(string \<times> string) list \<Rightarrow> string list" where
  "declared as = map (drop 6 \<circ> fst) (filter (\<lambda>(a, v). take 6 a = ''xmlns:'') as)"

fun ns_ok :: "string list \<Rightarrow> xml \<Rightarrow> bool" where
  "ns_ok ps (Empty n as) \<longleftrightarrow> prefix_of n \<in> set (declared as @ ps)"
| "ns_ok ps (Leaf n as t) \<longleftrightarrow> prefix_of n \<in> set (declared as @ ps)"
| "ns_ok ps (Node n as cs) \<longleftrightarrow> prefix_of n \<in> set (declared as @ ps) \<and> list_all (ns_ok (declared as @ ps)) cs"

text \<open>A builder's result that reports to fit is the text of the document, for every buffer size, and
  the document uses no undeclared prefix.\<close>

definition delivers :: "nat \<Rightarrow> int \<times> string \<Rightarrow> xml \<Rightarrow> bool" where
  "delivers n r d \<longleftrightarrow> 0 \<le> fst r \<and> ns_ok [] d \<and>
     (fst r < int n \<longrightarrow> length (snd r) = nat (fst r) \<and> read_doc (snd r) = Some d)"

lemma renders_delivers:
  assumes "renders n r (render_doc enc d)" and "xml_ok d" and "CHR 0x22 \<notin> set enc" and "ns_ok [] d"
  shows "delivers n r d"
  using assms renders_read [OF assms(1-3)] renders_snd [OF assms(1)] by (auto simp: delivers_def renders_def)

end
