(* ===== verification/Calendar.thy ===== *)
theory Calendar
  imports Onvif_Prelude "HOL-Library.Signed_Division"
begin

text \<open>
  Calendar arithmetic: \<open>days_from_civil\<close> of \<open>core/onvif_time.c\<close>, \<open>onvif_wsse_parse_created\<close> of
  \<open>core/onvif_wsse.c\<close>, \<open>iso8601\<close> of \<open>esp_idf/onvif_c_events.c\<close>, and the parts of the C library
  they use (\<open>sscanf\<close> of decimal fields, \<open>gmtime_r\<close>, \<open>strftime\<close>).  The reference is the
  proleptic Gregorian calendar, counted year by year and month by month.  The values stay far
  inside 64 bits and are integers here; \<open>sdiv\<close> is C's truncating division.
\<close>

section \<open>The reference calendar\<close>

definition leap :: "int \<Rightarrow> bool" where
  "leap y \<longleftrightarrow> y mod 4 = 0 \<and> y mod 100 \<noteq> 0 \<or> y mod 400 = 0"

definition year_len :: "int \<Rightarrow> int" where
  "year_len y = 365 + of_bool (leap y)"

definition month_len :: "int \<Rightarrow> int \<Rightarrow> int" where
  "month_len y m = (if m = 2 then 28 + of_bool (leap y)
     else if m = 4 \<or> m = 6 \<or> m = 9 \<or> m = 11 then 30 else 31)"

text \<open>Days from 1970-01-01 to the given date, for years from 1970 on.\<close>

definition civil_days :: "int \<Rightarrow> int \<Rightarrow> int \<Rightarrow> int" where
  "civil_days y m d = (\<Sum>k\<in>{1970..<y}. year_len k) + (\<Sum>k\<in>{1..<m}. month_len y k) + d - 1"

definition civil_seconds :: "int \<Rightarrow> int \<Rightarrow> int \<Rightarrow> int \<Rightarrow> int \<Rightarrow> int \<Rightarrow> int" where
  "civil_seconds y m d h mi s = civil_days y m d * 86400 + h * 3600 + mi * 60 + s"

definition valid_date :: "int \<Rightarrow> int \<Rightarrow> int \<Rightarrow> bool" where
  "valid_date y m d \<longleftrightarrow> 1970 \<le> y \<and> 1 \<le> m \<and> m \<le> 12 \<and> 1 \<le> d \<and> d \<le> month_len y m"


section \<open>The code: \<open>onvif_time.c\<close>\<close>

text \<open>\<open>yoe\<close>, \<open>doy\<close> and \<open>doe\<close> are \<open>unsigned\<close>, so their arithmetic wraps at 32 bits.\<close>

definition days_from_civil :: "int \<Rightarrow> int \<Rightarrow> int \<Rightarrow> int" where
  "days_from_civil y0 m d =
     (let y = y0 - of_bool (m \<le> 2);
          era = (if 0 \<le> y then y else y - 399) sdiv 400;
          yoe = word_of_int (y - era * 400) :: u32;
          doy = word_of_int ((153 * (m + (if 2 < m then - 3 else 9)) + 2) sdiv 5 + d - 1) :: u32;
          doe = yoe * 365 + yoe div 4 - yoe div 100 + doy
      in era * 146097 + uint doe - 719468)"


section \<open>The code: \<open>onvif_wsse_parse_created\<close>\<close>

text \<open>\<open>%Nd\<close> of \<open>sscanf\<close>: white space, an optional sign, at most \<open>N\<close> characters in all.\<close>

definition c_isspace :: "char \<Rightarrow> bool" where
  "c_isspace c \<longleftrightarrow> c \<in> {CHR '' '', CHR 0x09, CHR 0x0A, CHR 0x0B, CHR 0x0C, CHR 0x0D}"

definition c_isdigit :: "char \<Rightarrow> bool" where
  "c_isdigit c \<longleftrightarrow> 48 \<le> (of_char c :: nat) \<and> (of_char c :: nat) \<le> 57"

definition digit_val :: "char \<Rightarrow> int" where
  "digit_val c = of_char c - 48"

definition dec_val :: "string \<Rightarrow> int" where
  "dec_val ds = foldl (\<lambda>a c. 10 * a + digit_val c) 0 ds"

definition scan_sign :: "string \<Rightarrow> int \<times> string" where
  "scan_sign s = (case s of c # r \<Rightarrow>
       (if c = CHR ''-'' then (- 1, r) else if c = CHR ''+'' then (1, r) else (1, s))
     | [] \<Rightarrow> (1, s))"

definition scan_int :: "nat \<Rightarrow> string \<Rightarrow> (int \<times> string) option" where
  "scan_int w s =
     (let s1 = dropWhile c_isspace s;
          (sg, s2) = scan_sign s1;
          w' = w - (length s1 - length s2);
          ds = takeWhile c_isdigit (take w' s2)
      in if ds = [] then None else Some (sg * dec_val ds, drop (length ds) s2))"

text \<open>A literal character of the format.\<close>

definition scan_lit :: "char \<Rightarrow> string \<Rightarrow> string option" where
  "scan_lit c s = (case s of x # r \<Rightarrow> if x = c then Some r else None | [] \<Rightarrow> None)"

text \<open>The format \<open>%4d-%2d-%2dT%2d:%2d:%2d\<close>; all six conversions succeed or the scan fails.\<close>

definition scan_created :: "string \<Rightarrow> (int \<times> int \<times> int \<times> int \<times> int \<times> int) option" where
  "scan_created s0 =
     Option.bind (scan_int 4 s0) (\<lambda>(y, s1).
     Option.bind (scan_lit CHR ''-'' s1) (\<lambda>s2.
     Option.bind (scan_int 2 s2) (\<lambda>(mo, s3).
     Option.bind (scan_lit CHR ''-'' s3) (\<lambda>s4.
     Option.bind (scan_int 2 s4) (\<lambda>(d, s5).
     Option.bind (scan_lit CHR ''T'' s5) (\<lambda>s6.
     Option.bind (scan_int 2 s6) (\<lambda>(h, s7).
     Option.bind (scan_lit CHR '':'' s7) (\<lambda>s8.
     Option.bind (scan_int 2 s8) (\<lambda>(mi, s9).
     Option.bind (scan_lit CHR '':'' s9) (\<lambda>s10.
     Option.bind (scan_int 2 s10) (\<lambda>(s, _).
     Some (y, mo, d, h, mi, s))))))))))))"

definition created_seconds :: "int \<Rightarrow> int \<Rightarrow> int \<Rightarrow> int \<Rightarrow> int \<Rightarrow> int \<Rightarrow> int" where
  "created_seconds y mo d h mi s =
     (let yy = (if mo \<le> 2 then y - 1 else y);
          era = (if 0 \<le> yy then yy else yy - 399) sdiv 400;
          yoe = yy - era * 400;
          mp = (mo + 9) mod 12;
          doy = (153 * mp + 2) div 5 + d - 1;
          doe = yoe * 365 + yoe div 4 - yoe div 100 + doy;
          days = era * 146097 + doe - 719468
      in days * 86400 + h * 3600 + mi * 60 + s)"

definition onvif_wsse_parse_created :: "string \<Rightarrow> int option" where
  "onvif_wsse_parse_created created =
     (case scan_created created of
        None \<Rightarrow> None
      | Some (y, mo, d, h, mi, s) \<Rightarrow>
          if mo < 1 \<or> 12 < mo \<or> d < 1 \<or> 31 < d then None
          else Some (created_seconds y mo d h mi s))"


section \<open>The code: \<open>iso8601\<close>\<close>

text \<open>\<open>gmtime_r\<close> for times from 1970 on: count whole years, then whole months.\<close>

function gm_year :: "int \<Rightarrow> int \<Rightarrow> int \<times> int" where
  "gm_year y n = (if n < year_len y then (y, n) else gm_year (y + 1) (n - year_len y))"
  by pat_completeness auto
termination
  by (relation "measure (\<lambda>(y, n). nat n)") (auto simp: year_len_def of_bool_def split: if_splits)

function gm_month :: "int \<Rightarrow> int \<Rightarrow> int \<Rightarrow> int \<times> int" where
  "gm_month y m n =
     (if 12 \<le> m \<or> n < month_len y m then (m, n) else gm_month y (m + 1) (n - month_len y m))"
  by pat_completeness auto
termination
  by (relation "measure (\<lambda>(y, m, n). nat (12 - m))") auto

declare gm_year.simps [simp del] gm_month.simps [simp del]

record tm =
  tm_year :: int   \<comment> \<open>the full year; the C field is this less 1900\<close>
  tm_mon :: int    \<comment> \<open>1 to 12; the C field is this less 1\<close>
  tm_mday :: int
  tm_hour :: int
  tm_min :: int
  tm_sec :: int

definition gmtime :: "int \<Rightarrow> tm" where
  "gmtime t =
     (let (y, n) = gm_year 1970 (t div 86400); (m, k) = gm_month y 1 n; r = t mod 86400
      in \<lparr>tm_year = y, tm_mon = m, tm_mday = k + 1,
          tm_hour = r div 3600, tm_min = r mod 3600 div 60, tm_sec = r mod 60\<rparr>)"

text \<open>The text of \<open>strftime\<close> for \<open>%Y-%m-%dT%H:%M:%SZ\<close>.\<close>

definition iso8601_text :: "tm \<Rightarrow> string" where
  "iso8601_text tm =
     show_nat (nat (tm_year tm)) @ ''-'' @ zero_pad 2 (show_nat (nat (tm_mon tm))) @ ''-'' @
     zero_pad 2 (show_nat (nat (tm_mday tm))) @ ''T'' @ zero_pad 2 (show_nat (nat (tm_hour tm))) @
     '':'' @ zero_pad 2 (show_nat (nat (tm_min tm))) @ '':'' @
     zero_pad 2 (show_nat (nat (tm_sec tm))) @ ''Z''"

text \<open>
  \<open>strftime\<close> stores nothing usable when the text does not fit; with the 24-byte buffers of the
  callers that takes a year of eight digits, and the model then has the empty string.
\<close>

definition iso8601 :: "int \<Rightarrow> nat \<Rightarrow> string" where
  "iso8601 t n = (let s = iso8601_text (gmtime t) in if length s < n then s else [])"


section \<open>The closed form counts days\<close>

definition cycle_days :: "int \<Rightarrow> int" where
  "cycle_days y = 365 * y + y div 4 - y div 100 + y div 400"

lemma div_step:
  fixes y k :: int
  assumes "0 < k"
  shows "y div k = (y - 1) div k + of_bool (y mod k = 0)"
proof -
  let ?q = "y div k" and ?r = "y mod k"
  have y: "y = ?q * k + ?r" by simp
  have r: "0 \<le> ?r" "?r < k" using assms by simp_all
  show ?thesis
  proof (cases "?r = 0")
    case True
    have "(y - 1) div k = ((?q - 1) * k + (k - 1)) div k" using y True by (simp add: algebra_simps)
    also have "\<dots> = ?q - 1" using assms by (simp add: div_pos_pos_trivial)
    finally show ?thesis using True by simp
  next
    case False
    have "(y - 1) div k = (?q * k + (?r - 1)) div k" using y by (simp add: algebra_simps)
    also have "\<dots> = ?q" using assms r False by (simp add: div_pos_pos_trivial)
    finally show ?thesis using False by simp
  qed
qed

lemma leap_bools:
  "of_bool (leap y) =
     of_bool (y mod 4 = 0) - of_bool (y mod 100 = 0) + (of_bool (y mod 400 = 0) :: int)"
proof -
  have "y mod 400 = 0 \<Longrightarrow> y mod 100 = 0" "y mod 100 = 0 \<Longrightarrow> y mod 4 = 0"
    by (auto simp: mod_eq_0_iff_dvd elim: dvd_trans [rotated])
  then show ?thesis by (auto simp: leap_def)
qed

lemma cycle_days_step: "cycle_days y = cycle_days (y - 1) + year_len y"
proof -
  have alg: "365 * y + (a + p) - (b + q) + (c + r) =
      365 * (y - 1) + a - b + c + (365 + (p - q + r))" for a b c p q r :: int
    by (simp add: algebra_simps)
  show ?thesis
    unfolding cycle_days_def year_len_def leap_bools
    by (subst (1) div_step [of 4 y], simp, subst (1) div_step [of 100 y], simp,
        subst (1) div_step [of 400 y], simp, rule alg)
qed

lemma sum_years: "1970 \<le> y \<Longrightarrow> (\<Sum>k\<in>{1970..<y}. year_len k) = cycle_days (y - 1) - 719162"
proof (induction y rule: int_ge_induct)
  case base
  then show ?case by (simp add: cycle_days_def)
next
  case (step y)
  have "{1970..<y + 1} = insert y {1970..<y}" using step.hyps by auto
  with step show ?case using cycle_days_step [of y] by simp
qed

lemma month_cases:
  fixes m :: int
  assumes "1 \<le> m" "m \<le> 12"
  shows "m = 1 \<or> m = 2 \<or> m = 3 \<or> m = 4 \<or> m = 5 \<or> m = 6 \<or> m = 7 \<or> m = 8 \<or> m = 9 \<or> m = 10 \<or> m = 11 \<or> m = 12"
  using assms by presburger

lemma month_sum_step:
  "i < j \<Longrightarrow> (\<Sum>k\<in>{i..<j}. month_len y k) = month_len y i + (\<Sum>k\<in>{i + 1..<j}. month_len y k)" for i j :: int
proof -
  assume "i < j"
  then have "{i..<j} = insert i {i + 1..<j}" by auto
  then show ?thesis by simp
qed

lemma sum_months:
  "1 \<le> m \<Longrightarrow> m \<le> 12 \<Longrightarrow> (\<Sum>k\<in>{1..<m}. month_len y k) =
     (153 * ((m + 9) mod 12) + 2) div 5 + (if m \<le> 2 then - 306 else 59 + of_bool (leap y))"
  by (drule (1) month_cases, elim disjE) (simp_all add: month_sum_step, simp_all add: month_len_def)

lemma sdiv_nonneg: "0 \<le> y \<Longrightarrow> y sdiv 400 = y div 400" for y :: int
  by (cases "y = 0") (simp_all add: signed_divide_int_def)

lemma era_cycle:
  assumes "0 \<le> y"
  shows "y sdiv 400 * 146097 + ((y - y sdiv 400 * 400) * 365 + (y - y sdiv 400 * 400) div 4 -
      (y - y sdiv 400 * 400) div 100) = cycle_days y"
proof -
  obtain q r where y: "y = r + 400 * q" and q: "y div 400 = q"
    by (metis mod_mult_div_eq)
  have d: "y div 4 = r div 4 + 100 * q" "y div 100 = r div 100 + 4 * q"
    using div_mult_self2 [of 4 r "100 * q"] div_mult_self2 [of 100 r "4 * q"] by (simp_all add: y)
  have s: "y sdiv 400 = q" using assms by (simp add: sdiv_nonneg q)
  have r: "y - q * 400 = r" by (simp add: y)
  have alg: "q * 146097 + (r * 365 + a - b) = 365 * (r + 400 * q) + (a + 100 * q) - (b + 4 * q) + q"
    for a b by (simp add: algebra_simps)
  show ?thesis
    unfolding cycle_days_def s r d q using alg unfolding y .
qed

lemma month_index: "1 \<le> m \<Longrightarrow> m \<le> 12 \<Longrightarrow> m + (if 2 < m then - 3 else 9) = (m + 9) mod (12::int)"
  by (drule (1) month_cases, elim disjE) simp_all

text \<open>The formula without wrap-around.\<close>

definition civil_closed :: "int \<Rightarrow> int \<Rightarrow> int \<Rightarrow> int" where
  "civil_closed y0 m d =
     (let y = y0 - of_bool (m \<le> 2);
          era = (if 0 \<le> y then y else y - 399) sdiv 400;
          yoe = y - era * 400;
          doy = (153 * (m + (if 2 < m then - 3 else 9)) + 2) div 5 + d - 1;
          doe = yoe * 365 + yoe div 4 - yoe div 100 + doy
      in era * 146097 + doe - 719468)"

lemma civil_closed_correct:
  assumes "1970 \<le> y" "1 \<le> m" "m \<le> 12"
  shows "civil_closed y m d = civil_days y m d"
proof -
  define y' where "y' = y - of_bool (m \<le> 2)"
  have y': "0 \<le> y'" using assms by (simp add: y'_def)
  have regroup: "e + (x + a - b + (k + d - 1)) - c = (e + (x + a - b)) + k + d - 1 - c"
    for e x a b k c :: int by simp
  have "civil_closed y m d =
      cycle_days y' + (153 * ((m + 9) mod 12) + 2) div 5 + d - 1 - 719468"
    unfolding civil_closed_def Let_def y'_def [symmetric] if_P [OF y'] era_cycle [OF y', symmetric]
      month_index [OF assms(2,3)] by (rule regroup)
  also have "\<dots> = civil_days y m d"
    using sum_years [OF assms(1)] sum_months [OF assms(2,3)] cycle_days_step [of y]
    by (auto simp: civil_days_def y'_def year_len_def)
  finally show ?thesis .
qed
lemma created_seconds_eq:
  assumes "1 \<le> m" "m \<le> 12"
  shows "created_seconds y m d h mi s = civil_closed y m d * 86400 + h * 3600 + mi * 60 + s"
  using month_index [OF assms] by (simp add: created_seconds_def civil_closed_def Let_def)

text \<open>And nothing wraps for the dates that the callers let through.\<close>

lemma u32_of_int: "0 \<le> r \<Longrightarrow> r < 4294967296 \<Longrightarrow> uint (word_of_int r :: u32) = r"
  by (simp add: uint_word_of_int_eq take_bit_eq_mod)

lemma u32_div_of_int:
  "0 \<le> r \<Longrightarrow> r < 4294967296 \<Longrightarrow> 0 < k \<Longrightarrow> k < 4294967296 \<Longrightarrow>
     (word_of_int r :: u32) div word_of_int k = word_of_int (r div k)"
proof -
  assume a: "0 \<le> r" "r < 4294967296" "0 < k" "k < 4294967296"
  have "r div k \<le> r" "0 \<le> r div k" using a zdiv_mono2 [of r 1 k] by (simp_all add: pos_imp_zdiv_nonneg_iff)
  with a have "uint (word_of_int (r div k) :: u32) = r div k" by (intro u32_of_int) simp_all
  moreover have "uint ((word_of_int r :: u32) div word_of_int k) = r div k"
    unfolding uint_div using u32_of_int [of r] u32_of_int [of k] a by simp
  ultimately show ?thesis by (simp only: word_uint_eq_iff)
qed

lemma days_from_civil_correct:
  assumes "1970 \<le> y" "1 \<le> m" "m \<le> 12" "1 \<le> d" "d \<le> 31"
  shows "days_from_civil y m d = civil_days y m d"
proof -
  define y' where "y' = y - of_bool (m \<le> 2)"
  define r where "r = y' - y' sdiv 400 * 400"
  define k where "k = (153 * (m + (if 2 < m then - 3 else 9)) + 2) div 5 + d - 1"
  have y': "0 \<le> y'" using assms by (simp add: y'_def)
  then have r: "0 \<le> r" "r < 400" using minus_div_mult_eq_mod [of y' 400] by (simp_all add: r_def sdiv_nonneg)
  have pos: "0 \<le> 153 * (m + (if 2 < m then - 3 else 9)) + 2" using assms by auto
  have sd: "(153 * (m + (if 2 < m then - 3 else 9)) + 2) sdiv 5 = (153 * (m + (if 2 < m then - 3 else 9)) + 2) div 5"
    using pos by (auto simp: signed_divide_int_def sgn_if)
  have k: "0 \<le> k" "k \<le> 400" using month_cases [OF assms(2,3)] assms(4,5) by (auto simp: k_def)
  have "r div 100 \<le> r * 365" "r * 365 \<le> 145635" "0 \<le> r div 4" "r div 4 < 100" "0 \<le> r div 100" using r by auto
  then have d: "0 \<le> r * 365 + r div 4 - r div 100 + k" "r * 365 + r div 4 - r div 100 + k < 4294967296"
    using k by simp_all
  have w: "(word_of_int r :: u32) div 4 = word_of_int (r div 4)" "(word_of_int r :: u32) div 100 = word_of_int (r div 100)"
    using u32_div_of_int [of r 4] u32_div_of_int [of r 100] r by simp_all
  have "(word_of_int r :: u32) * 365 + word_of_int r div 4 - word_of_int r div 100 + word_of_int k =
      word_of_int (r * 365 + r div 4 - r div 100 + k)"
    unfolding w by simp
  then have "uint ((word_of_int r :: u32) * 365 + word_of_int r div 4 - word_of_int r div 100 + word_of_int k) =
      r * 365 + r div 4 - r div 100 + k"
    by (simp only: u32_of_int [OF d])
  then have "days_from_civil y m d = civil_closed y m d"
    unfolding days_from_civil_def civil_closed_def Let_def y'_def [symmetric] if_P [OF y'] sd r_def [symmetric] k_def [symmetric]
    by simp
  with civil_closed_correct [OF assms(1-3)] show ?thesis by simp
qed


section \<open>\<open>gmtime\<close> inverts the calendar\<close>

lemma year_len_pos: "0 < year_len y"
  by (simp add: year_len_def)

lemma month_len_pos: "0 < month_len y m"
  by (simp add: month_len_def)

lemma year_months: "(\<Sum>k\<in>{1..<13}. month_len y k) = year_len y"
  by (simp add: month_sum_step, simp add: month_len_def year_len_def)

lemma year_sum_snoc: "1970 \<le> y \<Longrightarrow>
    (\<Sum>k\<in>{1970..<y + 1}. year_len k) = (\<Sum>k\<in>{1970..<y}. year_len k) + year_len y"
proof -
  assume "1970 \<le> y"
  then have "{1970..<y + 1} = insert y {1970..<y}" by auto
  then show ?thesis by simp
qed

lemma month_sum_snoc: "1 \<le> m \<Longrightarrow>
    (\<Sum>k\<in>{1..<m + 1}. month_len y k) = (\<Sum>k\<in>{1..<m}. month_len y k) + month_len y m"
proof -
  assume "1 \<le> m"
  then have "{1..<m + 1} = insert m {1..<m}" by auto
  then show ?thesis by simp
qed

lemma gm_year_correct:
  assumes "1970 \<le> y" "0 \<le> n" "gm_year y n = (y', r)"
  shows "1970 \<le> y'" "0 \<le> r" "r < year_len y'"
    "(\<Sum>k\<in>{1970..<y}. year_len k) + n = (\<Sum>k\<in>{1970..<y'}. year_len k) + r"
proof -
  have "1970 \<le> y' \<and> 0 \<le> r \<and> r < year_len y' \<and>
    (\<Sum>k\<in>{1970..<y}. year_len k) + n = (\<Sum>k\<in>{1970..<y'}. year_len k) + r"
    using assms
  proof (induction y n rule: gm_year.induct)
    case (1 y n)
    show ?case
    proof (cases "n < year_len y")
      case True
      with "1.prems" show ?thesis by (simp add: gm_year.simps [of y n])
    next
      case False
      with "1.prems" have "gm_year (y + 1) (n - year_len y) = (y', r)"
        by (simp add: gm_year.simps [of y n])
      with "1.IH" [OF False] "1.prems"(1) False show ?thesis by (simp add: year_sum_snoc)
    qed
  qed
  then show "1970 \<le> y'" "0 \<le> r" "r < year_len y'"
    "(\<Sum>k\<in>{1970..<y}. year_len k) + n = (\<Sum>k\<in>{1970..<y'}. year_len k) + r" by blast+
qed

lemma gm_month_correct:
  assumes "1 \<le> m" "m \<le> 12" "0 \<le> n" "(\<Sum>k\<in>{1..<m}. month_len y k) + n < year_len y"
    "gm_month y m n = (m', r)"
  shows "1 \<le> m' \<and> m' \<le> 12 \<and> 0 \<le> r \<and> r < month_len y m' \<and>
    (\<Sum>k\<in>{1..<m}. month_len y k) + n = (\<Sum>k\<in>{1..<m'}. month_len y k) + r"
  using assms
proof (induction y m n rule: gm_month.induct)
  case (1 y m n)
  show ?case
  proof (cases "12 \<le> m \<or> n < month_len y m")
    case True
    have "n < month_len y m"
    proof (cases "m = 12")
      case m: True
      have "(\<Sum>k\<in>{1..<12}. month_len y k) + month_len y 12 = year_len y"
        using month_sum_snoc [of 12 y] year_months [of y] by simp
      with "1.prems"(4) m show ?thesis by simp
    qed (use True "1.prems"(2) in simp)
    with True "1.prems" show ?thesis by (simp add: gm_month.simps [of y m n])
  next
    case False
    with "1.prems" have "gm_month y (m + 1) (n - month_len y m) = (m', r)"
      by (simp add: gm_month.simps [of y m n])
    with "1.IH" [OF False] "1.prems" False show ?thesis by (simp add: month_sum_snoc)
  qed
qed

definition tm_seconds :: "tm \<Rightarrow> int" where
  "tm_seconds tm = civil_seconds (tm_year tm) (tm_mon tm) (tm_mday tm) (tm_hour tm) (tm_min tm) (tm_sec tm)"

definition tm_valid :: "tm \<Rightarrow> bool" where
  "tm_valid tm \<longleftrightarrow> valid_date (tm_year tm) (tm_mon tm) (tm_mday tm) \<and> 0 \<le> tm_hour tm \<and> tm_hour tm < 24 \<and>
     0 \<le> tm_min tm \<and> tm_min tm < 60 \<and> 0 \<le> tm_sec tm \<and> tm_sec tm < 60"

lemma clock_split:
  fixes r :: int
  assumes "0 \<le> r" "r < 86400"
  shows "0 \<le> r div 3600" "r div 3600 < 24" "0 \<le> r mod 3600 div 60" "r mod 3600 div 60 < 60"
    "0 \<le> r mod 60" "r mod 60 < 60" "r div 3600 * 3600 + r mod 3600 div 60 * 60 + r mod 60 = r"
proof -
  have m: "r mod 3600 mod 60 = r mod 60" by (simp add: mod_mod_cancel)
  show "0 \<le> r div 3600" "0 \<le> r mod 3600 div 60" "0 \<le> r mod 60" "r mod 60 < 60"
    using assms by (simp_all add: pos_imp_zdiv_nonneg_iff)
  show "r div 3600 < 24" using assms by (simp add: div_less_iff_less_mult)
  show "r mod 3600 div 60 < 60" by (simp add: div_less_iff_less_mult)
  have "r mod 3600 div 60 * 60 + r mod 60 = r mod 3600"
    using div_mult_mod_eq [of "r mod 3600" 60] m by simp
  then show "r div 3600 * 3600 + r mod 3600 div 60 * 60 + r mod 60 = r"
    using div_mult_mod_eq [of r 3600] by linarith
qed

lemma gmtime_correct:
  assumes "0 \<le> t"
  shows "tm_valid (gmtime t)" "tm_seconds (gmtime t) = t"
proof -
  obtain y n where y: "gm_year 1970 (t div 86400) = (y, n)" by force
  obtain m k where m: "gm_month y 1 n = (m, k)" by force
  have "0 \<le> t div 86400" using assms by (simp add: pos_imp_zdiv_nonneg_iff)
  note Y = gm_year_correct [OF _ this y, simplified]
  have M: "1 \<le> m \<and> m \<le> 12 \<and> 0 \<le> k \<and> k < month_len y m \<and> n = (\<Sum>k\<in>{1..<m}. month_len y k) + k"
    using gm_month_correct [OF _ _ Y(2) _ m] Y(3) by simp
  have r: "0 \<le> t mod 86400" "t mod 86400 < 86400" by simp_all
  note R = clock_split [OF r]
  have days: "civil_days y m (k + 1) = t div 86400" using Y(4) M by (simp add: civil_days_def)
  have k: "1 \<le> k + 1" "k + 1 \<le> month_len y m" using M by simp_all
  have combine: "c * 86400 + h * 3600 + mi * 60 + s = t"
    if "c = q" "h * 3600 + mi * 60 + s = r" "q * 86400 + r = t" for c h mi s q r :: int
    using that by simp
  show "tm_seconds (gmtime t) = t"
    unfolding tm_seconds_def civil_seconds_def gmtime_def y m Let_def prod.case tm.simps
    by (rule combine [OF days R(7) div_mult_mod_eq [of t 86400]])
  show "tm_valid (gmtime t)"
    unfolding tm_valid_def valid_date_def gmtime_def y m Let_def prod.case tm.simps
    by (intro conjI; (rule Y(1) k R(1-6) | use M in blast))
qed



section \<open>Decimal fields scan back\<close>

lemma digit_char_facts:
  assumes "d < 10"
  shows "c_isdigit (digit_char d)" "digit_val (digit_char d) = int d" "\<not> c_isspace (digit_char d)"
    "digit_char d \<noteq> CHR ''-''" "digit_char d \<noteq> CHR ''+''"
proof -
  have "d \<in> {0,1,2,3,4,5,6,7,8,9}" using assms by auto
  then show "c_isdigit (digit_char d)" "digit_val (digit_char d) = int d" "\<not> c_isspace (digit_char d)"
    "digit_char d \<noteq> CHR ''-''" "digit_char d \<noteq> CHR ''+''"
    by (auto simp: digit_char_def c_isdigit_def digit_val_def c_isspace_def)
qed

lemma show_nat_digits: "c \<in> set (show_nat n) \<Longrightarrow> \<exists>d<10. c = digit_char d"
proof (induction n rule: show_nat.induct)
  case (1 n)
  then show ?case
  proof (cases "n < 10")
    case False
    with 1 have "c = digit_char (n mod 10) \<or> c \<in> set (show_nat (n div 10))"
      by (auto simp: show_nat.simps [of n])
    with 1 False show ?thesis by (metis mod_less_divisor zero_less_numeral)
  qed (auto simp: show_nat.simps [of n])
qed

lemma dec_val_snoc: "dec_val (ds @ [c]) = 10 * dec_val ds + digit_val c"
  by (simp add: dec_val_def)

lemma dec_val_show_nat: "dec_val (show_nat n) = int n"
proof (induction n rule: show_nat.induct)
  case (1 n)
  show ?case
  proof (cases "n < 10")
    case True
    then show ?thesis by (simp add: show_nat.simps [of n] dec_val_def digit_char_facts)
  next
    case False
    then have "dec_val (show_nat n) = 10 * int (n div 10) + int (n mod 10)"
      using "1.IH" by (simp add: show_nat.simps [of n] dec_val_snoc digit_char_facts)
    then show ?thesis by (simp add: zdiv_int zmod_int)
  qed
qed

lemma digit_char_0: "CHR ''0'' = digit_char 0"
  by (simp add: digit_char_def)

lemma dec_val_zeros: "dec_val (replicate k (CHR ''0'') @ ds) = dec_val ds"
  by (induction k) (simp_all add: dec_val_def digit_char_0 digit_char_facts)

lemma dec_val_zero_pad: "dec_val (zero_pad w (show_nat n)) = int n"
  by (simp add: zero_pad_def dec_val_zeros dec_val_show_nat)

lemma zero_pad_digits: "c \<in> set (zero_pad w (show_nat n)) \<Longrightarrow> \<exists>d<10. c = digit_char d"
  unfolding zero_pad_def digit_char_0
  by (metis Un_iff in_set_replicate set_append show_nat_digits zero_less_numeral)

lemma show_nat_length_lower: "10 ^ k \<le> n \<Longrightarrow> Suc k \<le> length (show_nat n)"
proof (induction k arbitrary: n)
  case 0
  then show ?case by (simp add: Suc_le_eq)
next
  case (Suc k)
  then have "10 ^ k \<le> n div 10" by (simp add: less_eq_div_iff_mult_less_eq mult.commute)
  then have "Suc k \<le> length (show_nat (n div 10))" by (rule Suc.IH)
  moreover have "10 \<le> n" using le_trans [OF _ Suc.prems, of 10] by simp
  ultimately show ?case by (simp add: show_nat.simps [of n])
qed

lemma takeWhile_all_take: "\<forall>c\<in>set ds. P c \<Longrightarrow> takeWhile P (take (length ds) (ds @ r)) = ds"
  by (simp add: takeWhile_eq_all_conv)

text \<open>A field of exactly \<open>w\<close> digits is read whole, whatever follows.\<close>

lemma scan_int_digits:
  assumes "length ds = w" "0 < w" "\<And>c. c \<in> set ds \<Longrightarrow> \<exists>d<10. c = digit_char d"
  shows "scan_int w (ds @ r) = Some (dec_val ds, r)"
proof -
  obtain c cs where ds: "ds = c # cs" using assms(1,2) by (cases ds) auto
  have c: "\<not> c_isspace c" "c \<noteq> CHR ''-''" "c \<noteq> CHR ''+''"
    using assms(3) [of c] digit_char_facts by (auto simp: ds)
  have tw: "takeWhile c_isdigit (take w (ds @ r)) = ds"
    unfolding assms(1) [symmetric]
    by (rule takeWhile_all_take) (use assms(3) digit_char_facts(1) in blast)
  show ?thesis
    using c tw by (simp add: scan_int_def scan_sign_def Let_def ds)
qed

lemma scan_lit_Cons [simp]: "scan_lit c (c # r) = Some r"
  by (simp add: scan_lit_def)

lemma scan_two:
  assumes "0 \<le> n" "n < 100"
  shows "scan_int 2 (zero_pad 2 (show_nat (nat n)) @ r) = Some (n, r)"
proof -
  have "length (zero_pad 2 (show_nat (nat n))) = 2"
    using assms show_nat_length [of "nat n" 2] by (intro zero_pad_length) auto
  from scan_int_digits [OF this _ zero_pad_digits] show ?thesis
    using assms by (simp add: dec_val_zero_pad)
qed

lemma show_four_length:
  assumes "1000 \<le> n" "n < 10000"
  shows "length (show_nat (nat n)) = 4"
proof -
  have "nat n < 10 ^ 4" "10 ^ 3 \<le> nat n" using assms by (simp_all add: nat_less_iff le_nat_iff)
  then show ?thesis using show_nat_length [of "nat n" 4] show_nat_length_lower [of 3 "nat n"] by simp
qed

lemma scan_four:
  assumes "1000 \<le> n" "n < 10000"
  shows "scan_int 4 (show_nat (nat n) @ r) = Some (n, r)"
proof -
  have "length (show_nat (nat n)) = 4" using assms by (rule show_four_length)
  from scan_int_digits [OF this _ show_nat_digits] show ?thesis
    using assms by (simp add: dec_val_show_nat)
qed

lemma tm_bounds: "tm_valid tm \<Longrightarrow> 1 \<le> tm_mon tm \<and> tm_mon tm < 13 \<and> 1 \<le> tm_mday tm \<and> tm_mday tm < 32"
  by (auto simp: tm_valid_def valid_date_def month_len_def of_bool_def split: if_splits)

lemma iso8601_length:
  assumes "tm_valid tm" "tm_year tm < 10000"
  shows "length (iso8601_text tm) = 20"
proof -
  have two: "length (zero_pad 2 (show_nat (nat n))) = 2" if "0 \<le> n" "n < 100" for n
    using that show_nat_length [of "nat n" 2] by (intro zero_pad_length) auto
  have "length (show_nat (nat (tm_year tm))) = 4"
    using assms by (intro show_four_length) (simp_all add: tm_valid_def valid_date_def)
  then show ?thesis
    using assms(1) tm_bounds [OF assms(1)]
    by (simp add: iso8601_text_def two tm_valid_def)
qed

lemma parse_iso8601_text:
  assumes "tm_valid tm" "tm_year tm < 10000"
  shows "onvif_wsse_parse_created (iso8601_text tm) = Some (tm_seconds tm)"
proof -
  have year: "1000 \<le> tm_year tm" using assms(1) by (simp add: tm_valid_def valid_date_def)
  have "scan_created (iso8601_text tm) =
      Some (tm_year tm, tm_mon tm, tm_mday tm, tm_hour tm, tm_min tm, tm_sec tm)"
    using assms tm_bounds [OF assms(1)] year
    by (simp add: scan_created_def iso8601_text_def scan_four scan_two tm_valid_def)
  then show ?thesis
    using assms tm_bounds [OF assms(1)]
    by (simp add: onvif_wsse_parse_created_def created_seconds_eq civil_closed_correct
        tm_seconds_def civil_seconds_def tm_valid_def valid_date_def)
qed

lemma civil_days_year_mono:
  assumes "1970 \<le> y" "y \<le> y'"
  shows "(\<Sum>k\<in>{1970..<y}. year_len k) \<le> (\<Sum>k\<in>{1970..<y'}. year_len k)"
  using assms by (intro sum_mono2) (auto intro: less_imp_le [OF year_len_pos])

lemma gmtime_year:
  assumes "0 \<le> t" "t < 253402300800"
  shows "tm_year (gmtime t) < 10000"
proof (rule ccontr)
  assume "\<not> tm_year (gmtime t) < 10000"
  obtain y n where y: "gm_year 1970 (t div 86400) = (y, n)" by force
  obtain m k where m: "gm_month y 1 n = (m, k)" by force
  have "tm_year (gmtime t) = y" by (simp add: gmtime_def y m Let_def)
  with \<open>\<not> _\<close> have "10000 \<le> y" by simp
  have "0 \<le> t div 86400" using assms by (simp add: pos_imp_zdiv_nonneg_iff)
  note Y = gm_year_correct [OF _ this y, simplified]
  have "(\<Sum>k\<in>{1970..<10000}. year_len k) = 2932897"
    by (simp add: sum_years cycle_days_def)
  with civil_days_year_mono [of 10000 y] \<open>10000 \<le> y\<close> Y(2,4) have "2932897 \<le> t div 86400" by simp
  moreover have "t div 86400 < 2932897" using assms by (simp add: div_less_iff_less_mult)
  ultimately show False by simp
qed


text \<open>A concrete time stamp, for the witnesses of the clients.\<close>

lemma parse_2024: "onvif_wsse_parse_created ''2024-01-01T00:00:00Z'' = Some 1704067200"
  by (simp add: onvif_wsse_parse_created_def scan_created_def scan_int_def scan_sign_def scan_lit_def
      c_isspace_def c_isdigit_def digit_val_def dec_val_def created_seconds_def Let_def)


section \<open>Properties\<close>

text \<open>
  C28: Both closed forms of the code count days of the proleptic Gregorian calendar: for the years
  1970 to 9999, every month and the days 1 to 31 that the parser lets through, \<open>days_from_civil\<close>, with
  its unsigned intermediate values, is the number of days counted year by year and month by month (a
  day behind the end of its month counts into the next one), and the seconds
  \<open>onvif_wsse_parse_created\<close> computes are those of the same date and time.
\<close>

theorem closed_forms_count_days:
  assumes "1970 \<le> y" "y \<le> 9999" "1 \<le> m" "m \<le> 12" "1 \<le> d" "d \<le> 31"
  shows "days_from_civil y m d = civil_days y m d
    \<and> created_seconds y m d h mi s = civil_seconds y m d h mi s"
  using assms by (simp add: days_from_civil_correct civil_closed_correct created_seconds_eq civil_seconds_def)

theorem closed_forms_count_days_witness:
  "days_from_civil 2000 3 1 = civil_days 2000 3 1 \<and> days_from_civil 2000 3 1 = 11017
    \<and> created_seconds 2026 9 20 7 42 13 = civil_seconds 2026 9 20 7 42 13"
proof -
  have "civil_days 2000 3 1 = 11017"
    using civil_closed_correct [of 2000 3 1] by (simp add: civil_closed_def signed_divide_int_def)
  then show ?thesis
    using closed_forms_count_days [of 2000 3 1] closed_forms_count_days [of 2026 9 20 7 42 13] by simp
qed

text \<open>
  C25: The time stamps the device emits are read back exactly: for every clock value from 1970 to
  the end of the year 9999, parsing the 20-character text that \<open>iso8601\<close> stores in its 24-byte
  buffer returns that clock value.
\<close>

theorem timestamp_roundtrip:
  assumes "0 \<le> t" "t < 253402300800"
  shows "onvif_wsse_parse_created (iso8601 t 24) = Some t \<and> length (iso8601 t 24) = 20"
  using assms gmtime_correct [OF assms(1)] gmtime_year [OF assms]
  by (simp add: iso8601_def iso8601_length parse_iso8601_text)

theorem timestamp_roundtrip_witness:
  "onvif_wsse_parse_created (iso8601 1789890133 24) = Some 1789890133"
  using timestamp_roundtrip [of 1789890133] by simp

end
