(* ===== verification/Soap_Device.thy ===== *)
theory Soap_Device
  imports Xml_Doc Calendar
begin

text \<open>
  \<open>core/onvif_xml.c\<close>: the responses of the device service and the faults.  Each builder is the
  \<open>snprintf\<close> of the source, piece by piece; next to it stand the document it promises, the proof that
  it renders that document, its length, and when the document is well formed.
\<close>

section \<open>Time and identity\<close>

definition onvif_xml_system_date_and_time :: "nat \<Rightarrow> tm \<Rightarrow> bool \<Rightarrow> string option \<Rightarrow> int \<times> string" where
  "onvif_xml_system_date_and_time n utc ntp_active tz = snprintf n (
     ''<?xml version=\"1.0\" encoding=\"utf-8\"?>'' @
     ''<soap:Envelope'' @
     '' xmlns:soap=\"http://www.w3.org/2003/05/soap-envelope\"'' @
     '' xmlns:tt=\"http://www.onvif.org/ver10/schema\"'' @
     '' xmlns:tds=\"http://www.onvif.org/ver10/device/wsdl\">'' @
     ''<soap:Body>'' @
     ''<tds:GetSystemDateAndTimeResponse>'' @
     ''<tds:SystemDateAndTime>'' @
     ''<tt:DateTimeType>'' @ (if ntp_active then ''NTP'' else ''MANUAL'') @ ''</tt:DateTimeType>'' @
     ''<tt:DaylightSavings>false</tt:DaylightSavings>'' @
     ''<tt:TimeZone>'' @
     ''<tt:TZ>'' @ (case tz of Some z \<Rightarrow> if z = [] then ''UTC'' else z | None \<Rightarrow> ''UTC'') @ ''</tt:TZ>'' @
     ''</tt:TimeZone>'' @
     ''<tt:UTCDateTime>'' @
     ''<tt:Time>'' @
     ''<tt:Hour>'' @ show_int (tm_hour utc) @ ''</tt:Hour>'' @
     ''<tt:Minute>'' @ show_int (tm_min utc) @ ''</tt:Minute>'' @
     ''<tt:Second>'' @ show_int (tm_sec utc) @ ''</tt:Second>'' @
     ''</tt:Time>'' @
     ''<tt:Date>'' @
     ''<tt:Year>'' @ show_int (tm_year utc) @ ''</tt:Year>'' @
     ''<tt:Month>'' @ show_int (tm_mon utc) @ ''</tt:Month>'' @
     ''<tt:Day>'' @ show_int (tm_mday utc) @ ''</tt:Day>'' @
     ''</tt:Date>'' @
     ''</tt:UTCDateTime>'' @
     ''</tds:SystemDateAndTime>'' @
     ''</tds:GetSystemDateAndTimeResponse>'' @
     ''</soap:Body>'' @
     ''</soap:Envelope>'')"

definition system_date_and_time_doc :: "tm \<Rightarrow> bool \<Rightarrow> string option \<Rightarrow> xml" where
  "system_date_and_time_doc utc ntp_active tz =
   Node ''soap:Envelope'' [(''xmlns:soap'', ''http://www.w3.org/2003/05/soap-envelope''),
          (''xmlns:tt'', ''http://www.onvif.org/ver10/schema''),
          (''xmlns:tds'', ''http://www.onvif.org/ver10/device/wsdl'')] [
     Node ''soap:Body'' [] [
       Node ''tds:GetSystemDateAndTimeResponse'' [] [
         Node ''tds:SystemDateAndTime'' [] [
           Leaf ''tt:DateTimeType'' [] ((if ntp_active then ''NTP'' else ''MANUAL'')),
           Leaf ''tt:DaylightSavings'' [] ''false'',
           Node ''tt:TimeZone'' [] [
             Leaf ''tt:TZ'' [] ((case tz of Some z \<Rightarrow> if z = [] then ''UTC'' else z | None \<Rightarrow> ''UTC''))],
           Node ''tt:UTCDateTime'' [] [
             Node ''tt:Time'' [] [
               Leaf ''tt:Hour'' [] (show_int (tm_hour utc)),
               Leaf ''tt:Minute'' [] (show_int (tm_min utc)),
               Leaf ''tt:Second'' [] (show_int (tm_sec utc))],
             Node ''tt:Date'' [] [
               Leaf ''tt:Year'' [] (show_int (tm_year utc)),
               Leaf ''tt:Month'' [] (show_int (tm_mon utc)),
               Leaf ''tt:Day'' [] (show_int (tm_mday utc))]]]]]]"

lemma system_date_and_time_renders [rendering]:
  "renders n (onvif_xml_system_date_and_time n utc ntp_active tz) (render_doc ''utf-8'' (system_date_and_time_doc utc ntp_active tz))"
  by (simp add: onvif_xml_system_date_and_time_def system_date_and_time_doc_def render_doc_def renders_snprintf)

lemma system_date_and_time_length [rendering]:
  "length (render_doc ''utf-8'' (system_date_and_time_doc utc ntp_active tz)) = 673 + length ((if ntp_active then ''NTP'' else ''MANUAL'')) + length ((case tz of Some z \<Rightarrow> if z = [] then ''UTC'' else z | None \<Rightarrow> ''UTC'')) + length (show_int (tm_hour utc)) + length (show_int (tm_min utc)) + length (show_int (tm_sec utc)) + length (show_int (tm_year utc)) + length (show_int (tm_mon utc)) + length (show_int (tm_mday utc))"
  by (simp add: system_date_and_time_doc_def render_doc_def)

lemma system_date_and_time_ok [rendering]:
  "pred_option text_ok tz \<Longrightarrow> xml_ok (system_date_and_time_doc utc ntp_active tz)"
  by (auto simp: system_date_and_time_doc_def xml_check split: option.split)

definition onvif_xml_device_information :: "nat \<Rightarrow> string \<Rightarrow> string \<Rightarrow> string \<Rightarrow> string \<Rightarrow> string \<Rightarrow> int \<times> string" where
  "onvif_xml_device_information n manufacturer model firmware serial hardware_id = snprintf n (
     ''<?xml version=\"1.0\" encoding=\"utf-8\"?>'' @
     ''<soap:Envelope'' @
     '' xmlns:soap=\"http://www.w3.org/2003/05/soap-envelope\"'' @
     '' xmlns:tds=\"http://www.onvif.org/ver10/device/wsdl\"'' @
     '' xmlns:tt=\"http://www.onvif.org/ver10/schema\">'' @
     ''<soap:Body>'' @
     ''<tds:GetDeviceInformationResponse>'' @
     ''<tds:Manufacturer>'' @ manufacturer @ ''</tds:Manufacturer>'' @
     ''<tds:Model>'' @ model @ ''</tds:Model>'' @
     ''<tds:FirmwareVersion>'' @ firmware @ ''</tds:FirmwareVersion>'' @
     ''<tds:SerialNumber>'' @ serial @ ''</tds:SerialNumber>'' @
     ''<tds:HardwareId>'' @ hardware_id @ ''</tds:HardwareId>'' @
     ''</tds:GetDeviceInformationResponse>'' @
     ''</soap:Body>'' @
     ''</soap:Envelope>'')"

definition device_information_doc :: "string \<Rightarrow> string \<Rightarrow> string \<Rightarrow> string \<Rightarrow> string \<Rightarrow> xml" where
  "device_information_doc manufacturer model firmware serial hardware_id =
   Node ''soap:Envelope'' [(''xmlns:soap'', ''http://www.w3.org/2003/05/soap-envelope''),
          (''xmlns:tds'', ''http://www.onvif.org/ver10/device/wsdl''),
          (''xmlns:tt'', ''http://www.onvif.org/ver10/schema'')] [
     Node ''soap:Body'' [] [
       Node ''tds:GetDeviceInformationResponse'' [] [
         Leaf ''tds:Manufacturer'' [] manufacturer,
         Leaf ''tds:Model'' [] model,
         Leaf ''tds:FirmwareVersion'' [] firmware,
         Leaf ''tds:SerialNumber'' [] serial,
         Leaf ''tds:HardwareId'' [] hardware_id]]]"

lemma device_information_renders [rendering]:
  "renders n (onvif_xml_device_information n manufacturer model firmware serial hardware_id) (render_doc ''utf-8'' (device_information_doc manufacturer model firmware serial hardware_id))"
  by (simp add: onvif_xml_device_information_def device_information_doc_def render_doc_def renders_snprintf)

lemma device_information_length [rendering]:
  "length (render_doc ''utf-8'' (device_information_doc manufacturer model firmware serial hardware_id)) = 483 + length manufacturer + length model + length firmware + length serial + length hardware_id"
  by (simp add: device_information_doc_def render_doc_def)

lemma device_information_ok [rendering]:
  "text_ok manufacturer \<Longrightarrow> text_ok model \<Longrightarrow> text_ok firmware \<Longrightarrow> text_ok serial \<Longrightarrow> text_ok hardware_id \<Longrightarrow> xml_ok (device_information_doc manufacturer model firmware serial hardware_id)"
  by (simp add: device_information_doc_def xml_check)

section \<open>Capabilities, services, scopes\<close>

definition onvif_xml_capabilities :: "nat \<Rightarrow> string \<Rightarrow> nat \<Rightarrow> bool \<Rightarrow> int \<times> string" where
  "onvif_xml_capabilities n ip port events =
     (let off = snprintf n (
            ''<?xml version=\"1.0\" encoding=\"utf-8\"?>'' @
            ''<soap:Envelope'' @
            '' xmlns:soap=\"http://www.w3.org/2003/05/soap-envelope\"'' @
            '' xmlns:tt=\"http://www.onvif.org/ver10/schema\"'' @
            '' xmlns:tds=\"http://www.onvif.org/ver10/device/wsdl\">'' @
            ''<soap:Body>'' @
            ''<tds:GetCapabilitiesResponse>'' @
            ''<tds:Capabilities>'' @
            ''<tt:Device>'' @
            ''<tt:XAddr>http://'' @ ip @ '':'' @ show_nat port @ ''/onvif/device_service</tt:XAddr>'' @
            ''</tt:Device>'' @
            ''<tt:Media>'' @
            ''<tt:XAddr>http://'' @ ip @ '':'' @ show_nat port @ ''/onvif/media_service</tt:XAddr>'' @
            ''</tt:Media>'');
          off = (if events then snprintf_more n off (
            ''<tt:Events>'' @
            ''<tt:XAddr>http://'' @ ip @ '':'' @ show_nat port @ ''/onvif/events_service</tt:XAddr>'' @
            ''</tt:Events>'')
          else off)
      in snprintf_more n off (
            ''</tds:Capabilities>'' @
            ''</tds:GetCapabilitiesResponse>'' @
            ''</soap:Body>'' @
            ''</soap:Envelope>''))"

definition capabilities_doc :: "string \<Rightarrow> nat \<Rightarrow> bool \<Rightarrow> xml" where
  "capabilities_doc ip port events =
   Node ''soap:Envelope'' [(''xmlns:soap'', ''http://www.w3.org/2003/05/soap-envelope''),
          (''xmlns:tt'', ''http://www.onvif.org/ver10/schema''),
          (''xmlns:tds'', ''http://www.onvif.org/ver10/device/wsdl'')] [
     Node ''soap:Body'' [] [
       Node ''tds:GetCapabilitiesResponse'' [] [
         Node ''tds:Capabilities'' [] (
           [Node ''tt:Device'' [] [Leaf ''tt:XAddr'' [] (''http://'' @ ip @ '':'' @ show_nat port @ ''/onvif/device_service'')],
            Node ''tt:Media'' [] [Leaf ''tt:XAddr'' [] (''http://'' @ ip @ '':'' @ show_nat port @ ''/onvif/media_service'')]] @
           (if events then
             [Node ''tt:Events'' [] [Leaf ''tt:XAddr'' [] (''http://'' @ ip @ '':'' @ show_nat port @ ''/onvif/events_service'')]]
            else []))]]]"

lemma capabilities_text:
  "render_doc ''utf-8'' (capabilities_doc ip port True) =
     ((''<?xml version=\"1.0\" encoding=\"utf-8\"?>'' @
            ''<soap:Envelope'' @
            '' xmlns:soap=\"http://www.w3.org/2003/05/soap-envelope\"'' @
            '' xmlns:tt=\"http://www.onvif.org/ver10/schema\"'' @
            '' xmlns:tds=\"http://www.onvif.org/ver10/device/wsdl\">'' @
            ''<soap:Body>'' @
            ''<tds:GetCapabilitiesResponse>'' @
            ''<tds:Capabilities>'' @
            ''<tt:Device>'' @
            ''<tt:XAddr>http://'' @ ip @ '':'' @ show_nat port @ ''/onvif/device_service</tt:XAddr>'' @
            ''</tt:Device>'' @
            ''<tt:Media>'' @
            ''<tt:XAddr>http://'' @ ip @ '':'' @ show_nat port @ ''/onvif/media_service</tt:XAddr>'' @
            ''</tt:Media>'') @
      (''<tt:Events>'' @
            ''<tt:XAddr>http://'' @ ip @ '':'' @ show_nat port @ ''/onvif/events_service</tt:XAddr>'' @
            ''</tt:Events>'')) @
      (''</tds:Capabilities>'' @
            ''</tds:GetCapabilitiesResponse>'' @
            ''</soap:Body>'' @
            ''</soap:Envelope>'')"
  "render_doc ''utf-8'' (capabilities_doc ip port False) =
     (''<?xml version=\"1.0\" encoding=\"utf-8\"?>'' @
            ''<soap:Envelope'' @
            '' xmlns:soap=\"http://www.w3.org/2003/05/soap-envelope\"'' @
            '' xmlns:tt=\"http://www.onvif.org/ver10/schema\"'' @
            '' xmlns:tds=\"http://www.onvif.org/ver10/device/wsdl\">'' @
            ''<soap:Body>'' @
            ''<tds:GetCapabilitiesResponse>'' @
            ''<tds:Capabilities>'' @
            ''<tt:Device>'' @
            ''<tt:XAddr>http://'' @ ip @ '':'' @ show_nat port @ ''/onvif/device_service</tt:XAddr>'' @
            ''</tt:Device>'' @
            ''<tt:Media>'' @
            ''<tt:XAddr>http://'' @ ip @ '':'' @ show_nat port @ ''/onvif/media_service</tt:XAddr>'' @
            ''</tt:Media>'') @
      (''</tds:Capabilities>'' @
            ''</tds:GetCapabilitiesResponse>'' @
            ''</soap:Body>'' @
            ''</soap:Envelope>'')"
  by (simp_all add: capabilities_doc_def render_doc_def)

lemma capabilities_renders [rendering]:
  "renders n (onvif_xml_capabilities n ip port events) (render_doc ''utf-8'' (capabilities_doc ip port events))"
  unfolding onvif_xml_capabilities_def Let_def
  by (cases events) (simp_all only: capabilities_text if_True if_False, (intro renders_more renders_snprintf)+)

lemma capabilities_length [rendering]:
  "length (render_doc ''utf-8'' (capabilities_doc ip port events)) \<le> 553 + 3 * (length ip + length (show_nat port))"
  by (simp add: capabilities_doc_def render_doc_def)

lemma capabilities_ok [rendering]:
  "text_ok ip \<Longrightarrow> xml_ok (capabilities_doc ip port events)"
  by (simp add: capabilities_doc_def xml_check)

definition onvif_xml_services :: "nat \<Rightarrow> string \<Rightarrow> nat \<Rightarrow> bool \<Rightarrow> int \<times> string" where
  "onvif_xml_services n ip port events =
     (let off = snprintf n (
            ''<?xml version=\"1.0\" encoding=\"utf-8\"?>'' @
            ''<soap:Envelope'' @
            '' xmlns:soap=\"http://www.w3.org/2003/05/soap-envelope\"'' @
            '' xmlns:tt=\"http://www.onvif.org/ver10/schema\"'' @
            '' xmlns:tds=\"http://www.onvif.org/ver10/device/wsdl\">'' @
            ''<soap:Body>'' @
            ''<tds:GetServicesResponse>'' @
            ''<tds:Service>'' @
            ''<tds:Namespace>http://www.onvif.org/ver10/device/wsdl</tds:Namespace>'' @
            ''<tds:XAddr>http://'' @ ip @ '':'' @ show_nat port @ ''/onvif/device_service</tds:XAddr>'' @
            ''<tds:Version><tt:Major>2</tt:Major><tt:Minor>5</tt:Minor></tds:Version>'' @
            ''</tds:Service>'' @
            ''<tds:Service>'' @
            ''<tds:Namespace>http://www.onvif.org/ver10/media/wsdl</tds:Namespace>'' @
            ''<tds:XAddr>http://'' @ ip @ '':'' @ show_nat port @ ''/onvif/media_service</tds:XAddr>'' @
            ''<tds:Version><tt:Major>2</tt:Major><tt:Minor>5</tt:Minor></tds:Version>'' @
            ''</tds:Service>'');
          off = (if events then snprintf_more n off (
            ''<tds:Service>'' @
            ''<tds:Namespace>http://www.onvif.org/ver10/events/wsdl</tds:Namespace>'' @
            ''<tds:XAddr>http://'' @ ip @ '':'' @ show_nat port @ ''/onvif/events_service</tds:XAddr>'' @
            ''<tds:Version><tt:Major>2</tt:Major><tt:Minor>5</tt:Minor></tds:Version>'' @
            ''</tds:Service>'')
          else off)
      in snprintf_more n off (
            ''<tds:Service>'' @
            ''<tds:Namespace>http://www.onvif.org/ver20/media/wsdl</tds:Namespace>'' @
            ''<tds:XAddr>http://'' @ ip @ '':'' @ show_nat port @ ''/onvif/media2_service</tds:XAddr>'' @
            ''<tds:Version><tt:Major>2</tt:Major><tt:Minor>5</tt:Minor></tds:Version>'' @
            ''</tds:Service>'' @
            ''</tds:GetServicesResponse>'' @
            ''</soap:Body>'' @
            ''</soap:Envelope>''))"

definition service_entry :: "string \<Rightarrow> string \<Rightarrow> nat \<Rightarrow> string \<Rightarrow> xml" where
  "service_entry ns ip port path =
     Node ''tds:Service'' [] [
       Leaf ''tds:Namespace'' [] ns,
       Leaf ''tds:XAddr'' [] (''http://'' @ ip @ '':'' @ show_nat port @ path),
       Node ''tds:Version'' [] [Leaf ''tt:Major'' [] ''2'', Leaf ''tt:Minor'' [] ''5'']]"

definition services_doc :: "string \<Rightarrow> nat \<Rightarrow> bool \<Rightarrow> xml" where
  "services_doc ip port events =
   Node ''soap:Envelope'' [(''xmlns:soap'', ''http://www.w3.org/2003/05/soap-envelope''),
          (''xmlns:tt'', ''http://www.onvif.org/ver10/schema''),
          (''xmlns:tds'', ''http://www.onvif.org/ver10/device/wsdl'')] [
     Node ''soap:Body'' [] [
       Node ''tds:GetServicesResponse'' [] (
         [service_entry ''http://www.onvif.org/ver10/device/wsdl'' ip port ''/onvif/device_service'',
          service_entry ''http://www.onvif.org/ver10/media/wsdl'' ip port ''/onvif/media_service''] @
         (if events then [service_entry ''http://www.onvif.org/ver10/events/wsdl'' ip port ''/onvif/events_service''] else []) @
         [service_entry ''http://www.onvif.org/ver20/media/wsdl'' ip port ''/onvif/media2_service''])]]"

lemma services_text:
  "render_doc ''utf-8'' (services_doc ip port True) =
     ((''<?xml version=\"1.0\" encoding=\"utf-8\"?>'' @
            ''<soap:Envelope'' @
            '' xmlns:soap=\"http://www.w3.org/2003/05/soap-envelope\"'' @
            '' xmlns:tt=\"http://www.onvif.org/ver10/schema\"'' @
            '' xmlns:tds=\"http://www.onvif.org/ver10/device/wsdl\">'' @
            ''<soap:Body>'' @
            ''<tds:GetServicesResponse>'' @
            ''<tds:Service>'' @
            ''<tds:Namespace>http://www.onvif.org/ver10/device/wsdl</tds:Namespace>'' @
            ''<tds:XAddr>http://'' @ ip @ '':'' @ show_nat port @ ''/onvif/device_service</tds:XAddr>'' @
            ''<tds:Version><tt:Major>2</tt:Major><tt:Minor>5</tt:Minor></tds:Version>'' @
            ''</tds:Service>'' @
            ''<tds:Service>'' @
            ''<tds:Namespace>http://www.onvif.org/ver10/media/wsdl</tds:Namespace>'' @
            ''<tds:XAddr>http://'' @ ip @ '':'' @ show_nat port @ ''/onvif/media_service</tds:XAddr>'' @
            ''<tds:Version><tt:Major>2</tt:Major><tt:Minor>5</tt:Minor></tds:Version>'' @
            ''</tds:Service>'') @
      (''<tds:Service>'' @
            ''<tds:Namespace>http://www.onvif.org/ver10/events/wsdl</tds:Namespace>'' @
            ''<tds:XAddr>http://'' @ ip @ '':'' @ show_nat port @ ''/onvif/events_service</tds:XAddr>'' @
            ''<tds:Version><tt:Major>2</tt:Major><tt:Minor>5</tt:Minor></tds:Version>'' @
            ''</tds:Service>'')) @
      (''<tds:Service>'' @
            ''<tds:Namespace>http://www.onvif.org/ver20/media/wsdl</tds:Namespace>'' @
            ''<tds:XAddr>http://'' @ ip @ '':'' @ show_nat port @ ''/onvif/media2_service</tds:XAddr>'' @
            ''<tds:Version><tt:Major>2</tt:Major><tt:Minor>5</tt:Minor></tds:Version>'' @
            ''</tds:Service>'' @
            ''</tds:GetServicesResponse>'' @
            ''</soap:Body>'' @
            ''</soap:Envelope>'')"
  "render_doc ''utf-8'' (services_doc ip port False) =
     (''<?xml version=\"1.0\" encoding=\"utf-8\"?>'' @
            ''<soap:Envelope'' @
            '' xmlns:soap=\"http://www.w3.org/2003/05/soap-envelope\"'' @
            '' xmlns:tt=\"http://www.onvif.org/ver10/schema\"'' @
            '' xmlns:tds=\"http://www.onvif.org/ver10/device/wsdl\">'' @
            ''<soap:Body>'' @
            ''<tds:GetServicesResponse>'' @
            ''<tds:Service>'' @
            ''<tds:Namespace>http://www.onvif.org/ver10/device/wsdl</tds:Namespace>'' @
            ''<tds:XAddr>http://'' @ ip @ '':'' @ show_nat port @ ''/onvif/device_service</tds:XAddr>'' @
            ''<tds:Version><tt:Major>2</tt:Major><tt:Minor>5</tt:Minor></tds:Version>'' @
            ''</tds:Service>'' @
            ''<tds:Service>'' @
            ''<tds:Namespace>http://www.onvif.org/ver10/media/wsdl</tds:Namespace>'' @
            ''<tds:XAddr>http://'' @ ip @ '':'' @ show_nat port @ ''/onvif/media_service</tds:XAddr>'' @
            ''<tds:Version><tt:Major>2</tt:Major><tt:Minor>5</tt:Minor></tds:Version>'' @
            ''</tds:Service>'') @
      (''<tds:Service>'' @
            ''<tds:Namespace>http://www.onvif.org/ver20/media/wsdl</tds:Namespace>'' @
            ''<tds:XAddr>http://'' @ ip @ '':'' @ show_nat port @ ''/onvif/media2_service</tds:XAddr>'' @
            ''<tds:Version><tt:Major>2</tt:Major><tt:Minor>5</tt:Minor></tds:Version>'' @
            ''</tds:Service>'' @
            ''</tds:GetServicesResponse>'' @
            ''</soap:Body>'' @
            ''</soap:Envelope>'')"
  by (simp_all add: services_doc_def service_entry_def render_doc_def)

lemma services_renders [rendering]:
  "renders n (onvif_xml_services n ip port events) (render_doc ''utf-8'' (services_doc ip port events))"
  unfolding onvif_xml_services_def Let_def
  by (cases events) (simp_all only: services_text if_True if_False, (intro renders_more renders_snprintf)+)

lemma services_length [rendering]:
  "length (render_doc ''utf-8'' (services_doc ip port events)) \<le> 1165 + 4 * (length ip + length (show_nat port))"
  by (simp add: services_doc_def service_entry_def render_doc_def)

lemma services_ok [rendering]:
  "text_ok ip \<Longrightarrow> xml_ok (services_doc ip port events)"
  by (simp add: services_doc_def service_entry_def xml_check)

definition scope_item_text :: "string \<Rightarrow> string" where
  "scope_item_text w =
     ''<tt:Scopes>'' @
     ''<tt:ScopeDef>Fixed</tt:ScopeDef>'' @
     ''<tt:ScopeItem>'' @ w @ ''</tt:ScopeItem>'' @
     ''</tt:Scopes>''"

lemma skip_word_less:
  assumes "dropWhile (\<lambda>c. c = CHR '' '') p \<noteq> []"
  shows "length (dropWhile (\<lambda>c. c \<noteq> CHR '' '') (dropWhile (\<lambda>c. c = CHR '' '') p)) < length p"
proof -
  let ?q = "dropWhile (\<lambda>c. c = CHR '' '') p"
  have "length (dropWhile (\<lambda>c. c \<noteq> CHR '' '') ?q) < length ?q"
    using assms hd_dropWhile [OF assms] length_dropWhile_le [of "\<lambda>c. c \<noteq> CHR '' ''" "tl ?q"]
    by (cases ?q) auto
  also have "\<dots> \<le> length p" by (rule length_dropWhile_le)
  finally show ?thesis .
qed

text \<open>The loop over the blank-separated scopes; after an overflow nothing more is written.\<close>

function scopes_loop :: "nat \<Rightarrow> string \<Rightarrow> int \<times> string \<Rightarrow> int \<times> string" where
  "scopes_loop n p off =
     (if p = [] then off
      else (let q = dropWhile (\<lambda>c. c = CHR '' '') p; w = takeWhile (\<lambda>c. c \<noteq> CHR '' '') q in
            if length w = 0 then off
            else scopes_loop n (drop (length w) q) (snprintf_more n off (scope_item_text w))))"
  by pat_completeness auto
termination
proof (relation "measure (\<lambda>(n, p, off). length p)", simp, clarsimp)
  fix p :: string
  assume "p \<noteq> []" "takeWhile (\<lambda>c. c \<noteq> CHR '' '') (dropWhile (\<lambda>c. c = CHR '' '') p) \<noteq> []"
  then show "length (dropWhile (\<lambda>c. c = CHR '' '') p) - length (takeWhile (\<lambda>c. c \<noteq> CHR '' '') (dropWhile (\<lambda>c. c = CHR '' '') p)) < length p"
    using length_dropWhile_le [of "\<lambda>c. c = CHR '' ''" p]
    by (metis diff_less length_greater_0_conv order_less_le_trans takeWhile.simps(1))
qed

declare scopes_loop.simps [simp del]

definition onvif_xml_get_scopes :: "nat \<Rightarrow> string option \<Rightarrow> int \<times> string" where
  "onvif_xml_get_scopes n scopes =
     (let off = snprintf n (
            ''<?xml version=\"1.0\" encoding=\"utf-8\"?>'' @
            ''<soap:Envelope'' @
            '' xmlns:soap=\"http://www.w3.org/2003/05/soap-envelope\"'' @
            '' xmlns:tt=\"http://www.onvif.org/ver10/schema\"'' @
            '' xmlns:tds=\"http://www.onvif.org/ver10/device/wsdl\">'' @
            ''<soap:Body>'' @
            ''<tds:GetScopesResponse>'');
          off = scopes_loop n (case scopes of Some s \<Rightarrow> s | None \<Rightarrow> []) off
      in snprintf_more n off (
            ''</tds:GetScopesResponse>'' @
            ''</soap:Body>'' @
            ''</soap:Envelope>''))"

text \<open>The words of a scope list, and the promised document.\<close>

function scope_words :: "string \<Rightarrow> string list" where
  "scope_words p =
     (let q = dropWhile (\<lambda>c. c = CHR '' '') p in
      if q = [] then []
      else takeWhile (\<lambda>c. c \<noteq> CHR '' '') q # scope_words (dropWhile (\<lambda>c. c \<noteq> CHR '' '') q))"
  by pat_completeness auto
termination
  by (relation "measure length") (auto simp del: dropWhile_eq_Nil_conv intro: skip_word_less)

declare scope_words.simps [simp del]

definition scope_item_doc :: "string \<Rightarrow> xml" where
  "scope_item_doc w = Node ''tt:Scopes'' [] [Leaf ''tt:ScopeDef'' [] ''Fixed'', Leaf ''tt:ScopeItem'' [] w]"

definition get_scopes_doc :: "string option \<Rightarrow> xml" where
  "get_scopes_doc scopes =
   Node ''soap:Envelope'' [(''xmlns:soap'', ''http://www.w3.org/2003/05/soap-envelope''),
          (''xmlns:tt'', ''http://www.onvif.org/ver10/schema''),
          (''xmlns:tds'', ''http://www.onvif.org/ver10/device/wsdl'')] [
     Node ''soap:Body'' [] [
       (case scope_words (case scopes of Some s \<Rightarrow> s | None \<Rightarrow> []) of
          [] \<Rightarrow> Leaf ''tds:GetScopesResponse'' [] []
        | w # ws \<Rightarrow> Node ''tds:GetScopesResponse'' []
            (map scope_item_doc (w # ws)))]]"

lemma scopes_loop_renders:
  "renders n off s \<Longrightarrow> renders n (scopes_loop n p off) (s @ concat (map scope_item_text (scope_words p)))"
proof (induction n p off arbitrary: s rule: scopes_loop.induct)
  case (1 n p off)
  let ?q = "dropWhile (\<lambda>c. c = CHR '' '') p"
  let ?w = "takeWhile (\<lambda>c. c \<noteq> CHR '' '') ?q"
  show ?case
  proof (cases "?q = []")
    case True
    then have "scopes_loop n p off = off" "scope_words p = []"
      by (subst scopes_loop.simps, simp add: Let_def True del: dropWhile_eq_Nil_conv)
        (subst scope_words.simps, simp add: Let_def True del: dropWhile_eq_Nil_conv)
    with 1(2) show ?thesis by simp
  next
    case False
    then have w: "?w \<noteq> []" using hd_dropWhile [of "\<lambda>c. c = CHR '' ''" p] by (cases ?q) auto
    have p: "p \<noteq> []" using False by auto
    have d: "drop (length ?w) ?q = dropWhile (\<lambda>c. c \<noteq> CHR '' '') ?q" by (simp add: dropWhile_eq_drop)
    have "scope_words p = ?w # scope_words (dropWhile (\<lambda>c. c \<noteq> CHR '' '') ?q)"
      using False by (subst scope_words.simps) (simp only: Let_def if_False)
    moreover have "scopes_loop n p off =
        scopes_loop n (dropWhile (\<lambda>c. c \<noteq> CHR '' '') ?q) (snprintf_more n off (scope_item_text ?w))"
      using w p by (subst scopes_loop.simps) (simp only: Let_def length_0_conv if_False d)
    moreover have "\<not> length ?w = 0" using w by simp
    from 1(1) [OF p refl refl this renders_more [OF 1(2)]]
    have "renders n (scopes_loop n (dropWhile (\<lambda>c. c \<noteq> CHR '' '') ?q) (snprintf_more n off (scope_item_text ?w)))
        ((s @ scope_item_text ?w) @ concat (map scope_item_text (scope_words (dropWhile (\<lambda>c. c \<noteq> CHR '' '') ?q))))"
      by (simp only: d)
    ultimately show ?thesis by simp
  qed
qed

lemma get_scopes_renders [rendering]:
  "renders n (onvif_xml_get_scopes n scopes) (render_doc ''utf-8'' (get_scopes_doc scopes))"
proof -
  let ?head = "''<?xml version=\"1.0\" encoding=\"utf-8\"?>'' @
     ''<soap:Envelope'' @
     '' xmlns:soap=\"http://www.w3.org/2003/05/soap-envelope\"'' @
     '' xmlns:tt=\"http://www.onvif.org/ver10/schema\"'' @
     '' xmlns:tds=\"http://www.onvif.org/ver10/device/wsdl\">'' @
     ''<soap:Body>'' @
     ''<tds:GetScopesResponse>''"
  let ?tail = "''</tds:GetScopesResponse>'' @
     ''</soap:Body>'' @
     ''</soap:Envelope>''"
  let ?p = "case scopes of Some s \<Rightarrow> s | None \<Rightarrow> []"
  have "renders n (onvif_xml_get_scopes n scopes)
      ((?head @ concat (map scope_item_text (scope_words ?p))) @ ?tail)"
    unfolding onvif_xml_get_scopes_def Let_def
    by (intro renders_more scopes_loop_renders renders_snprintf)
  moreover have "render (scope_item_doc w) = scope_item_text w" for w
    by (simp add: scope_item_doc_def scope_item_text_def)
  then have "(?head @ concat (map scope_item_text (scope_words ?p))) @ ?tail = render_doc ''utf-8'' (get_scopes_doc scopes)"
    unfolding get_scopes_doc_def render_doc_def
    by (cases "scope_words ?p") (simp_all add: comp_def)
  ultimately show ?thesis by simp
qed

lemma scope_words_chars: "w \<in> set (scope_words p) \<Longrightarrow> set w \<subseteq> set p"
proof (induction p rule: scope_words.induct)
  case (1 p)
  let ?q = "dropWhile (\<lambda>c. c = CHR '' '') p"
  have q: "set ?q \<subseteq> set p" by (auto dest: set_dropWhileD)
  show ?case
  proof (cases "?q = []")
    case True
    then have "scope_words p = []"
      by (subst scope_words.simps, simp add: Let_def True del: dropWhile_eq_Nil_conv)
    with 1(2) show ?thesis by simp
  next
    case False
    then have "scope_words p = takeWhile (\<lambda>c. c \<noteq> CHR '' '') ?q # scope_words (dropWhile (\<lambda>c. c \<noteq> CHR '' '') ?q)"
      by (subst scope_words.simps) (simp only: Let_def if_False)
    with 1(2) consider "w = takeWhile (\<lambda>c. c \<noteq> CHR '' '') ?q" | "w \<in> set (scope_words (dropWhile (\<lambda>c. c \<noteq> CHR '' '') ?q))"
      by auto
    then show ?thesis
    proof cases
      case 1
      with q show ?thesis by (auto dest: set_takeWhileD)
    next
      case 2
      from "1.IH" [OF refl False 2] q show ?thesis by (auto dest!: set_dropWhileD)
    qed
  qed
qed

lemma get_scopes_ok [rendering]:
  assumes "pred_option text_ok scopes"
  shows "xml_ok (get_scopes_doc scopes)"
proof -
  let ?p = "case scopes of Some s \<Rightarrow> s | None \<Rightarrow> []"
  have "text_ok ?p" using assms by (cases scopes) auto
  then have "xml_ok (scope_item_doc w)" if "w \<in> set (scope_words ?p)" for w
    using scope_words_chars [OF that] by (auto simp: scope_item_doc_def xml_check text_ok_def)
  then show ?thesis
    by (cases "scope_words ?p") (auto simp: get_scopes_doc_def xml_check list_all_iff)
qed

definition onvif_xml_device_service_capabilities :: "nat \<Rightarrow> int \<times> string" where
  "onvif_xml_device_service_capabilities n = snprintf n (
     ''<?xml version=\"1.0\" encoding=\"utf-8\"?>'' @
     ''<soap:Envelope'' @
     '' xmlns:soap=\"http://www.w3.org/2003/05/soap-envelope\"'' @
     '' xmlns:tds=\"http://www.onvif.org/ver10/device/wsdl\">'' @
     ''<soap:Body>'' @
     ''<tds:GetServiceCapabilitiesResponse>'' @
     ''<tds:Capabilities Network=\"false\" System=\"false\"/>'' @
     ''</tds:GetServiceCapabilitiesResponse>'' @
     ''</soap:Body>'' @
     ''</soap:Envelope>'')"

definition device_service_capabilities_doc :: "xml" where
  "device_service_capabilities_doc =
   Node ''soap:Envelope'' [(''xmlns:soap'', ''http://www.w3.org/2003/05/soap-envelope''),
          (''xmlns:tds'', ''http://www.onvif.org/ver10/device/wsdl'')] [
     Node ''soap:Body'' [] [
       Node ''tds:GetServiceCapabilitiesResponse'' [] [
         Empty ''tds:Capabilities'' [(''Network'', ''false''), (''System'', ''false'')]]]]"

lemma device_service_capabilities_renders [rendering]:
  "renders n (onvif_xml_device_service_capabilities n) (render_doc ''utf-8'' (device_service_capabilities_doc))"
  by (simp add: onvif_xml_device_service_capabilities_def device_service_capabilities_doc_def render_doc_def renders_snprintf)

lemma device_service_capabilities_length [rendering]:
  "length (render_doc ''utf-8'' (device_service_capabilities_doc)) = 319"
  by (simp add: device_service_capabilities_doc_def render_doc_def)

lemma device_service_capabilities_ok [rendering]:
  "xml_ok (device_service_capabilities_doc)"
  by (simp add: device_service_capabilities_doc_def xml_check)

section \<open>Acknowledgements\<close>

definition onvif_xml_set_ntp_response :: "nat \<Rightarrow> int \<times> string" where
  "onvif_xml_set_ntp_response n = snprintf n (
     ''<?xml version=\"1.0\" encoding=\"utf-8\"?>'' @
     ''<soap:Envelope'' @
     '' xmlns:soap=\"http://www.w3.org/2003/05/soap-envelope\"'' @
     '' xmlns:tds=\"http://www.onvif.org/ver10/device/wsdl\">'' @
     ''<soap:Body>'' @
     ''<tds:SetNTPResponse/>'' @
     ''</soap:Body>'' @
     ''</soap:Envelope>'')"

definition set_ntp_response_doc :: "xml" where
  "set_ntp_response_doc =
   Node ''soap:Envelope'' [(''xmlns:soap'', ''http://www.w3.org/2003/05/soap-envelope''),
          (''xmlns:tds'', ''http://www.onvif.org/ver10/device/wsdl'')] [
     Node ''soap:Body'' [] [
       Empty ''tds:SetNTPResponse'' []]]"

lemma set_ntp_response_renders [rendering]:
  "renders n (onvif_xml_set_ntp_response n) (render_doc ''utf-8'' (set_ntp_response_doc))"
  by (simp add: onvif_xml_set_ntp_response_def set_ntp_response_doc_def render_doc_def renders_snprintf)

lemma set_ntp_response_length [rendering]:
  "length (render_doc ''utf-8'' (set_ntp_response_doc)) = 217"
  by (simp add: set_ntp_response_doc_def render_doc_def)

lemma set_ntp_response_ok [rendering]:
  "xml_ok (set_ntp_response_doc)"
  by (simp add: set_ntp_response_doc_def xml_check)

definition onvif_xml_system_reboot :: "nat \<Rightarrow> int \<times> string" where
  "onvif_xml_system_reboot n = snprintf n (
     ''<?xml version=\"1.0\" encoding=\"utf-8\"?>'' @
     ''<soap:Envelope'' @
     '' xmlns:soap=\"http://www.w3.org/2003/05/soap-envelope\"'' @
     '' xmlns:tds=\"http://www.onvif.org/ver10/device/wsdl\">'' @
     ''<soap:Body>'' @
     ''<tds:SystemRebootResponse>'' @
     ''<tds:Message>Device rebooting</tds:Message>'' @
     ''</tds:SystemRebootResponse>'' @
     ''</soap:Body>'' @
     ''</soap:Envelope>'')"

definition system_reboot_doc :: "xml" where
  "system_reboot_doc =
   Node ''soap:Envelope'' [(''xmlns:soap'', ''http://www.w3.org/2003/05/soap-envelope''),
          (''xmlns:tds'', ''http://www.onvif.org/ver10/device/wsdl'')] [
     Node ''soap:Body'' [] [
       Node ''tds:SystemRebootResponse'' [] [
         Leaf ''tds:Message'' [] ''Device rebooting'']]]"

lemma system_reboot_renders [rendering]:
  "renders n (onvif_xml_system_reboot n) (render_doc ''utf-8'' (system_reboot_doc))"
  by (simp add: onvif_xml_system_reboot_def system_reboot_doc_def render_doc_def renders_snprintf)

lemma system_reboot_length [rendering]:
  "length (render_doc ''utf-8'' (system_reboot_doc)) = 292"
  by (simp add: system_reboot_doc_def render_doc_def)

lemma system_reboot_ok [rendering]:
  "xml_ok (system_reboot_doc)"
  by (simp add: system_reboot_doc_def xml_check)

definition onvif_xml_set_system_date_and_time_ack :: "nat \<Rightarrow> int \<times> string" where
  "onvif_xml_set_system_date_and_time_ack n = snprintf n (
     ''<?xml version=\"1.0\" encoding=\"utf-8\"?>'' @
     ''<soap:Envelope'' @
     '' xmlns:soap=\"http://www.w3.org/2003/05/soap-envelope\"'' @
     '' xmlns:tds=\"http://www.onvif.org/ver10/device/wsdl\">'' @
     ''<soap:Body>'' @
     ''<tds:SetSystemDateAndTimeResponse/>'' @
     ''</soap:Body>'' @
     ''</soap:Envelope>'')"

definition set_system_date_and_time_ack_doc :: "xml" where
  "set_system_date_and_time_ack_doc =
   Node ''soap:Envelope'' [(''xmlns:soap'', ''http://www.w3.org/2003/05/soap-envelope''),
          (''xmlns:tds'', ''http://www.onvif.org/ver10/device/wsdl'')] [
     Node ''soap:Body'' [] [
       Empty ''tds:SetSystemDateAndTimeResponse'' []]]"

lemma set_system_date_and_time_ack_renders [rendering]:
  "renders n (onvif_xml_set_system_date_and_time_ack n) (render_doc ''utf-8'' (set_system_date_and_time_ack_doc))"
  by (simp add: onvif_xml_set_system_date_and_time_ack_def set_system_date_and_time_ack_doc_def render_doc_def renders_snprintf)

lemma set_system_date_and_time_ack_length [rendering]:
  "length (render_doc ''utf-8'' (set_system_date_and_time_ack_doc)) = 231"
  by (simp add: set_system_date_and_time_ack_doc_def render_doc_def)

lemma set_system_date_and_time_ack_ok [rendering]:
  "xml_ok (set_system_date_and_time_ack_doc)"
  by (simp add: set_system_date_and_time_ack_doc_def xml_check)

section \<open>Faults\<close>

definition onvif_xml_fault_action_not_supported :: "nat \<Rightarrow> int \<times> string" where
  "onvif_xml_fault_action_not_supported n = snprintf n (
     ''<?xml version=\"1.0\" encoding=\"utf-8\"?>'' @
     ''<soap:Envelope'' @
     '' xmlns:soap=\"http://www.w3.org/2003/05/soap-envelope\"'' @
     '' xmlns:ter=\"http://www.onvif.org/ver10/error\">'' @
     ''<soap:Body>'' @
     ''<soap:Fault>'' @
     ''<soap:Code>'' @
     ''<soap:Value>soap:Sender</soap:Value>'' @
     ''<soap:Subcode>'' @
     ''<soap:Value>ter:ActionNotSupported</soap:Value>'' @
     ''</soap:Subcode>'' @
     ''</soap:Code>'' @
     ''<soap:Reason>'' @
     ''<soap:Text xml:lang=\"en\">Action not supported</soap:Text>'' @
     ''</soap:Reason>'' @
     ''</soap:Fault>'' @
     ''</soap:Body>'' @
     ''</soap:Envelope>'')"

definition fault_action_not_supported_doc :: "xml" where
  "fault_action_not_supported_doc =
   Node ''soap:Envelope'' [(''xmlns:soap'', ''http://www.w3.org/2003/05/soap-envelope''),
          (''xmlns:ter'', ''http://www.onvif.org/ver10/error'')] [
     Node ''soap:Body'' [] [
       Node ''soap:Fault'' [] [
         Node ''soap:Code'' [] [
           Leaf ''soap:Value'' [] ''soap:Sender'',
           Node ''soap:Subcode'' [] [
             Leaf ''soap:Value'' [] ''ter:ActionNotSupported'']],
         Node ''soap:Reason'' [] [
           Leaf ''soap:Text'' [(''xml:lang'', ''en'')] ''Action not supported'']]]]"

lemma fault_action_not_supported_renders [rendering]:
  "renders n (onvif_xml_fault_action_not_supported n) (render_doc ''utf-8'' (fault_action_not_supported_doc))"
  by (simp add: onvif_xml_fault_action_not_supported_def fault_action_not_supported_doc_def render_doc_def renders_snprintf)

lemma fault_action_not_supported_length [rendering]:
  "length (render_doc ''utf-8'' (fault_action_not_supported_doc)) = 434"
  by (simp add: fault_action_not_supported_doc_def render_doc_def)

lemma fault_action_not_supported_ok [rendering]:
  "xml_ok (fault_action_not_supported_doc)"
  by (simp add: fault_action_not_supported_doc_def xml_check)

definition onvif_xml_fault_invalid :: "nat \<Rightarrow> string option \<Rightarrow> string option \<Rightarrow> int \<times> string" where
  "onvif_xml_fault_invalid n subcode reason = snprintf n (
     ''<?xml version=\"1.0\" encoding=\"utf-8\"?>'' @
     ''<soap:Envelope'' @
     '' xmlns:soap=\"http://www.w3.org/2003/05/soap-envelope\"'' @
     '' xmlns:ter=\"http://www.onvif.org/ver10/error\">'' @
     ''<soap:Body>'' @
     ''<soap:Fault>'' @
     ''<soap:Code>'' @
     ''<soap:Value>soap:Sender</soap:Value>'' @
     ''<soap:Subcode>'' @
     ''<soap:Value>'' @ (case subcode of Some s \<Rightarrow> s | None \<Rightarrow> ''ter:InvalidArgVal'') @ ''</soap:Value>'' @
     ''</soap:Subcode>'' @
     ''</soap:Code>'' @
     ''<soap:Reason>'' @
     ''<soap:Text xml:lang=\"en\">'' @ (case reason of Some s \<Rightarrow> s | None \<Rightarrow> ''invalid request'') @ ''</soap:Text>'' @
     ''</soap:Reason>'' @
     ''</soap:Fault>'' @
     ''</soap:Body>'' @
     ''</soap:Envelope>'')"

definition fault_invalid_doc :: "string option \<Rightarrow> string option \<Rightarrow> xml" where
  "fault_invalid_doc subcode reason =
   Node ''soap:Envelope'' [(''xmlns:soap'', ''http://www.w3.org/2003/05/soap-envelope''),
          (''xmlns:ter'', ''http://www.onvif.org/ver10/error'')] [
     Node ''soap:Body'' [] [
       Node ''soap:Fault'' [] [
         Node ''soap:Code'' [] [
           Leaf ''soap:Value'' [] ''soap:Sender'',
           Node ''soap:Subcode'' [] [
             Leaf ''soap:Value'' [] ((case subcode of Some s \<Rightarrow> s | None \<Rightarrow> ''ter:InvalidArgVal''))]],
         Node ''soap:Reason'' [] [
           Leaf ''soap:Text'' [(''xml:lang'', ''en'')] ((case reason of Some s \<Rightarrow> s | None \<Rightarrow> ''invalid request''))]]]]"

lemma fault_invalid_renders [rendering]:
  "renders n (onvif_xml_fault_invalid n subcode reason) (render_doc ''utf-8'' (fault_invalid_doc subcode reason))"
  by (simp add: onvif_xml_fault_invalid_def fault_invalid_doc_def render_doc_def renders_snprintf)

lemma fault_invalid_length [rendering]:
  "length (render_doc ''utf-8'' (fault_invalid_doc subcode reason)) = 392 + length ((case subcode of Some s \<Rightarrow> s | None \<Rightarrow> ''ter:InvalidArgVal'')) + length ((case reason of Some s \<Rightarrow> s | None \<Rightarrow> ''invalid request''))"
  by (simp add: fault_invalid_doc_def render_doc_def)

lemma fault_invalid_ok [rendering]:
  "pred_option text_ok subcode \<Longrightarrow> pred_option text_ok reason \<Longrightarrow> xml_ok (fault_invalid_doc subcode reason)"
  by (auto simp: fault_invalid_doc_def xml_check split: option.split)

definition onvif_xml_fault_not_authorized :: "nat \<Rightarrow> int \<times> string" where
  "onvif_xml_fault_not_authorized n = snprintf n (
     ''<?xml version=\"1.0\" encoding=\"utf-8\"?>'' @
     ''<soap:Envelope'' @
     '' xmlns:soap=\"http://www.w3.org/2003/05/soap-envelope\"'' @
     '' xmlns:tds=\"http://www.onvif.org/ver10/device/wsdl\">'' @
     ''<soap:Body>'' @
     ''<soap:Fault>'' @
     ''<soap:Code>'' @
     ''<soap:Value>soap:Sender</soap:Value>'' @
     ''<soap:Subcode>'' @
     ''<soap:Value>tds:NotAuthorized</soap:Value>'' @
     ''</soap:Subcode>'' @
     ''</soap:Code>'' @
     ''<soap:Reason><soap:Text xml:lang=\"en\">Sender not authorized</soap:Text></soap:Reason>'' @
     ''</soap:Fault>'' @
     ''</soap:Body>'' @
     ''</soap:Envelope>'')"

definition fault_not_authorized_doc :: "xml" where
  "fault_not_authorized_doc =
   Node ''soap:Envelope'' [(''xmlns:soap'', ''http://www.w3.org/2003/05/soap-envelope''),
          (''xmlns:tds'', ''http://www.onvif.org/ver10/device/wsdl'')] [
     Node ''soap:Body'' [] [
       Node ''soap:Fault'' [] [
         Node ''soap:Code'' [] [
           Leaf ''soap:Value'' [] ''soap:Sender'',
           Node ''soap:Subcode'' [] [
             Leaf ''soap:Value'' [] ''tds:NotAuthorized'']],
         Node ''soap:Reason'' [] [
           Leaf ''soap:Text'' [(''xml:lang'', ''en'')] ''Sender not authorized'']]]]"

lemma fault_not_authorized_renders [rendering]:
  "renders n (onvif_xml_fault_not_authorized n) (render_doc ''utf-8'' (fault_not_authorized_doc))"
  by (simp add: onvif_xml_fault_not_authorized_def fault_not_authorized_doc_def render_doc_def renders_snprintf)

lemma fault_not_authorized_length [rendering]:
  "length (render_doc ''utf-8'' (fault_not_authorized_doc)) = 436"
  by (simp add: fault_not_authorized_doc_def render_doc_def)

lemma fault_not_authorized_ok [rendering]:
  "xml_ok (fault_not_authorized_doc)"
  by (simp add: fault_not_authorized_doc_def xml_check)

end
