(* ===== verification/Soap_Media.thy ===== *)
theory Soap_Media
  imports Xml_Doc
begin

text \<open>
  \<open>core/onvif_xml.c\<close>: the responses of the media and media2 services, built and specified like those
  of the device service.
\<close>

section \<open>Profiles and URIs\<close>

definition onvif_xml_profiles :: "nat \<Rightarrow> int \<Rightarrow> int \<times> string" where
  "onvif_xml_profiles n frame_rate = snprintf n (
     ''<?xml version=\"1.0\" encoding=\"utf-8\"?>'' @
     ''<soap:Envelope'' @
     '' xmlns:soap=\"http://www.w3.org/2003/05/soap-envelope\"'' @
     '' xmlns:tt=\"http://www.onvif.org/ver10/schema\"'' @
     '' xmlns:trt=\"http://www.onvif.org/ver10/media/wsdl\">'' @
     ''<soap:Body>'' @
     ''<trt:GetProfilesResponse>'' @
     ''<trt:Profiles token=\"MainStream\" fixed=\"true\">'' @
     ''<tt:Name>MainStream</tt:Name>'' @
     ''<tt:VideoSourceConfiguration>'' @
     ''<tt:Name>VideoSource_1</tt:Name>'' @
     ''<tt:UseCount>1</tt:UseCount>'' @
     ''<tt:SourceToken>VideoSource_1</tt:SourceToken>'' @
     ''</tt:VideoSourceConfiguration>'' @
     ''<tt:VideoEncoderConfiguration>'' @
     ''<tt:Name>VideoEncoder_1</tt:Name>'' @
     ''<tt:Encoding>JPEG</tt:Encoding>'' @
     ''<tt:Resolution>'' @
     ''<tt:Width>640</tt:Width>'' @
     ''<tt:Height>480</tt:Height>'' @
     ''</tt:Resolution>'' @
     ''<tt:Quality>5</tt:Quality>'' @
     ''<tt:RateControl>'' @
     ''<tt:FrameRateLimit>'' @ show_int frame_rate @ ''</tt:FrameRateLimit>'' @
     ''<tt:EncodingInterval>1</tt:EncodingInterval>'' @
     ''<tt:BitrateLimit>4096</tt:BitrateLimit>'' @
     ''</tt:RateControl>'' @
     ''</tt:VideoEncoderConfiguration>'' @
     ''</trt:Profiles>'' @
     ''</trt:GetProfilesResponse>'' @
     ''</soap:Body>'' @
     ''</soap:Envelope>'')"

definition profiles_doc :: "int \<Rightarrow> xml" where
  "profiles_doc frame_rate =
   Node ''soap:Envelope'' [(''xmlns:soap'', ''http://www.w3.org/2003/05/soap-envelope''),
          (''xmlns:tt'', ''http://www.onvif.org/ver10/schema''),
          (''xmlns:trt'', ''http://www.onvif.org/ver10/media/wsdl'')] [
     Node ''soap:Body'' [] [
       Node ''trt:GetProfilesResponse'' [] [
         Node ''trt:Profiles'' [(''token'', ''MainStream''), (''fixed'', ''true'')] [
           Leaf ''tt:Name'' [] ''MainStream'',
           Node ''tt:VideoSourceConfiguration'' [] [
             Leaf ''tt:Name'' [] ''VideoSource_1'',
             Leaf ''tt:UseCount'' [] ''1'',
             Leaf ''tt:SourceToken'' [] ''VideoSource_1''],
           Node ''tt:VideoEncoderConfiguration'' [] [
             Leaf ''tt:Name'' [] ''VideoEncoder_1'',
             Leaf ''tt:Encoding'' [] ''JPEG'',
             Node ''tt:Resolution'' [] [
               Leaf ''tt:Width'' [] ''640'',
               Leaf ''tt:Height'' [] ''480''],
             Leaf ''tt:Quality'' [] ''5'',
             Node ''tt:RateControl'' [] [
               Leaf ''tt:FrameRateLimit'' [] (show_int frame_rate),
               Leaf ''tt:EncodingInterval'' [] ''1'',
               Leaf ''tt:BitrateLimit'' [] ''4096'']]]]]]"

lemma profiles_renders [rendering]:
  "renders n (onvif_xml_profiles n frame_rate) (render_doc ''utf-8'' (profiles_doc frame_rate))"
  by (simp add: onvif_xml_profiles_def profiles_doc_def render_doc_def renders_snprintf)

lemma profiles_length [rendering]:
  "length (render_doc ''utf-8'' (profiles_doc frame_rate)) = 933 + length (show_int frame_rate)"
  by (simp add: profiles_doc_def render_doc_def)

lemma profiles_ok [rendering]:
  "xml_ok (profiles_doc frame_rate)"
  by (simp add: profiles_doc_def xml_check)

definition onvif_xml_stream_uri :: "nat \<Rightarrow> string \<Rightarrow> int \<times> string" where
  "onvif_xml_stream_uri n uri = snprintf n (
     ''<?xml version=\"1.0\" encoding=\"utf-8\"?>'' @
     ''<soap:Envelope'' @
     '' xmlns:soap=\"http://www.w3.org/2003/05/soap-envelope\"'' @
     '' xmlns:tt=\"http://www.onvif.org/ver10/schema\"'' @
     '' xmlns:trt=\"http://www.onvif.org/ver10/media/wsdl\">'' @
     ''<soap:Body>'' @
     ''<trt:GetStreamUriResponse>'' @
     ''<trt:MediaUri>'' @
     ''<tt:Uri>'' @ uri @ ''</tt:Uri>'' @
     ''<tt:InvalidAfterConnect>false</tt:InvalidAfterConnect>'' @
     ''<tt:InvalidAfterReboot>false</tt:InvalidAfterReboot>'' @
     ''<tt:Timeout>PT10S</tt:Timeout>'' @
     ''</trt:MediaUri>'' @
     ''</trt:GetStreamUriResponse>'' @
     ''</soap:Body>'' @
     ''</soap:Envelope>'')"

definition stream_uri_doc :: "string \<Rightarrow> xml" where
  "stream_uri_doc uri =
   Node ''soap:Envelope'' [(''xmlns:soap'', ''http://www.w3.org/2003/05/soap-envelope''),
          (''xmlns:tt'', ''http://www.onvif.org/ver10/schema''),
          (''xmlns:trt'', ''http://www.onvif.org/ver10/media/wsdl'')] [
     Node ''soap:Body'' [] [
       Node ''trt:GetStreamUriResponse'' [] [
         Node ''trt:MediaUri'' [] [
           Leaf ''tt:Uri'' [] uri,
           Leaf ''tt:InvalidAfterConnect'' [] ''false'',
           Leaf ''tt:InvalidAfterReboot'' [] ''false'',
           Leaf ''tt:Timeout'' [] ''PT10S'']]]]"

lemma stream_uri_renders [rendering]:
  "renders n (onvif_xml_stream_uri n uri) (render_doc ''utf-8'' (stream_uri_doc uri))"
  by (simp add: onvif_xml_stream_uri_def stream_uri_doc_def render_doc_def renders_snprintf)

lemma stream_uri_length [rendering]:
  "length (render_doc ''utf-8'' (stream_uri_doc uri)) = 475 + length uri"
  by (simp add: stream_uri_doc_def render_doc_def)

lemma stream_uri_ok [rendering]:
  "text_ok uri \<Longrightarrow> xml_ok (stream_uri_doc uri)"
  by (simp add: stream_uri_doc_def xml_check)

definition onvif_xml_snapshot_uri :: "nat \<Rightarrow> string \<Rightarrow> int \<times> string" where
  "onvif_xml_snapshot_uri n uri = snprintf n (
     ''<?xml version=\"1.0\" encoding=\"utf-8\"?>'' @
     ''<soap:Envelope'' @
     '' xmlns:soap=\"http://www.w3.org/2003/05/soap-envelope\"'' @
     '' xmlns:tt=\"http://www.onvif.org/ver10/schema\"'' @
     '' xmlns:trt=\"http://www.onvif.org/ver10/media/wsdl\">'' @
     ''<soap:Body>'' @
     ''<trt:GetSnapshotUriResponse>'' @
     ''<trt:MediaUri>'' @
     ''<tt:Uri>'' @ uri @ ''</tt:Uri>'' @
     ''</trt:MediaUri>'' @
     ''</trt:GetSnapshotUriResponse>'' @
     ''</soap:Body>'' @
     ''</soap:Envelope>'')"

definition snapshot_uri_doc :: "string \<Rightarrow> xml" where
  "snapshot_uri_doc uri =
   Node ''soap:Envelope'' [(''xmlns:soap'', ''http://www.w3.org/2003/05/soap-envelope''),
          (''xmlns:tt'', ''http://www.onvif.org/ver10/schema''),
          (''xmlns:trt'', ''http://www.onvif.org/ver10/media/wsdl'')] [
     Node ''soap:Body'' [] [
       Node ''trt:GetSnapshotUriResponse'' [] [
         Node ''trt:MediaUri'' [] [
           Leaf ''tt:Uri'' [] uri]]]]"

lemma snapshot_uri_renders [rendering]:
  "renders n (onvif_xml_snapshot_uri n uri) (render_doc ''utf-8'' (snapshot_uri_doc uri))"
  by (simp add: onvif_xml_snapshot_uri_def snapshot_uri_doc_def render_doc_def renders_snprintf)

lemma snapshot_uri_length [rendering]:
  "length (render_doc ''utf-8'' (snapshot_uri_doc uri)) = 343 + length uri"
  by (simp add: snapshot_uri_doc_def render_doc_def)

lemma snapshot_uri_ok [rendering]:
  "text_ok uri \<Longrightarrow> xml_ok (snapshot_uri_doc uri)"
  by (simp add: snapshot_uri_doc_def xml_check)

section \<open>Sources and encoders\<close>

definition onvif_xml_video_sources :: "nat \<Rightarrow> string \<Rightarrow> int \<Rightarrow> int \<Rightarrow> int \<Rightarrow> int \<times> string" where
  "onvif_xml_video_sources n token width height frame_rate = snprintf n (
     ''<?xml version=\"1.0\" encoding=\"utf-8\"?>'' @
     ''<soap:Envelope'' @
     '' xmlns:soap=\"http://www.w3.org/2003/05/soap-envelope\"'' @
     '' xmlns:tt=\"http://www.onvif.org/ver10/schema\"'' @
     '' xmlns:trt=\"http://www.onvif.org/ver10/media/wsdl\">'' @
     ''<soap:Body>'' @
     ''<trt:GetVideoSourcesResponse>'' @
     ''<trt:VideoSources token=\"'' @ token @ ''\">'' @
     ''<tt:Framerate>'' @ show_int frame_rate @ ''</tt:Framerate>'' @
     ''<tt:Resolution><tt:Width>'' @ show_int width @ ''</tt:Width><tt:Height>'' @ show_int height @ ''</tt:Height></tt:Resolution>'' @
     ''</trt:VideoSources>'' @
     ''</trt:GetVideoSourcesResponse>'' @
     ''</soap:Body>'' @
     ''</soap:Envelope>'')"

definition video_sources_doc :: "string \<Rightarrow> int \<Rightarrow> int \<Rightarrow> int \<Rightarrow> xml" where
  "video_sources_doc token width height frame_rate =
   Node ''soap:Envelope'' [(''xmlns:soap'', ''http://www.w3.org/2003/05/soap-envelope''),
          (''xmlns:tt'', ''http://www.onvif.org/ver10/schema''),
          (''xmlns:trt'', ''http://www.onvif.org/ver10/media/wsdl'')] [
     Node ''soap:Body'' [] [
       Node ''trt:GetVideoSourcesResponse'' [] [
         Node ''trt:VideoSources'' [(''token'', token)] [
           Leaf ''tt:Framerate'' [] (show_int frame_rate),
           Node ''tt:Resolution'' [] [
             Leaf ''tt:Width'' [] (show_int width),
             Leaf ''tt:Height'' [] (show_int height)]]]]]"

lemma video_sources_renders [rendering]:
  "renders n (onvif_xml_video_sources n token width height frame_rate) (render_doc ''utf-8'' (video_sources_doc token width height frame_rate))"
  by (simp add: onvif_xml_video_sources_def video_sources_doc_def render_doc_def renders_snprintf)

lemma video_sources_length [rendering]:
  "length (render_doc ''utf-8'' (video_sources_doc token width height frame_rate)) = 449 + length token + length (show_int frame_rate) + length (show_int width) + length (show_int height)"
  by (simp add: video_sources_doc_def render_doc_def)

lemma video_sources_ok [rendering]:
  "CHR 0x22 \<notin> set token \<Longrightarrow> xml_ok (video_sources_doc token width height frame_rate)"
  by (simp add: video_sources_doc_def xml_check)

definition encoder_configuration_text :: "string \<Rightarrow> int \<Rightarrow> int \<Rightarrow> int \<Rightarrow> int \<Rightarrow> string" where
  "encoder_configuration_text token width height frame_rate bitrate_kbps =
     ''<trt:VideoEncoderConfiguration token=\"'' @ token @ ''\">'' @
     ''<tt:Name>VideoEncoder_1</tt:Name>'' @
     ''<tt:UseCount>1</tt:UseCount>'' @
     ''<tt:Encoding>JPEG</tt:Encoding>'' @
     ''<tt:Resolution>'' @
     ''<tt:Width>'' @ show_int width @ ''</tt:Width>'' @
     ''<tt:Height>'' @ show_int height @ ''</tt:Height>'' @
     ''</tt:Resolution>'' @
     ''<tt:Quality>5</tt:Quality>'' @
     ''<tt:RateControl>'' @
     ''<tt:FrameRateLimit>'' @ show_int frame_rate @ ''</tt:FrameRateLimit>'' @
     ''<tt:EncodingInterval>1</tt:EncodingInterval>'' @
     ''<tt:BitrateLimit>'' @ show_int bitrate_kbps @ ''</tt:BitrateLimit>'' @
     ''</tt:RateControl>'' @
     ''</trt:VideoEncoderConfiguration>''"

definition encoder_configuration_doc :: "string \<Rightarrow> int \<Rightarrow> int \<Rightarrow> int \<Rightarrow> int \<Rightarrow> xml" where
  "encoder_configuration_doc token width height frame_rate bitrate_kbps =
   Node ''trt:VideoEncoderConfiguration'' [(''token'', token)] [
     Leaf ''tt:Name'' [] ''VideoEncoder_1'',
     Leaf ''tt:UseCount'' [] ''1'',
     Leaf ''tt:Encoding'' [] ''JPEG'',
     Node ''tt:Resolution'' [] [
       Leaf ''tt:Width'' [] (show_int width),
       Leaf ''tt:Height'' [] (show_int height)],
     Leaf ''tt:Quality'' [] ''5'',
     Node ''tt:RateControl'' [] [
       Leaf ''tt:FrameRateLimit'' [] (show_int frame_rate),
       Leaf ''tt:EncodingInterval'' [] ''1'',
       Leaf ''tt:BitrateLimit'' [] (show_int bitrate_kbps)]]"

lemma encoder_configuration_render:
  "render (encoder_configuration_doc t w h f b) = encoder_configuration_text t w h f b"
  by (simp add: encoder_configuration_doc_def encoder_configuration_text_def)

definition onvif_xml_video_encoder_configurations :: "nat \<Rightarrow> string \<Rightarrow> int \<Rightarrow> int \<Rightarrow> int \<Rightarrow> int \<Rightarrow> int \<times> string" where
  "onvif_xml_video_encoder_configurations n token width height frame_rate bitrate_kbps =
     (let off = snprintf n (
            ''<?xml version=\"1.0\" encoding=\"utf-8\"?>'' @
            ''<soap:Envelope'' @
            '' xmlns:soap=\"http://www.w3.org/2003/05/soap-envelope\"'' @
            '' xmlns:tt=\"http://www.onvif.org/ver10/schema\"'' @
            '' xmlns:trt=\"http://www.onvif.org/ver10/media/wsdl\">'' @
            ''<soap:Body>'' @
            ''<trt:GetVideoEncoderConfigurationsResponse>'');
          off = snprintf_more n off (encoder_configuration_text token width height frame_rate bitrate_kbps)
      in snprintf_more n off (
            ''</trt:GetVideoEncoderConfigurationsResponse>'' @
            ''</soap:Body>'' @
            ''</soap:Envelope>''))"

definition video_encoder_configurations_doc :: "string \<Rightarrow> int \<Rightarrow> int \<Rightarrow> int \<Rightarrow> int \<Rightarrow> xml" where
  "video_encoder_configurations_doc token width height frame_rate bitrate_kbps =
   Node ''soap:Envelope'' [(''xmlns:soap'', ''http://www.w3.org/2003/05/soap-envelope''),
          (''xmlns:tt'', ''http://www.onvif.org/ver10/schema''),
          (''xmlns:trt'', ''http://www.onvif.org/ver10/media/wsdl'')] [
     Node ''soap:Body'' [] [
       Node ''trt:GetVideoEncoderConfigurationsResponse'' [] [encoder_configuration_doc token width height frame_rate bitrate_kbps]]]"

lemma video_encoder_configurations_text:
  "render_doc ''utf-8'' (video_encoder_configurations_doc t w h f b) =
     ((''<?xml version=\"1.0\" encoding=\"utf-8\"?>'' @
            ''<soap:Envelope'' @
            '' xmlns:soap=\"http://www.w3.org/2003/05/soap-envelope\"'' @
            '' xmlns:tt=\"http://www.onvif.org/ver10/schema\"'' @
            '' xmlns:trt=\"http://www.onvif.org/ver10/media/wsdl\">'' @
            ''<soap:Body>'' @
            ''<trt:GetVideoEncoderConfigurationsResponse>'') @
      encoder_configuration_text t w h f b) @
     (''</trt:GetVideoEncoderConfigurationsResponse>'' @
            ''</soap:Body>'' @
            ''</soap:Envelope>'')"
  by (simp add: video_encoder_configurations_doc_def render_doc_def encoder_configuration_render)

lemma video_encoder_configurations_renders [rendering]:
  "renders n (onvif_xml_video_encoder_configurations n t w h f b) (render_doc ''utf-8'' (video_encoder_configurations_doc t w h f b))"
  unfolding onvif_xml_video_encoder_configurations_def Let_def video_encoder_configurations_text
  by (intro renders_more renders_snprintf)

lemma video_encoder_configurations_length [rendering]:
  "length (render_doc ''utf-8'' (video_encoder_configurations_doc t w h f b)) =
     743 + length t + length (show_int w) + length (show_int h) + length (show_int f) + length (show_int b)"
  by (simp add: video_encoder_configurations_doc_def encoder_configuration_doc_def render_doc_def)

lemma video_encoder_configurations_ok [rendering]:
  "CHR 0x22 \<notin> set t \<Longrightarrow> xml_ok (video_encoder_configurations_doc t w h f b)"
  by (simp add: video_encoder_configurations_doc_def encoder_configuration_doc_def xml_check)

definition onvif_xml_video_encoder_configuration :: "nat \<Rightarrow> string \<Rightarrow> int \<Rightarrow> int \<Rightarrow> int \<Rightarrow> int \<Rightarrow> int \<times> string" where
  "onvif_xml_video_encoder_configuration n token width height frame_rate bitrate_kbps =
     (let off = snprintf n (
            ''<?xml version=\"1.0\" encoding=\"utf-8\"?>'' @
            ''<soap:Envelope'' @
            '' xmlns:soap=\"http://www.w3.org/2003/05/soap-envelope\"'' @
            '' xmlns:tt=\"http://www.onvif.org/ver10/schema\"'' @
            '' xmlns:trt=\"http://www.onvif.org/ver10/media/wsdl\">'' @
            ''<soap:Body>'' @
            ''<trt:GetVideoEncoderConfigurationResponse>'');
          off = snprintf_more n off (encoder_configuration_text token width height frame_rate bitrate_kbps)
      in snprintf_more n off (
            ''</trt:GetVideoEncoderConfigurationResponse>'' @
            ''</soap:Body>'' @
            ''</soap:Envelope>''))"

definition video_encoder_configuration_doc :: "string \<Rightarrow> int \<Rightarrow> int \<Rightarrow> int \<Rightarrow> int \<Rightarrow> xml" where
  "video_encoder_configuration_doc token width height frame_rate bitrate_kbps =
   Node ''soap:Envelope'' [(''xmlns:soap'', ''http://www.w3.org/2003/05/soap-envelope''),
          (''xmlns:tt'', ''http://www.onvif.org/ver10/schema''),
          (''xmlns:trt'', ''http://www.onvif.org/ver10/media/wsdl'')] [
     Node ''soap:Body'' [] [
       Node ''trt:GetVideoEncoderConfigurationResponse'' [] [encoder_configuration_doc token width height frame_rate bitrate_kbps]]]"

lemma video_encoder_configuration_text:
  "render_doc ''utf-8'' (video_encoder_configuration_doc t w h f b) =
     ((''<?xml version=\"1.0\" encoding=\"utf-8\"?>'' @
            ''<soap:Envelope'' @
            '' xmlns:soap=\"http://www.w3.org/2003/05/soap-envelope\"'' @
            '' xmlns:tt=\"http://www.onvif.org/ver10/schema\"'' @
            '' xmlns:trt=\"http://www.onvif.org/ver10/media/wsdl\">'' @
            ''<soap:Body>'' @
            ''<trt:GetVideoEncoderConfigurationResponse>'') @
      encoder_configuration_text t w h f b) @
     (''</trt:GetVideoEncoderConfigurationResponse>'' @
            ''</soap:Body>'' @
            ''</soap:Envelope>'')"
  by (simp add: video_encoder_configuration_doc_def render_doc_def encoder_configuration_render)

lemma video_encoder_configuration_renders [rendering]:
  "renders n (onvif_xml_video_encoder_configuration n t w h f b) (render_doc ''utf-8'' (video_encoder_configuration_doc t w h f b))"
  unfolding onvif_xml_video_encoder_configuration_def Let_def video_encoder_configuration_text
  by (intro renders_more renders_snprintf)

lemma video_encoder_configuration_length [rendering]:
  "length (render_doc ''utf-8'' (video_encoder_configuration_doc t w h f b)) =
     741 + length t + length (show_int w) + length (show_int h) + length (show_int f) + length (show_int b)"
  by (simp add: video_encoder_configuration_doc_def encoder_configuration_doc_def render_doc_def)

lemma video_encoder_configuration_ok [rendering]:
  "CHR 0x22 \<notin> set t \<Longrightarrow> xml_ok (video_encoder_configuration_doc t w h f b)"
  by (simp add: video_encoder_configuration_doc_def encoder_configuration_doc_def xml_check)

definition onvif_xml_video_encoder_configuration_options :: "nat \<Rightarrow> int \<Rightarrow> int \<Rightarrow> int \<Rightarrow> int \<times> string" where
  "onvif_xml_video_encoder_configuration_options n width height frame_rate = snprintf n (
     ''<?xml version=\"1.0\" encoding=\"utf-8\"?>'' @
     ''<soap:Envelope'' @
     '' xmlns:soap=\"http://www.w3.org/2003/05/soap-envelope\"'' @
     '' xmlns:tt=\"http://www.onvif.org/ver10/schema\"'' @
     '' xmlns:trt=\"http://www.onvif.org/ver10/media/wsdl\">'' @
     ''<soap:Body>'' @
     ''<trt:GetVideoEncoderConfigurationOptionsResponse>'' @
     ''<trt:Options>'' @
     ''<tt:QualityRange><tt:Min>1</tt:Min><tt:Max>10</tt:Max></tt:QualityRange>'' @
     ''<tt:JPEG>'' @
     ''<tt:ResolutionsAvailable>'' @
     ''<tt:Width>'' @ show_int width @ ''</tt:Width><tt:Height>'' @ show_int height @ ''</tt:Height>'' @
     ''</tt:ResolutionsAvailable>'' @
     ''<tt:FrameRateRange>'' @
     ''<tt:Min>1</tt:Min><tt:Max>'' @ show_int frame_rate @ ''</tt:Max>'' @
     ''</tt:FrameRateRange>'' @
     ''<tt:EncodingIntervalRange>'' @
     ''<tt:Min>1</tt:Min><tt:Max>1</tt:Max>'' @
     ''</tt:EncodingIntervalRange>'' @
     ''</tt:JPEG>'' @
     ''</trt:Options>'' @
     ''</trt:GetVideoEncoderConfigurationOptionsResponse>'' @
     ''</soap:Body>'' @
     ''</soap:Envelope>'')"

definition video_encoder_configuration_options_doc :: "int \<Rightarrow> int \<Rightarrow> int \<Rightarrow> xml" where
  "video_encoder_configuration_options_doc width height frame_rate =
   Node ''soap:Envelope'' [(''xmlns:soap'', ''http://www.w3.org/2003/05/soap-envelope''),
          (''xmlns:tt'', ''http://www.onvif.org/ver10/schema''),
          (''xmlns:trt'', ''http://www.onvif.org/ver10/media/wsdl'')] [
     Node ''soap:Body'' [] [
       Node ''trt:GetVideoEncoderConfigurationOptionsResponse'' [] [
         Node ''trt:Options'' [] [
           Node ''tt:QualityRange'' [] [
             Leaf ''tt:Min'' [] ''1'',
             Leaf ''tt:Max'' [] ''10''],
           Node ''tt:JPEG'' [] [
             Node ''tt:ResolutionsAvailable'' [] [
               Leaf ''tt:Width'' [] (show_int width),
               Leaf ''tt:Height'' [] (show_int height)],
             Node ''tt:FrameRateRange'' [] [
               Leaf ''tt:Min'' [] ''1'',
               Leaf ''tt:Max'' [] (show_int frame_rate)],
             Node ''tt:EncodingIntervalRange'' [] [
               Leaf ''tt:Min'' [] ''1'',
               Leaf ''tt:Max'' [] ''1'']]]]]]"

lemma video_encoder_configuration_options_renders [rendering]:
  "renders n (onvif_xml_video_encoder_configuration_options n width height frame_rate) (render_doc ''utf-8'' (video_encoder_configuration_options_doc width height frame_rate))"
  by (simp add: onvif_xml_video_encoder_configuration_options_def video_encoder_configuration_options_doc_def render_doc_def renders_snprintf)

lemma video_encoder_configuration_options_length [rendering]:
  "length (render_doc ''utf-8'' (video_encoder_configuration_options_doc width height frame_rate)) = 715 + length (show_int width) + length (show_int height) + length (show_int frame_rate)"
  by (simp add: video_encoder_configuration_options_doc_def render_doc_def)

lemma video_encoder_configuration_options_ok [rendering]:
  "xml_ok (video_encoder_configuration_options_doc width height frame_rate)"
  by (simp add: video_encoder_configuration_options_doc_def xml_check)

definition onvif_xml_set_video_encoder_configuration_ack :: "nat \<Rightarrow> int \<times> string" where
  "onvif_xml_set_video_encoder_configuration_ack n = snprintf n (
     ''<?xml version=\"1.0\" encoding=\"utf-8\"?>'' @
     ''<soap:Envelope'' @
     '' xmlns:soap=\"http://www.w3.org/2003/05/soap-envelope\"'' @
     '' xmlns:trt=\"http://www.onvif.org/ver10/media/wsdl\">'' @
     ''<soap:Body>'' @
     ''<trt:SetVideoEncoderConfigurationResponse/>'' @
     ''</soap:Body>'' @
     ''</soap:Envelope>'')"

definition set_video_encoder_configuration_ack_doc :: "xml" where
  "set_video_encoder_configuration_ack_doc =
   Node ''soap:Envelope'' [(''xmlns:soap'', ''http://www.w3.org/2003/05/soap-envelope''),
          (''xmlns:trt'', ''http://www.onvif.org/ver10/media/wsdl'')] [
     Node ''soap:Body'' [] [
       Empty ''trt:SetVideoEncoderConfigurationResponse'' []]]"

lemma set_video_encoder_configuration_ack_renders [rendering]:
  "renders n (onvif_xml_set_video_encoder_configuration_ack n) (render_doc ''utf-8'' (set_video_encoder_configuration_ack_doc))"
  by (simp add: onvif_xml_set_video_encoder_configuration_ack_def set_video_encoder_configuration_ack_doc_def render_doc_def renders_snprintf)

lemma set_video_encoder_configuration_ack_length [rendering]:
  "length (render_doc ''utf-8'' (set_video_encoder_configuration_ack_doc)) = 238"
  by (simp add: set_video_encoder_configuration_ack_doc_def render_doc_def)

lemma set_video_encoder_configuration_ack_ok [rendering]:
  "xml_ok (set_video_encoder_configuration_ack_doc)"
  by (simp add: set_video_encoder_configuration_ack_doc_def xml_check)

definition onvif_xml_guaranteed_encoder_instances :: "nat \<Rightarrow> int \<times> string" where
  "onvif_xml_guaranteed_encoder_instances n = snprintf n (
     ''<?xml version=\"1.0\" encoding=\"utf-8\"?>'' @
     ''<soap:Envelope'' @
     '' xmlns:soap=\"http://www.w3.org/2003/05/soap-envelope\"'' @
     '' xmlns:trt=\"http://www.onvif.org/ver10/media/wsdl\">'' @
     ''<soap:Body>'' @
     ''<trt:GetGuaranteedNumberOfVideoEncoderInstancesResponse>'' @
     ''<trt:TotalInstances>1</trt:TotalInstances>'' @
     ''</trt:GetGuaranteedNumberOfVideoEncoderInstancesResponse>'' @
     ''</soap:Body>'' @
     ''</soap:Envelope>'')"

definition guaranteed_encoder_instances_doc :: "xml" where
  "guaranteed_encoder_instances_doc =
   Node ''soap:Envelope'' [(''xmlns:soap'', ''http://www.w3.org/2003/05/soap-envelope''),
          (''xmlns:trt'', ''http://www.onvif.org/ver10/media/wsdl'')] [
     Node ''soap:Body'' [] [
       Node ''trt:GetGuaranteedNumberOfVideoEncoderInstancesResponse'' [] [
         Leaf ''trt:TotalInstances'' [] ''1'']]]"

lemma guaranteed_encoder_instances_renders [rendering]:
  "renders n (onvif_xml_guaranteed_encoder_instances n) (render_doc ''utf-8'' (guaranteed_encoder_instances_doc))"
  by (simp add: onvif_xml_guaranteed_encoder_instances_def guaranteed_encoder_instances_doc_def render_doc_def renders_snprintf)

lemma guaranteed_encoder_instances_length [rendering]:
  "length (render_doc ''utf-8'' (guaranteed_encoder_instances_doc)) = 350"
  by (simp add: guaranteed_encoder_instances_doc_def render_doc_def)

lemma guaranteed_encoder_instances_ok [rendering]:
  "xml_ok (guaranteed_encoder_instances_doc)"
  by (simp add: guaranteed_encoder_instances_doc_def xml_check)

definition onvif_xml_set_synchronization_point_ack :: "nat \<Rightarrow> int \<times> string" where
  "onvif_xml_set_synchronization_point_ack n = snprintf n (
     ''<?xml version=\"1.0\" encoding=\"utf-8\"?>'' @
     ''<soap:Envelope'' @
     '' xmlns:soap=\"http://www.w3.org/2003/05/soap-envelope\"'' @
     '' xmlns:trt=\"http://www.onvif.org/ver10/media/wsdl\">'' @
     ''<soap:Body>'' @
     ''<trt:SetSynchronizationPointResponse/>'' @
     ''</soap:Body>'' @
     ''</soap:Envelope>'')"

definition set_synchronization_point_ack_doc :: "xml" where
  "set_synchronization_point_ack_doc =
   Node ''soap:Envelope'' [(''xmlns:soap'', ''http://www.w3.org/2003/05/soap-envelope''),
          (''xmlns:trt'', ''http://www.onvif.org/ver10/media/wsdl'')] [
     Node ''soap:Body'' [] [
       Empty ''trt:SetSynchronizationPointResponse'' []]]"

lemma set_synchronization_point_ack_renders [rendering]:
  "renders n (onvif_xml_set_synchronization_point_ack n) (render_doc ''utf-8'' (set_synchronization_point_ack_doc))"
  by (simp add: onvif_xml_set_synchronization_point_ack_def set_synchronization_point_ack_doc_def render_doc_def renders_snprintf)

lemma set_synchronization_point_ack_length [rendering]:
  "length (render_doc ''utf-8'' (set_synchronization_point_ack_doc)) = 233"
  by (simp add: set_synchronization_point_ack_doc_def render_doc_def)

lemma set_synchronization_point_ack_ok [rendering]:
  "xml_ok (set_synchronization_point_ack_doc)"
  by (simp add: set_synchronization_point_ack_doc_def xml_check)

definition onvif_xml_media_service_capabilities :: "nat \<Rightarrow> int \<times> string" where
  "onvif_xml_media_service_capabilities n = snprintf n (
     ''<?xml version=\"1.0\" encoding=\"utf-8\"?>'' @
     ''<soap:Envelope'' @
     '' xmlns:soap=\"http://www.w3.org/2003/05/soap-envelope\"'' @
     '' xmlns:trt=\"http://www.onvif.org/ver10/media/wsdl\">'' @
     ''<soap:Body>'' @
     ''<trt:GetServiceCapabilitiesResponse>'' @
     ''<trt:Capabilities SnapshotUri=\"true\" RTP_US=\"false\" '' @
     ''RTP_Multicast=\"false\" RTP_TCP=\"true\" NonFixedIP=\"false\"/>'' @
     ''</trt:GetServiceCapabilitiesResponse>'' @
     ''</soap:Body>'' @
     ''</soap:Envelope>'')"

definition media_service_capabilities_doc :: "xml" where
  "media_service_capabilities_doc =
   Node ''soap:Envelope'' [(''xmlns:soap'', ''http://www.w3.org/2003/05/soap-envelope''),
          (''xmlns:trt'', ''http://www.onvif.org/ver10/media/wsdl'')] [
     Node ''soap:Body'' [] [
       Node ''trt:GetServiceCapabilitiesResponse'' [] [
         Empty ''trt:Capabilities'' [(''SnapshotUri'', ''true''),
                (''RTP_US'', ''false''),
                (''RTP_Multicast'', ''false''),
                (''RTP_TCP'', ''true''),
                (''NonFixedIP'', ''false'')]]]]"

lemma media_service_capabilities_renders [rendering]:
  "renders n (onvif_xml_media_service_capabilities n) (render_doc ''utf-8'' (media_service_capabilities_doc))"
  by (simp add: onvif_xml_media_service_capabilities_def media_service_capabilities_doc_def render_doc_def renders_snprintf)

lemma media_service_capabilities_length [rendering]:
  "length (render_doc ''utf-8'' (media_service_capabilities_doc)) = 377"
  by (simp add: media_service_capabilities_doc_def render_doc_def)

lemma media_service_capabilities_ok [rendering]:
  "xml_ok (media_service_capabilities_doc)"
  by (simp add: media_service_capabilities_doc_def xml_check)

section \<open>Media2\<close>

definition onvif_xml_media2_profiles :: "nat \<Rightarrow> int \<Rightarrow> int \<times> string" where
  "onvif_xml_media2_profiles n frame_rate = snprintf n (
     ''<?xml version=\"1.0\" encoding=\"utf-8\"?>'' @
     ''<soap:Envelope'' @
     '' xmlns:soap=\"http://www.w3.org/2003/05/soap-envelope\"'' @
     '' xmlns:tt=\"http://www.onvif.org/ver10/schema\"'' @
     '' xmlns:tr2=\"http://www.onvif.org/ver20/media/wsdl\">'' @
     ''<soap:Body>'' @
     ''<tr2:GetProfilesResponse>'' @
     ''<tr2:Profiles token=\"MainStream\" fixed=\"true\">'' @
     ''<tt:Name>MainStream</tt:Name>'' @
     ''<tr2:Configurations>'' @
     ''<tr2:VideoSource token=\"VideoSource_1\">'' @
     ''<tt:Name>VideoSource_1</tt:Name>'' @
     ''<tt:UseCount>1</tt:UseCount>'' @
     ''<tt:SourceToken>VideoSource_1</tt:SourceToken>'' @
     ''</tr2:VideoSource>'' @
     ''<tr2:VideoEncoder token=\"VideoEncoder_1\">'' @
     ''<tt:Name>VideoEncoder_1</tt:Name>'' @
     ''<tt:UseCount>1</tt:UseCount>'' @
     ''<tt:Encoding>JPEG</tt:Encoding>'' @
     ''<tt:Resolution>'' @
     ''<tt:Width>640</tt:Width>'' @
     ''<tt:Height>480</tt:Height>'' @
     ''</tt:Resolution>'' @
     ''<tt:RateControl>'' @
     ''<tt:FrameRateLimit>'' @ show_int frame_rate @ ''</tt:FrameRateLimit>'' @
     ''<tt:BitrateLimit>4096</tt:BitrateLimit>'' @
     ''</tt:RateControl>'' @
     ''</tr2:VideoEncoder>'' @
     ''</tr2:Configurations>'' @
     ''</tr2:Profiles>'' @
     ''</tr2:GetProfilesResponse>'' @
     ''</soap:Body>'' @
     ''</soap:Envelope>'')"

definition media2_profiles_doc :: "int \<Rightarrow> xml" where
  "media2_profiles_doc frame_rate =
   Node ''soap:Envelope'' [(''xmlns:soap'', ''http://www.w3.org/2003/05/soap-envelope''),
          (''xmlns:tt'', ''http://www.onvif.org/ver10/schema''),
          (''xmlns:tr2'', ''http://www.onvif.org/ver20/media/wsdl'')] [
     Node ''soap:Body'' [] [
       Node ''tr2:GetProfilesResponse'' [] [
         Node ''tr2:Profiles'' [(''token'', ''MainStream''), (''fixed'', ''true'')] [
           Leaf ''tt:Name'' [] ''MainStream'',
           Node ''tr2:Configurations'' [] [
             Node ''tr2:VideoSource'' [(''token'', ''VideoSource_1'')] [
               Leaf ''tt:Name'' [] ''VideoSource_1'',
               Leaf ''tt:UseCount'' [] ''1'',
               Leaf ''tt:SourceToken'' [] ''VideoSource_1''],
             Node ''tr2:VideoEncoder'' [(''token'', ''VideoEncoder_1'')] [
               Leaf ''tt:Name'' [] ''VideoEncoder_1'',
               Leaf ''tt:UseCount'' [] ''1'',
               Leaf ''tt:Encoding'' [] ''JPEG'',
               Node ''tt:Resolution'' [] [
                 Leaf ''tt:Width'' [] ''640'',
                 Leaf ''tt:Height'' [] ''480''],
               Node ''tt:RateControl'' [] [
                 Leaf ''tt:FrameRateLimit'' [] (show_int frame_rate),
                 Leaf ''tt:BitrateLimit'' [] ''4096'']]]]]]]"

lemma media2_profiles_renders [rendering]:
  "renders n (onvif_xml_media2_profiles n frame_rate) (render_doc ''utf-8'' (media2_profiles_doc frame_rate))"
  by (simp add: onvif_xml_media2_profiles_def media2_profiles_doc_def render_doc_def renders_snprintf)

lemma media2_profiles_length [rendering]:
  "length (render_doc ''utf-8'' (media2_profiles_doc frame_rate)) = 929 + length (show_int frame_rate)"
  by (simp add: media2_profiles_doc_def render_doc_def)

lemma media2_profiles_ok [rendering]:
  "xml_ok (media2_profiles_doc frame_rate)"
  by (simp add: media2_profiles_doc_def xml_check)

definition onvif_xml_media2_stream_uri :: "nat \<Rightarrow> string \<Rightarrow> int \<times> string" where
  "onvif_xml_media2_stream_uri n uri = snprintf n (
     ''<?xml version=\"1.0\" encoding=\"utf-8\"?>'' @
     ''<soap:Envelope'' @
     '' xmlns:soap=\"http://www.w3.org/2003/05/soap-envelope\"'' @
     '' xmlns:tr2=\"http://www.onvif.org/ver20/media/wsdl\">'' @
     ''<soap:Body>'' @
     ''<tr2:GetStreamUriResponse>'' @
     ''<tr2:Uri>'' @ uri @ ''</tr2:Uri>'' @
     ''</tr2:GetStreamUriResponse>'' @
     ''</soap:Body>'' @
     ''</soap:Envelope>'')"

definition media2_stream_uri_doc :: "string \<Rightarrow> xml" where
  "media2_stream_uri_doc uri =
   Node ''soap:Envelope'' [(''xmlns:soap'', ''http://www.w3.org/2003/05/soap-envelope''),
          (''xmlns:tr2'', ''http://www.onvif.org/ver20/media/wsdl'')] [
     Node ''soap:Body'' [] [
       Node ''tr2:GetStreamUriResponse'' [] [
         Leaf ''tr2:Uri'' [] uri]]]"

lemma media2_stream_uri_renders [rendering]:
  "renders n (onvif_xml_media2_stream_uri n uri) (render_doc ''utf-8'' (media2_stream_uri_doc uri))"
  by (simp add: onvif_xml_media2_stream_uri_def media2_stream_uri_doc_def render_doc_def renders_snprintf)

lemma media2_stream_uri_length [rendering]:
  "length (render_doc ''utf-8'' (media2_stream_uri_doc uri)) = 267 + length uri"
  by (simp add: media2_stream_uri_doc_def render_doc_def)

lemma media2_stream_uri_ok [rendering]:
  "text_ok uri \<Longrightarrow> xml_ok (media2_stream_uri_doc uri)"
  by (simp add: media2_stream_uri_doc_def xml_check)

definition onvif_xml_media2_sync_point_ack :: "nat \<Rightarrow> int \<times> string" where
  "onvif_xml_media2_sync_point_ack n = snprintf n (
     ''<?xml version=\"1.0\" encoding=\"utf-8\"?>'' @
     ''<soap:Envelope'' @
     '' xmlns:soap=\"http://www.w3.org/2003/05/soap-envelope\"'' @
     '' xmlns:tr2=\"http://www.onvif.org/ver20/media/wsdl\">'' @
     ''<soap:Body>'' @
     ''<tr2:SetSynchronizationPointResponse/>'' @
     ''</soap:Body>'' @
     ''</soap:Envelope>'')"

definition media2_sync_point_ack_doc :: "xml" where
  "media2_sync_point_ack_doc =
   Node ''soap:Envelope'' [(''xmlns:soap'', ''http://www.w3.org/2003/05/soap-envelope''),
          (''xmlns:tr2'', ''http://www.onvif.org/ver20/media/wsdl'')] [
     Node ''soap:Body'' [] [
       Empty ''tr2:SetSynchronizationPointResponse'' []]]"

lemma media2_sync_point_ack_renders [rendering]:
  "renders n (onvif_xml_media2_sync_point_ack n) (render_doc ''utf-8'' (media2_sync_point_ack_doc))"
  by (simp add: onvif_xml_media2_sync_point_ack_def media2_sync_point_ack_doc_def render_doc_def renders_snprintf)

lemma media2_sync_point_ack_length [rendering]:
  "length (render_doc ''utf-8'' (media2_sync_point_ack_doc)) = 233"
  by (simp add: media2_sync_point_ack_doc_def render_doc_def)

lemma media2_sync_point_ack_ok [rendering]:
  "xml_ok (media2_sync_point_ack_doc)"
  by (simp add: media2_sync_point_ack_doc_def xml_check)

end
