(* ===== verification/Soap_Events.thy ===== *)
theory Soap_Events
  imports Xml_Doc
begin

text \<open>
  \<open>core/onvif_xml.c\<close>: the responses of the events service.  \<open>PullMessages\<close> is assembled by its handler
  from an opening, one fragment per event and a closing part.
\<close>

section \<open>Subscription responses\<close>

definition onvif_xml_create_pull_point_response :: "nat \<Rightarrow> string \<Rightarrow> nat \<Rightarrow> string \<Rightarrow> string \<Rightarrow> int \<times> string" where
  "onvif_xml_create_pull_point_response n ip port now termination = snprintf n (
     ''<?xml version=\"1.0\" encoding=\"UTF-8\"?>'' @
     ''<s:Envelope xmlns:s=\"http://www.w3.org/2003/05/soap-envelope\">'' @
     ''<s:Body>'' @
     ''<tev:CreatePullPointSubscriptionResponse xmlns:tev=\"http://www.onvif.org/ver10/events/wsdl\" '' @
     ''xmlns:wsa=\"http://www.w3.org/2005/08/addressing\" xmlns:wsnt=\"http://docs.oasis-open.org/wsn/b-2\">'' @
     ''<tev:SubscriptionReference>'' @
     ''<wsa:Address>http://'' @ ip @ '':'' @ show_nat port @ ''/onvif/events_service</wsa:Address>'' @
     ''</tev:SubscriptionReference>'' @
     ''<wsnt:CurrentTime>'' @ now @ ''</wsnt:CurrentTime>'' @
     ''<wsnt:TerminationTime>'' @ termination @ ''</wsnt:TerminationTime>'' @
     ''</tev:CreatePullPointSubscriptionResponse>'' @
     ''</s:Body></s:Envelope>'')"

definition create_pull_point_response_doc :: "string \<Rightarrow> nat \<Rightarrow> string \<Rightarrow> string \<Rightarrow> xml" where
  "create_pull_point_response_doc ip port now termination =
   Node ''s:Envelope'' [(''xmlns:s'', ''http://www.w3.org/2003/05/soap-envelope'')] [
     Node ''s:Body'' [] [
       Node ''tev:CreatePullPointSubscriptionResponse'' [(''xmlns:tev'', ''http://www.onvif.org/ver10/events/wsdl''),
              (''xmlns:wsa'', ''http://www.w3.org/2005/08/addressing''),
              (''xmlns:wsnt'', ''http://docs.oasis-open.org/wsn/b-2'')] [
         Node ''tev:SubscriptionReference'' [] [
           Leaf ''wsa:Address'' [] (''http://'' @ ip @ '':'' @ show_nat port @ ''/onvif/events_service'')],
         Leaf ''wsnt:CurrentTime'' [] now,
         Leaf ''wsnt:TerminationTime'' [] termination]]]"

lemma create_pull_point_response_renders [rendering]:
  "renders n (onvif_xml_create_pull_point_response n ip port now termination) (render_doc ''UTF-8'' (create_pull_point_response_doc ip port now termination))"
  by (simp add: onvif_xml_create_pull_point_response_def create_pull_point_response_doc_def render_doc_def renders_snprintf)

lemma create_pull_point_response_length [rendering]:
  "length (render_doc ''UTF-8'' (create_pull_point_response_doc ip port now termination)) = 554 + length ip + length (show_nat port) + length now + length termination"
  by (simp add: create_pull_point_response_doc_def render_doc_def)

lemma create_pull_point_response_ok [rendering]:
  "text_ok ip \<Longrightarrow> text_ok now \<Longrightarrow> text_ok termination \<Longrightarrow> xml_ok (create_pull_point_response_doc ip port now termination)"
  by (simp add: create_pull_point_response_doc_def xml_check)

definition onvif_xml_renew_response :: "nat \<Rightarrow> string \<Rightarrow> int \<times> string" where
  "onvif_xml_renew_response n termination = snprintf n (
     ''<?xml version=\"1.0\" encoding=\"UTF-8\"?>'' @
     ''<s:Envelope xmlns:s=\"http://www.w3.org/2003/05/soap-envelope\">'' @
     ''<s:Body>'' @
     ''<wsnt:RenewResponse xmlns:wsnt=\"http://docs.oasis-open.org/wsn/b-2\">'' @
     ''<wsnt:TerminationTime>'' @ termination @ ''</wsnt:TerminationTime>'' @
     ''</wsnt:RenewResponse>'' @
     ''</s:Body></s:Envelope>'')"

definition renew_response_doc :: "string \<Rightarrow> xml" where
  "renew_response_doc termination =
   Node ''s:Envelope'' [(''xmlns:s'', ''http://www.w3.org/2003/05/soap-envelope'')] [
     Node ''s:Body'' [] [
       Node ''wsnt:RenewResponse'' [(''xmlns:wsnt'', ''http://docs.oasis-open.org/wsn/b-2'')] [
         Leaf ''wsnt:TerminationTime'' [] termination]]]"

lemma renew_response_renders [rendering]:
  "renders n (onvif_xml_renew_response n termination) (render_doc ''UTF-8'' (renew_response_doc termination))"
  by (simp add: onvif_xml_renew_response_def renew_response_doc_def render_doc_def renders_snprintf)

lemma renew_response_length [rendering]:
  "length (render_doc ''UTF-8'' (renew_response_doc termination)) = 264 + length termination"
  by (simp add: renew_response_doc_def render_doc_def)

lemma renew_response_ok [rendering]:
  "text_ok termination \<Longrightarrow> xml_ok (renew_response_doc termination)"
  by (simp add: renew_response_doc_def xml_check)

definition onvif_xml_unsubscribe_response :: string where
  "onvif_xml_unsubscribe_response =
     ''<?xml version=\"1.0\" encoding=\"UTF-8\"?>'' @
     ''<s:Envelope xmlns:s=\"http://www.w3.org/2003/05/soap-envelope\">'' @
     ''<s:Body>'' @
     ''<wsnt:UnsubscribeResponse xmlns:wsnt=\"http://docs.oasis-open.org/wsn/b-2\"/>'' @
     ''</s:Body></s:Envelope>''"

definition unsubscribe_response_doc :: xml where
  "unsubscribe_response_doc =
   Node ''s:Envelope'' [(''xmlns:s'', ''http://www.w3.org/2003/05/soap-envelope'')] [
     Node ''s:Body'' [] [
       Empty ''wsnt:UnsubscribeResponse'' [(''xmlns:wsnt'', ''http://docs.oasis-open.org/wsn/b-2'')]]]"

lemma unsubscribe_response_render:
  "onvif_xml_unsubscribe_response = render_doc ''UTF-8'' unsubscribe_response_doc"
  by (simp add: onvif_xml_unsubscribe_response_def unsubscribe_response_doc_def render_doc_def)

lemma unsubscribe_response_ok: "xml_ok unsubscribe_response_doc"
  by (simp add: unsubscribe_response_doc_def xml_check)

definition onvif_xml_events_fault :: "nat \<Rightarrow> string \<Rightarrow> string \<Rightarrow> int \<times> string" where
  "onvif_xml_events_fault n subcode text = snprintf n (
     ''<?xml version=\"1.0\" encoding=\"UTF-8\"?>'' @
     ''<s:Envelope xmlns:s=\"http://www.w3.org/2003/05/soap-envelope\">'' @
     ''<s:Body><s:Fault>'' @
     ''<s:Code><s:Value>s:Sender</s:Value>'' @
     ''<s:Subcode><s:Value>'' @ subcode @ ''</s:Value></s:Subcode></s:Code>'' @
     ''<s:Reason><s:Text xml:lang=\"en\">'' @ text @ ''</s:Text></s:Reason>'' @
     ''</s:Fault></s:Body></s:Envelope>'')"

definition events_fault_doc :: "string \<Rightarrow> string \<Rightarrow> xml" where
  "events_fault_doc subcode text =
   Node ''s:Envelope'' [(''xmlns:s'', ''http://www.w3.org/2003/05/soap-envelope'')] [
     Node ''s:Body'' [] [
       Node ''s:Fault'' [] [
         Node ''s:Code'' [] [
           Leaf ''s:Value'' [] ''s:Sender'',
           Node ''s:Subcode'' [] [
             Leaf ''s:Value'' [] subcode]],
         Node ''s:Reason'' [] [
           Leaf ''s:Text'' [(''xml:lang'', ''en'')] text]]]]"

lemma events_fault_renders [rendering]:
  "renders n (onvif_xml_events_fault n subcode text) (render_doc ''UTF-8'' (events_fault_doc subcode text))"
  by (simp add: onvif_xml_events_fault_def events_fault_doc_def render_doc_def renders_snprintf)

lemma events_fault_length [rendering]:
  "length (render_doc ''UTF-8'' (events_fault_doc subcode text)) = 287 + length subcode + length text"
  by (simp add: events_fault_doc_def render_doc_def)

lemma events_fault_ok [rendering]:
  "text_ok subcode \<Longrightarrow> text_ok text \<Longrightarrow> xml_ok (events_fault_doc subcode text)"
  by (simp add: events_fault_doc_def xml_check)

section \<open>Pull messages: opened, filled event by event, closed\<close>

definition pull_open_text :: "string" where
  "pull_open_text =
     ''<?xml version=\"1.0\" encoding=\"UTF-8\"?>'' @
     ''<s:Envelope xmlns:s=\"http://www.w3.org/2003/05/soap-envelope\">'' @
     ''<s:Body>'' @
     ''<tev:PullMessagesResponse xmlns:tev=\"http://www.onvif.org/ver10/events/wsdl\" '' @
     ''xmlns:wsnt=\"http://docs.oasis-open.org/wsn/b-2\" xmlns:tt=\"http://www.onvif.org/ver10/schema\">''"

definition onvif_xml_pull_open :: "nat \<Rightarrow> int \<times> string" where
  "onvif_xml_pull_open n = snprintf n (pull_open_text)"

definition pull_event_text :: "string \<Rightarrow> bool \<Rightarrow> nat \<Rightarrow> string" where
  "pull_event_text utc active score =
     ''<wsnt:NotificationMessage>'' @
     ''<wsnt:Topic Dialect=\"http://www.onvif.org/ver10/tev/topicExpression/ConcreteSet\">'' @
     ''tns1:VideoSource/MotionAlarm</wsnt:Topic>'' @
     ''<wsnt:Message><tt:Message UtcTime=\"'' @ utc @ ''\">'' @
     ''<tt:Source><tt:SimpleItem Name=\"Source\" Value=\"CSI\"/></tt:Source>'' @
     ''<tt:Data>'' @
     ''<tt:SimpleItem Name=\"State\" Value=\"'' @ (if active then ''true'' else ''false'') @ ''\"/>'' @
     ''<tt:SimpleItem Name=\"Score\" Value=\"'' @ show_nat score @ ''\"/>'' @
     ''</tt:Data></tt:Message></wsnt:Message>'' @
     ''</wsnt:NotificationMessage>''"

definition onvif_xml_pull_event :: "nat \<Rightarrow> string \<Rightarrow> bool \<Rightarrow> nat \<Rightarrow> int \<times> string" where
  "onvif_xml_pull_event n utc active score = snprintf n (pull_event_text utc active score)"

definition pull_close_text :: "string \<Rightarrow> string \<Rightarrow> string" where
  "pull_close_text now termination =
     ''<tev:CurrentTime>'' @ now @ ''</tev:CurrentTime>'' @
     ''<tev:TerminationTime>'' @ termination @ ''</tev:TerminationTime>'' @
     ''</tev:PullMessagesResponse></s:Body></s:Envelope>''"

definition onvif_xml_pull_close :: "nat \<Rightarrow> string \<Rightarrow> string \<Rightarrow> int \<times> string" where
  "onvif_xml_pull_close n now termination = snprintf n (pull_close_text now termination)"

definition pull_event_doc :: "string \<Rightarrow> bool \<Rightarrow> nat \<Rightarrow> xml" where
  "pull_event_doc utc active score =
   Node ''wsnt:NotificationMessage'' [] [
     Leaf ''wsnt:Topic'' [(''Dialect'', ''http://www.onvif.org/ver10/tev/topicExpression/ConcreteSet'')] ''tns1:VideoSource/MotionAlarm'',
     Node ''wsnt:Message'' [] [
       Node ''tt:Message'' [(''UtcTime'', utc)] [
         Node ''tt:Source'' [] [
           Empty ''tt:SimpleItem'' [(''Name'', ''Source''), (''Value'', ''CSI'')]],
         Node ''tt:Data'' [] [
           Empty ''tt:SimpleItem'' [(''Name'', ''State''),
                  (''Value'', (if active then ''true'' else ''false''))],
           Empty ''tt:SimpleItem'' [(''Name'', ''Score''), (''Value'', show_nat score)]]]]]"

definition pull_messages_doc :: "(string \<times> bool \<times> nat) list \<Rightarrow> string \<Rightarrow> string \<Rightarrow> xml" where
  "pull_messages_doc events now termination =
   Node ''s:Envelope'' [(''xmlns:s'', ''http://www.w3.org/2003/05/soap-envelope'')] [
     Node ''s:Body'' [] [
       Node ''tev:PullMessagesResponse'' [(''xmlns:tev'', ''http://www.onvif.org/ver10/events/wsdl''),
              (''xmlns:wsnt'', ''http://docs.oasis-open.org/wsn/b-2''),
              (''xmlns:tt'', ''http://www.onvif.org/ver10/schema'')] (map (\<lambda>(utc, active, score). pull_event_doc utc active score) events @ [
         Leaf ''tev:CurrentTime'' [] now,
         Leaf ''tev:TerminationTime'' [] termination])]]"

lemma pull_event_render: "render (pull_event_doc utc active score) = pull_event_text utc active score"
  by (simp add: pull_event_doc_def pull_event_text_def)

lemma pull_messages_render:
  "pull_open_text @ concat (map (\<lambda>(utc, active, score). pull_event_text utc active score) events) @
     pull_close_text now termination = render_doc ''UTF-8'' (pull_messages_doc events now termination)"
proof -
  have "render \<circ> (\<lambda>(utc, active, score). pull_event_doc utc active score) =
      (\<lambda>(utc, active, score). pull_event_text utc active score)"
    by (auto simp: fun_eq_iff pull_event_render)
  then show ?thesis
    by (simp add: pull_messages_doc_def render_doc_def pull_open_text_def pull_close_text_def)
qed

lemma pull_event_ok: "CHR 0x22 \<notin> set utc \<Longrightarrow> xml_ok (pull_event_doc utc active score)"
  by (simp add: pull_event_doc_def xml_check)

lemma pull_messages_ok:
  "list_all (\<lambda>(utc, active, score). CHR 0x22 \<notin> set utc) events \<Longrightarrow> text_ok now \<Longrightarrow> text_ok termination \<Longrightarrow>
     xml_ok (pull_messages_doc events now termination)"
  by (auto simp: pull_messages_doc_def xml_check list_all_iff pull_event_ok)

lemma pull_open_length: "length pull_open_text = 278"
  by (simp add: pull_open_text_def)

lemma pull_event_length:
  "length (pull_event_text utc active score) = 400 + length utc + (if active then 4 else 5) + length (show_nat score)"
  by (simp add: pull_event_text_def)

lemma pull_close_length: "length (pull_close_text now termination) = 127 + length now + length termination"
  by (simp add: pull_close_text_def)

section \<open>Static responses\<close>

definition onvif_xml_event_properties :: "nat \<Rightarrow> int \<times> string" where
  "onvif_xml_event_properties n = snprintf n (
     ''<?xml version=\"1.0\" encoding=\"UTF-8\"?>'' @
     ''<s:Envelope'' @
     '' xmlns:s=\"http://www.w3.org/2003/05/soap-envelope\"'' @
     '' xmlns:tev=\"http://www.onvif.org/ver10/events/wsdl\"'' @
     '' xmlns:wsnt=\"http://docs.oasis-open.org/wsn/b-2\">'' @
     ''<s:Body>'' @
     ''<tev:GetEventPropertiesResponse>'' @
     ''<tev:TopicNamespaceLocation>http://www.onvif.org/ver10/topics</tev:TopicNamespaceLocation>'' @
     ''<wsnt:FixedTopicSet>true</wsnt:FixedTopicSet>'' @
     ''<tev:TopicExpressionDialect>http://www.onvif.org/ver10/tev/topicExpression/ConcreteSet</'' @
     ''tev:TopicExpressionDialect>'' @
     ''<tev:MessageContentFilterDialect>http://www.onvif.org/ver10/tev/messageContentFilter/'' @
     ''ItemFilter</tev:MessageContentFilterDialect>'' @
     ''</tev:GetEventPropertiesResponse>'' @
     ''</s:Body>'' @
     ''</s:Envelope>'')"

definition event_properties_doc :: "xml" where
  "event_properties_doc =
   Node ''s:Envelope'' [(''xmlns:s'', ''http://www.w3.org/2003/05/soap-envelope''),
          (''xmlns:tev'', ''http://www.onvif.org/ver10/events/wsdl''),
          (''xmlns:wsnt'', ''http://docs.oasis-open.org/wsn/b-2'')] [
     Node ''s:Body'' [] [
       Node ''tev:GetEventPropertiesResponse'' [] [
         Leaf ''tev:TopicNamespaceLocation'' [] ''http://www.onvif.org/ver10/topics'',
         Leaf ''wsnt:FixedTopicSet'' [] ''true'',
         Leaf ''tev:TopicExpressionDialect'' [] ''http://www.onvif.org/ver10/tev/topicExpression/ConcreteSet'',
         Leaf ''tev:MessageContentFilterDialect'' [] ''http://www.onvif.org/ver10/tev/messageContentFilter/ItemFilter'']]]"

lemma event_properties_renders [rendering]:
  "renders n (onvif_xml_event_properties n) (render_doc ''UTF-8'' (event_properties_doc))"
  by (simp add: onvif_xml_event_properties_def event_properties_doc_def render_doc_def renders_snprintf)

lemma event_properties_length [rendering]:
  "length (render_doc ''UTF-8'' (event_properties_doc)) = 673"
  by (simp add: event_properties_doc_def render_doc_def)

lemma event_properties_ok [rendering]:
  "xml_ok (event_properties_doc)"
  by (simp add: event_properties_doc_def xml_check)

definition onvif_xml_events_service_capabilities :: "nat \<Rightarrow> int \<times> string" where
  "onvif_xml_events_service_capabilities n = snprintf n (
     ''<?xml version=\"1.0\" encoding=\"UTF-8\"?>'' @
     ''<s:Envelope'' @
     '' xmlns:s=\"http://www.w3.org/2003/05/soap-envelope\"'' @
     '' xmlns:tev=\"http://www.onvif.org/ver10/events/wsdl\">'' @
     ''<s:Body>'' @
     ''<tev:GetServiceCapabilitiesResponse>'' @
     ''<tev:Capabilities WSSubscriptionPolicySupport=\"false\" WSPullPointSupport=\"true\" '' @
     ''WSPausableSubscriptionManagerInterfaceSupport=\"false\"/>'' @
     ''</tev:GetServiceCapabilitiesResponse>'' @
     ''</s:Body>'' @
     ''</s:Envelope>'')"

definition events_service_capabilities_doc :: "xml" where
  "events_service_capabilities_doc =
   Node ''s:Envelope'' [(''xmlns:s'', ''http://www.w3.org/2003/05/soap-envelope''),
          (''xmlns:tev'', ''http://www.onvif.org/ver10/events/wsdl'')] [
     Node ''s:Body'' [] [
       Node ''tev:GetServiceCapabilitiesResponse'' [] [
         Empty ''tev:Capabilities'' [(''WSSubscriptionPolicySupport'', ''false''),
                (''WSPullPointSupport'', ''true''),
                (''WSPausableSubscriptionManagerInterfaceSupport'', ''false'')]]]]"

lemma events_service_capabilities_renders [rendering]:
  "renders n (onvif_xml_events_service_capabilities n) (render_doc ''UTF-8'' (events_service_capabilities_doc))"
  by (simp add: onvif_xml_events_service_capabilities_def events_service_capabilities_doc_def render_doc_def renders_snprintf)

lemma events_service_capabilities_length [rendering]:
  "length (render_doc ''UTF-8'' (events_service_capabilities_doc)) = 389"
  by (simp add: events_service_capabilities_doc_def render_doc_def)

lemma events_service_capabilities_ok [rendering]:
  "xml_ok (events_service_capabilities_doc)"
  by (simp add: events_service_capabilities_doc_def xml_check)

definition onvif_xml_events_sync_point_ack :: "nat \<Rightarrow> int \<times> string" where
  "onvif_xml_events_sync_point_ack n = snprintf n (
     ''<?xml version=\"1.0\" encoding=\"UTF-8\"?>'' @
     ''<s:Envelope'' @
     '' xmlns:s=\"http://www.w3.org/2003/05/soap-envelope\"'' @
     '' xmlns:tev=\"http://www.onvif.org/ver10/events/wsdl\">'' @
     ''<s:Body>'' @
     ''<tev:SetSynchronizationPointResponse/>'' @
     ''</s:Body>'' @
     ''</s:Envelope>'')"

definition events_sync_point_ack_doc :: "xml" where
  "events_sync_point_ack_doc =
   Node ''s:Envelope'' [(''xmlns:s'', ''http://www.w3.org/2003/05/soap-envelope''),
          (''xmlns:tev'', ''http://www.onvif.org/ver10/events/wsdl'')] [
     Node ''s:Body'' [] [
       Empty ''tev:SetSynchronizationPointResponse'' []]]"

lemma events_sync_point_ack_renders [rendering]:
  "renders n (onvif_xml_events_sync_point_ack n) (render_doc ''UTF-8'' (events_sync_point_ack_doc))"
  by (simp add: onvif_xml_events_sync_point_ack_def events_sync_point_ack_doc_def render_doc_def renders_snprintf)

lemma events_sync_point_ack_length [rendering]:
  "length (render_doc ''UTF-8'' (events_sync_point_ack_doc)) = 219"
  by (simp add: events_sync_point_ack_doc_def render_doc_def)

lemma events_sync_point_ack_ok [rendering]:
  "xml_ok (events_sync_point_ack_doc)"
  by (simp add: events_sync_point_ack_doc_def xml_check)

end
