(* ===== verification/Soap_Messages.thy ===== *)
theory Soap_Messages
  imports Soap_Device Soap_Media Soap_Events
begin

text \<open>
  What the response builders of \<open>core/onvif_xml.c\<close> promise together: every message that is reported
  to fit its buffer is read back as its document, and every document declares its namespaces.
\<close>

lemma utf8_plain: "CHR 0x22 \<notin> set ''utf-8''" "CHR 0x22 \<notin> set ''UTF-8''"
  by simp_all

text \<open>All single-document builders, for the handlers.\<close>

lemmas builders_render =
  system_date_and_time_renders device_information_renders capabilities_renders services_renders
  get_scopes_renders device_service_capabilities_renders set_ntp_response_renders
  system_reboot_renders set_system_date_and_time_ack_renders fault_action_not_supported_renders
  fault_invalid_renders fault_not_authorized_renders profiles_renders stream_uri_renders
  snapshot_uri_renders video_sources_renders video_encoder_configurations_renders
  video_encoder_configuration_renders video_encoder_configuration_options_renders
  set_video_encoder_configuration_ack_renders guaranteed_encoder_instances_renders
  set_synchronization_point_ack_renders media_service_capabilities_renders
  media2_profiles_renders media2_stream_uri_renders media2_sync_point_ack_renders
  create_pull_point_response_renders renew_response_renders events_fault_renders
  event_properties_renders events_service_capabilities_renders events_sync_point_ack_renders

lemmas deliver = renders_delivers [OF _ _ utf8_plain(1)]
lemmas deliver_events = renders_delivers [OF _ _ utf8_plain(2)]

lemma pull_event_ns: "ns_ok [''tev'', ''wsnt'', ''tt'', ''s''] (pull_event_doc utc active score)"
  by (simp add: pull_event_doc_def prefix_of_def declared_def)

text \<open>In every response document each element's namespace prefix is declared on the element itself
  or on one around it.\<close>

lemma documents_ns_ok:
  "ns_ok [] (system_date_and_time_doc utc ntp zone) \<and> ns_ok [] (device_information_doc m1 m2 m3 m4 m5) \<and>
   ns_ok [] (capabilities_doc ip port ev) \<and> ns_ok [] (services_doc ip port ev) \<and>
   ns_ok [] (get_scopes_doc scopes) \<and> ns_ok [] device_service_capabilities_doc \<and>
   ns_ok [] set_ntp_response_doc \<and> ns_ok [] system_reboot_doc \<and> ns_ok [] set_system_date_and_time_ack_doc \<and>
   ns_ok [] fault_action_not_supported_doc \<and> ns_ok [] (fault_invalid_doc sub rsn) \<and>
   ns_ok [] fault_not_authorized_doc \<and> ns_ok [] (profiles_doc fps) \<and> ns_ok [] (stream_uri_doc uri) \<and>
   ns_ok [] (snapshot_uri_doc uri) \<and> ns_ok [] (video_sources_doc tok w h fps) \<and>
   ns_ok [] (video_encoder_configurations_doc tok w h fps kbps) \<and>
   ns_ok [] (video_encoder_configuration_doc tok w h fps kbps) \<and>
   ns_ok [] (video_encoder_configuration_options_doc w h fps) \<and> ns_ok [] (media2_profiles_doc fps) \<and>
   ns_ok [] (media2_stream_uri_doc uri) \<and> ns_ok [] (create_pull_point_response_doc ip port now term) \<and>
   ns_ok [] (renew_response_doc term) \<and> ns_ok [] unsubscribe_response_doc \<and>
   ns_ok [] (events_fault_doc sc txt) \<and> ns_ok [] (pull_messages_doc evs now term) \<and>
   ns_ok [] event_properties_doc \<and> ns_ok [] events_service_capabilities_doc \<and>
   ns_ok [] events_sync_point_ack_doc \<and> ns_ok [] set_video_encoder_configuration_ack_doc \<and>
   ns_ok [] guaranteed_encoder_instances_doc \<and> ns_ok [] set_synchronization_point_ack_doc \<and>
   ns_ok [] media_service_capabilities_doc \<and> ns_ok [] media2_sync_point_ack_doc"
  by (intro conjI)
    (simp_all add: system_date_and_time_doc_def device_information_doc_def capabilities_doc_def services_doc_def
      service_entry_def get_scopes_doc_def scope_item_doc_def device_service_capabilities_doc_def
      set_ntp_response_doc_def system_reboot_doc_def set_system_date_and_time_ack_doc_def
      fault_action_not_supported_doc_def fault_invalid_doc_def fault_not_authorized_doc_def profiles_doc_def
      stream_uri_doc_def snapshot_uri_doc_def video_sources_doc_def video_encoder_configurations_doc_def
      video_encoder_configuration_doc_def encoder_configuration_doc_def video_encoder_configuration_options_doc_def
      media2_profiles_doc_def media2_stream_uri_doc_def create_pull_point_response_doc_def renew_response_doc_def
      unsubscribe_response_doc_def events_fault_doc_def pull_messages_doc_def pull_event_ns
      event_properties_doc_def events_service_capabilities_doc_def
      events_sync_point_ack_doc_def set_video_encoder_configuration_ack_doc_def
      guaranteed_encoder_instances_doc_def set_synchronization_point_ack_doc_def
      media_service_capabilities_doc_def media2_sync_point_ack_doc_def
      prefix_of_def declared_def list_all_iff split: list.split prod.split)

section \<open>Properties\<close>

text \<open>
  C18: Every device service response and fault is the document it promises: whatever the buffer
  size, a result below the size means that the buffer holds a text which the reference reader
  reads as exactly that document, provided the configured texts contain no \<open><\<close>; and every
  element's namespace prefix is declared on the element itself or around it.
\<close>

theorem device_responses_delivered:
  assumes "text_ok manufacturer" "text_ok model" "text_ok firmware" "text_ok serial" "text_ok hardware_id"
    and "text_ok ip" "pred_option text_ok zone" "pred_option text_ok scopes"
    and "pred_option text_ok subcode" "pred_option text_ok reason"
  shows "delivers n (onvif_xml_system_date_and_time n utc ntp zone) (system_date_and_time_doc utc ntp zone) \<and>
    delivers n (onvif_xml_device_information n manufacturer model firmware serial hardware_id)
      (device_information_doc manufacturer model firmware serial hardware_id) \<and>
    delivers n (onvif_xml_capabilities n ip port events) (capabilities_doc ip port events) \<and>
    delivers n (onvif_xml_services n ip port events) (services_doc ip port events) \<and>
    delivers n (onvif_xml_get_scopes n scopes) (get_scopes_doc scopes) \<and>
    delivers n (onvif_xml_device_service_capabilities n) device_service_capabilities_doc \<and>
    delivers n (onvif_xml_set_ntp_response n) set_ntp_response_doc \<and>
    delivers n (onvif_xml_system_reboot n) system_reboot_doc \<and>
    delivers n (onvif_xml_set_system_date_and_time_ack n) set_system_date_and_time_ack_doc \<and>
    delivers n (onvif_xml_fault_action_not_supported n) fault_action_not_supported_doc \<and>
    delivers n (onvif_xml_fault_invalid n subcode reason) (fault_invalid_doc subcode reason) \<and>
    delivers n (onvif_xml_fault_not_authorized n) fault_not_authorized_doc"
  using assms by (intro conjI deliver) (simp_all add: rendering documents_ns_ok)

theorem device_responses_delivered_witness:
  "delivers 4096 (onvif_xml_services 4096 ''10.0.0.2'' 80 True) (services_doc ''10.0.0.2'' 80 True) \<and>
     delivers 40 (onvif_xml_get_scopes 40 (Some '' a  b '')) (get_scopes_doc (Some '' a  b ''))"
  using device_responses_delivered [of "''M''" "''C''" "''1''" "''0042''" "''E''" "''10.0.0.2''" None
      "Some '' a  b ''" None None 4096 undefined False 80 True]
    device_responses_delivered [of "''M''" "''C''" "''1''" "''0042''" "''E''" "''10.0.0.2''" None
      "Some '' a  b ''" None None 40 undefined False 80 True]
  by simp

text \<open>
  C19: Every media and media2 response is the document it promises, in the same sense; the token of
  a video source or encoder is an attribute value and must contain no quote.
\<close>

theorem media_responses_delivered:
  assumes "text_ok uri" and "CHR 0x22 \<notin> set token"
  shows "delivers n (onvif_xml_profiles n fps) (profiles_doc fps) \<and>
    delivers n (onvif_xml_stream_uri n uri) (stream_uri_doc uri) \<and>
    delivers n (onvif_xml_snapshot_uri n uri) (snapshot_uri_doc uri) \<and>
    delivers n (onvif_xml_video_sources n token w h fps) (video_sources_doc token w h fps) \<and>
    delivers n (onvif_xml_video_encoder_configurations n token w h fps kbps)
      (video_encoder_configurations_doc token w h fps kbps) \<and>
    delivers n (onvif_xml_video_encoder_configuration n token w h fps kbps)
      (video_encoder_configuration_doc token w h fps kbps) \<and>
    delivers n (onvif_xml_video_encoder_configuration_options n w h fps)
      (video_encoder_configuration_options_doc w h fps) \<and>
    delivers n (onvif_xml_set_video_encoder_configuration_ack n) set_video_encoder_configuration_ack_doc \<and>
    delivers n (onvif_xml_guaranteed_encoder_instances n) guaranteed_encoder_instances_doc \<and>
    delivers n (onvif_xml_set_synchronization_point_ack n) set_synchronization_point_ack_doc \<and>
    delivers n (onvif_xml_media_service_capabilities n) media_service_capabilities_doc \<and>
    delivers n (onvif_xml_media2_profiles n fps) (media2_profiles_doc fps) \<and>
    delivers n (onvif_xml_media2_stream_uri n uri) (media2_stream_uri_doc uri) \<and>
    delivers n (onvif_xml_media2_sync_point_ack n) media2_sync_point_ack_doc"
  using assms by (intro conjI deliver) (simp_all add: rendering documents_ns_ok)

theorem media_responses_delivered_witness:
  "delivers 4096 (onvif_xml_stream_uri 4096 ''rtsp://10.0.0.2:554/live'') (stream_uri_doc ''rtsp://10.0.0.2:554/live'')"
  using media_responses_delivered [of "''rtsp://10.0.0.2:554/live''" "''VideoSource_1''" 4096] by simp

text \<open>
  C20: The events service: each single-call response is the document it promises, and the three
  parts of a \<open>PullMessages\<close> response, put together around any list of events, are the text of one
  well-formed document that carries the events in order and then the two times.
\<close>

theorem events_responses_delivered:
  assumes "text_ok ip" "text_ok now" "text_ok term" "text_ok subcode" "text_ok reason"
    and "list_all (\<lambda>(utc, active, score). CHR 0x22 \<notin> set utc) events"
  shows "delivers n (onvif_xml_create_pull_point_response n ip port now term)
      (create_pull_point_response_doc ip port now term) \<and>
    delivers n (onvif_xml_renew_response n term) (renew_response_doc term) \<and>
    delivers n (onvif_xml_events_fault n subcode reason) (events_fault_doc subcode reason) \<and>
    delivers n (onvif_xml_event_properties n) event_properties_doc \<and>
    delivers n (onvif_xml_events_service_capabilities n) events_service_capabilities_doc \<and>
    delivers n (onvif_xml_events_sync_point_ack n) events_sync_point_ack_doc \<and>
    read_doc onvif_xml_unsubscribe_response = Some unsubscribe_response_doc \<and>
    read_doc (pull_open_text @ concat (map (\<lambda>(utc, active, score). pull_event_text utc active score) events) @
      pull_close_text now term) = Some (pull_messages_doc events now term)"
proof -
  have "delivers n (onvif_xml_create_pull_point_response n ip port now term)
      (create_pull_point_response_doc ip port now term) \<and>
    delivers n (onvif_xml_renew_response n term) (renew_response_doc term) \<and>
    delivers n (onvif_xml_events_fault n subcode reason) (events_fault_doc subcode reason) \<and>
    delivers n (onvif_xml_event_properties n) event_properties_doc \<and>
    delivers n (onvif_xml_events_service_capabilities n) events_service_capabilities_doc \<and>
    delivers n (onvif_xml_events_sync_point_ack n) events_sync_point_ack_doc"
    using assms by (intro conjI deliver_events) (simp_all add: rendering documents_ns_ok)
  moreover have "read_doc onvif_xml_unsubscribe_response = Some unsubscribe_response_doc"
    unfolding unsubscribe_response_render by (rule read_render_doc [OF unsubscribe_response_ok utf8_plain(2)])
  moreover have "read_doc (pull_open_text @
      concat (map (\<lambda>(utc, active, score). pull_event_text utc active score) events) @ pull_close_text now term) =
      Some (pull_messages_doc events now term)"
    unfolding pull_messages_render by (rule read_render_doc [OF pull_messages_ok utf8_plain(2)]) (use assms in auto)
  ultimately show ?thesis by blast
qed

theorem events_responses_delivered_witness:
  "read_doc (pull_open_text @ pull_event_text ''2026-09-20T07:42:13Z'' True 87 @ pull_close_text ''now'' ''then'') =
     Some (pull_messages_doc [(''2026-09-20T07:42:13Z'', True, 87)] ''now'' ''then'')"
  using events_responses_delivered [of "''10.0.0.2''" "''now''" "''then''" "''s''" "''r''"
      "[(''2026-09-20T07:42:13Z'', True, 87)]"] by simp

end
