(* ===== verification/Base64.thy ===== *)
theory Base64
  imports Onvif_Prelude
begin

text \<open>
  \<open>onvif_base64_decode\<close> and \<open>onvif_base64_encode\<close> of \<open>core/onvif_wsse.c\<close>.  The result
  \<open>None\<close> is the return value -1; \<open>Some out\<close> is the bytes (characters) written, whose number
  is the value returned.  The decoder's loop also has what it stored before it gave up.  Inputs are
  shorter than \<open>2 ^ 31\<close> bytes, so that \<open>int rem\<close> in the encoder is the number of bytes left.
\<close>

unbundle bit_operations_syntax

section \<open>The code\<close>

definition b64_val :: "char \<Rightarrow> int" where
  "b64_val c =
     (let n = int (of_char c) in
      if 65 \<le> n \<and> n \<le> 90 then n - 65
      else if 97 \<le> n \<and> n \<le> 122 then n - 97 + 26
      else if 48 \<le> n \<and> n \<le> 57 then n - 48 + 52
      else if c = CHR ''+'' then 62
      else if c = CHR ''/'' then 63
      else - 1)"

definition b64_skip :: "char \<Rightarrow> bool" where
  "b64_skip c = (c = CHR ''='' \<or> c = CHR 0x0D \<or> c = CHR 0x0A \<or> c = CHR '' '')"

text \<open>One pass over the input; \<open>acc\<close> and \<open>bits\<close> are the loop's variables, \<open>out\<close> what has been stored
  from the start of the output buffer on.  The flag is False for the return value -1.\<close>

fun b64_dec_loop :: "string \<Rightarrow> nat \<Rightarrow> u32 \<Rightarrow> nat \<Rightarrow> byte list \<Rightarrow> bool \<times> byte list" where
  "b64_dec_loop [] out_size acc bits out = (True, out)"
| "b64_dec_loop (c # cs) out_size acc bits out =
     (if b64_skip c then b64_dec_loop cs out_size acc bits out
      else if b64_val c < 0 then (False, out)
      else
        (let acc = push_bit 6 acc OR word_of_int (b64_val c); bits = bits + 6 in
         if 8 \<le> bits then
           (let bits = bits - 8 in
            if out_size \<le> length out then (False, out)
            else b64_dec_loop cs out_size acc bits (out @ [ucast (drop_bit bits acc)]))
         else b64_dec_loop cs out_size acc bits out))"

definition onvif_base64_decode :: "string \<Rightarrow> nat \<Rightarrow> byte list option" where
  "onvif_base64_decode inp out_size =
     (let (ok, out) = b64_dec_loop inp out_size 0 0 [] in if ok then Some out else None)"

definition b64_tbl :: string where
  "b64_tbl = ''ABCDEFGHIJKLMNOPQRSTUVWXYZabcdefghijklmnopqrstuvwxyz0123456789+/''"

definition b64_char :: "u32 \<Rightarrow> nat \<Rightarrow> char" where
  "b64_char v k = b64_tbl ! unat (drop_bit k v AND 63)"

text \<open>The three cases of the loop body: three or more bytes left, two, one.\<close>

fun b64_enc_loop :: "byte list \<Rightarrow> nat \<Rightarrow> string \<Rightarrow> string option" where
  "b64_enc_loop [] out_size out = (if out_size \<le> length out then None else Some out)"
| "b64_enc_loop [a] out_size out =
     (if out_size \<le> length out + 5 then None
      else (let v = push_bit 16 (ucast a) in
            b64_enc_loop [] out_size
              (out @ [b64_char v 18, b64_char v 12, CHR ''='', CHR ''=''])))"
| "b64_enc_loop [a, b] out_size out =
     (if out_size \<le> length out + 5 then None
      else (let v = push_bit 16 (ucast a) OR push_bit 8 (ucast b) in
            b64_enc_loop [] out_size
              (out @ [b64_char v 18, b64_char v 12, b64_char v 6, CHR ''=''])))"
| "b64_enc_loop (a # b # c # bs) out_size out =
     (if out_size \<le> length out + 5 then None
      else (let v = push_bit 16 (ucast a) OR push_bit 8 (ucast b) OR ucast c in
            b64_enc_loop bs out_size
              (out @ [b64_char v 18, b64_char v 12, b64_char v 6, b64_char v 0])))"

definition onvif_base64_encode :: "byte list \<Rightarrow> nat \<Rightarrow> string option" where
  "onvif_base64_encode inp out_size = b64_enc_loop inp out_size []"


section \<open>The alphabet\<close>

lemma b64_tbl_length: "length b64_tbl = 64"
  by (simp add: b64_tbl_def)

lemma b64_tbl_vals: "map b64_val b64_tbl = map int [0..<64]"
  by (simp add: b64_tbl_def b64_val_def upt_conv_Cons)

lemma b64_tbl_no_skip: "list_all (\<lambda>c. \<not> b64_skip c) b64_tbl"
  by (simp add: b64_tbl_def b64_skip_def)

lemma b64_tbl_val: "n < 64 \<Longrightarrow> b64_val (b64_tbl ! n) = int n \<and> \<not> b64_skip (b64_tbl ! n)"
proof -
  assume "n < 64"
  then have "map b64_val b64_tbl ! n = map int [0..<64] ! n" by (simp only: b64_tbl_vals)
  with \<open>n < 64\<close> b64_tbl_no_skip show ?thesis
    by (simp add: b64_tbl_length list_all_length)
qed

lemma unat_and_63: "unat (x AND 63 :: u32) < 64"
proof -
  have "x AND 63 \<le> 63" by (rule word_and_le1)
  then show ?thesis by (simp add: word_le_nat_alt)
qed

lemma b64_char_val:
  "b64_val (b64_char v k) = int (unat (drop_bit k v AND 63))" "\<not> b64_skip (b64_char v k)"
  using b64_tbl_val [OF unat_and_63] by (simp_all add: b64_char_def)

lemma b64_dec_pad: "b64_dec_loop (CHR ''='' # cs) sz acc bits out = b64_dec_loop cs sz acc bits out"
  by (simp add: b64_skip_def)

declare b64_dec_loop.simps(2) [simp del]


section \<open>Round trip\<close>

lemma byte_bit_less: "bit (x :: byte) n \<Longrightarrow> n < 8"
  using bit_imp_le_length by fastforce

text \<open>The accumulator after one more sextet of \<open>v\<close>.\<close>

definition b64_acc :: "u32 \<Rightarrow> u32 \<Rightarrow> nat \<Rightarrow> u32" where
  "b64_acc acc v k = push_bit 6 acc OR (drop_bit k v AND 63)"

lemma word_63: "(63 :: u32) = mask 6"
  by (simp add: mask_eq_exp_minus_1)

lemma bit_b64_acc:
  "bit (b64_acc acc v k) n \<longleftrightarrow> n < 32 \<and> (if n < 6 then bit v (k + n) else bit acc (n - 6))"
  unfolding b64_acc_def word_63
  by (auto simp: bit_or_iff bit_and_iff bit_mask_iff bit_push_bit_iff bit_drop_bit_eq dest: bit_imp_le_length)

lemma bit_b64_out: "bit (ucast (drop_bit k (v :: u32)) :: byte) n \<longleftrightarrow> n < 8 \<and> bit v (k + n)"
  by (auto simp: bit_simps)

lemma b64_out:
  fixes a :: byte and v acc :: u32
  assumes v: "\<And>n. n < 8 \<Longrightarrow> bit v (n + k + s) = bit a n" and "s \<le> 4"
  shows "ucast (drop_bit s (b64_acc (b64_acc acc v (k + 6)) v k)) = a"
proof (rule bit_word_eqI)
  fix n assume "n < LENGTH(8)"
  then have n: "n < 8" by simp
  have *: "\<not> s + n < 6 \<Longrightarrow> s + n - 6 < 6 \<and> k + 6 + (s + n - 6) = n + k + s"
    using n \<open>s \<le> 4\<close> by simp
  show "bit (ucast (drop_bit s (b64_acc (b64_acc acc v (k + 6)) v k)) :: byte) n = bit a n"
    using n \<open>s \<le> 4\<close> * v [OF n] by (auto simp: bit_b64_out bit_b64_acc add.commute add.left_commute)
qed

lemma b64_dec_step:
  "b64_dec_loop (b64_char v k # cs) sz acc bits out =
     (let acc = b64_acc acc v k; bits = bits + 6 in
      if 8 \<le> bits then
        (if sz \<le> length out then (False, out)
         else b64_dec_loop cs sz acc (bits - 8) (out @ [ucast (drop_bit (bits - 8) acc)]))
      else b64_dec_loop cs sz acc bits out)"
  by (simp add: b64_char_val Let_def b64_acc_def b64_dec_loop.simps(2))

lemma b64_dec2:
  assumes "\<And>n. n < 8 \<Longrightarrow> bit v (n + 16) = bit a n"
  shows "b64_dec_loop (b64_char v 18 # b64_char v 12 # cs) sz acc 0 out =
    (if sz \<le> length out then (False, out)
     else b64_dec_loop cs sz (b64_acc (b64_acc acc v 18) v 12) 4 (out @ [a]))"
  using b64_out [of v 12 4 a acc] assms by (simp add: b64_dec_step Let_def add.commute)

lemma b64_dec1:
  assumes "\<And>n. n < 8 \<Longrightarrow> bit v (n + 8) = bit b n"
  shows "b64_dec_loop (b64_char v 6 # cs) sz (b64_acc acc v 12) 4 out =
    (if sz \<le> length out then (False, out)
     else b64_dec_loop cs sz (b64_acc (b64_acc acc v 12) v 6) 2 (out @ [b]))"
  using b64_out [of v 6 2 b acc] assms by (simp add: b64_dec_step Let_def add.commute)

lemma b64_dec0:
  assumes "\<And>n. n < 8 \<Longrightarrow> bit v n = bit c n"
  shows "b64_dec_loop (b64_char v 0 # cs) sz (b64_acc acc v 6) 2 out =
    (if sz \<le> length out then (False, out)
     else b64_dec_loop cs sz (b64_acc (b64_acc acc v 6) v 0) 0 (out @ [c]))"
  using b64_out [of v 0 0 c acc] assms by (simp add: b64_dec_step Let_def add.commute)


text \<open>What the encoder writes, as a function of the bytes alone.\<close>

fun b64_text :: "byte list \<Rightarrow> string" where
  "b64_text [] = []"
| "b64_text [a] =
     (let v = push_bit 16 (ucast a) in [b64_char v 18, b64_char v 12, CHR ''='', CHR ''=''])"
| "b64_text [a, b] =
     (let v = push_bit 16 (ucast a) OR push_bit 8 (ucast b)
      in [b64_char v 18, b64_char v 12, b64_char v 6, CHR ''=''])"
| "b64_text (a # b # c # bs) =
     (let v = push_bit 16 (ucast a) OR push_bit 8 (ucast b) OR ucast c
      in [b64_char v 18, b64_char v 12, b64_char v 6, b64_char v 0] @ b64_text bs)"

lemma groups_step: "(5 + n) div 3 = Suc (Suc (Suc n) div 3)" for n :: nat
  using div_add_self2 [of 3 "Suc (Suc n)"] by (simp add: add.commute)

lemma b64_text_length: "length (b64_text bs) = 4 * ((length bs + 2) div 3)"
  by (induction bs rule: b64_text.induct) (simp_all add: Let_def groups_step)

lemma b64_text_no_nul: "list_all (\<lambda>c. c \<noteq> NUL) (b64_text bs)"
proof -
  have "list_all (\<lambda>c. c \<noteq> NUL) b64_tbl" by (simp add: b64_tbl_def)
  then have "b64_char v k \<noteq> NUL" for v k
    using unat_and_63 [of "drop_bit k v"] by (auto simp: b64_char_def list_all_length b64_tbl_length)
  then show ?thesis by (induction bs rule: b64_text.induct) (simp_all add: Let_def)
qed

lemma b64_enc_loop_eq:
  "b64_enc_loop bs sz out =
     (if bs = [] \<and> length out < sz \<or> bs \<noteq> [] \<and> length out + 4 * ((length bs + 2) div 3) + 1 < sz
      then Some (out @ b64_text bs) else None)"
  by (induction bs sz out rule: b64_enc_loop.induct) (auto simp: Let_def groups_step)

lemma b64_vbits:
  fixes a b c :: byte
  assumes "n < 8"
  shows "bit (push_bit 16 (ucast a) :: u32) (n + 16) = bit a n"
    and "bit (push_bit 16 (ucast a) OR push_bit 8 (ucast b) :: u32) (n + 16) = bit a n"
    and "bit (push_bit 16 (ucast a) OR push_bit 8 (ucast b) :: u32) (n + 8) = bit b n"
    and "bit (push_bit 16 (ucast a) OR push_bit 8 (ucast b) OR ucast c :: u32) (n + 16) = bit a n"
    and "bit (push_bit 16 (ucast a) OR push_bit 8 (ucast b) OR ucast c :: u32) (n + 8) = bit b n"
    and "bit (push_bit 16 (ucast a) OR push_bit 8 (ucast b) OR ucast c :: u32) n = bit c n"
  using assms by (auto simp: bit_simps dest: byte_bit_less)

lemma b64_dec_text:
  "b64_dec_loop (b64_text bs) sz acc 0 out =
     (if length out + length bs \<le> sz \<or> bs = [] then (True, out @ bs) else (False, out @ take (sz - length out) bs))"
proof (induction bs arbitrary: acc out rule: b64_text.induct)
  case (4 a b c bs)
  then show ?case
    by (auto simp: Let_def b64_dec2 [OF b64_vbits(4)] b64_dec1 [OF b64_vbits(5)] b64_dec0 [OF b64_vbits(6)] take_Cons')
qed (auto simp: Let_def b64_dec2 [OF b64_vbits(1)] b64_dec2 [OF b64_vbits(2)] b64_dec1 [OF b64_vbits(3)] b64_dec_pad take_Cons')


section \<open>Facts for the clients\<close>

lemma onvif_base64_encode_eq:
  "onvif_base64_encode bs sz =
     (if bs = [] \<and> 0 < sz \<or> bs \<noteq> [] \<and> 4 * ((length bs + 2) div 3) + 1 < sz
      then Some (b64_text bs) else None)"
  by (simp add: onvif_base64_encode_def b64_enc_loop_eq)

lemma onvif_base64_decode_text:
  "onvif_base64_decode (b64_text bs) sz = (if length bs \<le> sz \<or> bs = [] then Some bs else None)"
  by (simp add: onvif_base64_decode_def b64_dec_text)

lemma b64_dec_loop_bound: "length out \<le> sz \<Longrightarrow> length (snd (b64_dec_loop cs sz acc bits out)) \<le> sz"
  by (induction cs sz acc bits out rule: b64_dec_loop.induct) (auto simp: b64_dec_loop.simps(2) Let_def)

lemma onvif_base64_decode_bound: "onvif_base64_decode s sz = Some r \<Longrightarrow> length r \<le> sz"
  using b64_dec_loop_bound [of "[]" sz s 0 0] by (auto simp: onvif_base64_decode_def split: prod.splits if_splits)


section \<open>Properties\<close>

text \<open>
  C26: What \<open>onvif_base64_encode\<close> writes, \<open>onvif_base64_decode\<close> reads back: for every byte
  string, whenever the encoder's buffer was large enough and the decoder's buffer holds the
  bytes, decoding the encoded text returns exactly the bytes that were encoded.
\<close>

theorem base64_roundtrip:
  assumes "onvif_base64_encode bs n = Some s" and "length bs \<le> m"
  shows "onvif_base64_decode s m = Some bs"
  using assms onvif_base64_decode_text [of bs m]
  by (simp add: onvif_base64_encode_eq split: if_splits)

theorem base64_roundtrip_witness:
  "onvif_base64_encode [0x4D, 0x61] 32 = Some ''TWE='' \<and> onvif_base64_decode ''TWE='' 2 = Some [0x4D, 0x61]"
proof -
  have e: "onvif_base64_encode [0x4D, 0x61] 32 = Some ''TWE=''"
    by (simp add: onvif_base64_encode_eq Let_def b64_char_def b64_tbl_def)
  show ?thesis using e base64_roundtrip [OF e, of 2] by simp
qed

text \<open>
  The encoder succeeds exactly when the text, its NUL and one further byte fit, and then
  writes four characters per started group of three bytes, none of them a NUL; for a 20-byte
  digest and the 32-byte buffer of \<open>onvif_wsse_verify\<close> it always succeeds.
\<close>

theorem base64_encode_capacity:
  "onvif_base64_encode bs n =
     (if (if bs = [] then 0 < n else 4 * ((length bs + 2) div 3) + 1 < n)
      then Some (b64_text bs) else None)
   \<and> length (b64_text bs) = 4 * ((length bs + 2) div 3) \<and> c_str (b64_text bs) = b64_text bs"
  using b64_text_no_nul [of bs]
  by (auto simp: onvif_base64_encode_eq b64_text_length c_str_def list_all_iff takeWhile_eq_all_conv)

text \<open>
  C27: The decoder never stores past its output buffer, whether it succeeds or gives up on the way:
  for every input, what it has stored when it returns is at most \<open>out_size\<close> bytes from the start of the
  buffer, and a successful result is exactly what was stored.
\<close>

theorem base64_decode_in_bounds:
  "length (snd (b64_dec_loop s n 0 0 [])) \<le> n \<and>
   (\<forall>out. onvif_base64_decode s n = Some out \<longrightarrow> snd (b64_dec_loop s n 0 0 []) = out)"
  using b64_dec_loop_bound [of "[]" n s 0 0]
  by (auto simp: onvif_base64_decode_def split: prod.splits if_splits)

theorem base64_decode_in_bounds_witness:
  "b64_dec_loop ''T W E='' 2 0 0 [] = (True, [0x4D, 0x61]) \<and> length (snd (b64_dec_loop ''TWE='' 1 0 0 [])) \<le> 1 \<and>
     \<not> fst (b64_dec_loop ''TWE='' 1 0 0 [])"
proof -
  have "b64_dec_loop ''T W E='' 2 0 0 [] = (True, [0x4D, 0x61])" "\<not> fst (b64_dec_loop ''TWE='' 1 0 0 [])"
    by (simp_all add: b64_dec_loop.simps(2) b64_skip_def b64_val_def Let_def)
  with base64_decode_in_bounds [of "''TWE=''" 1] show ?thesis by simp
qed

end
