(* ===== verification/Replay_Interface.thy ===== *)
theory Replay_Interface
  imports Main
begin

text \<open>
  The contract between a verifier and the memory it keeps of what it has accepted: the memory
  answers exactly for the \<open>cap\<close> most recently stored keys.  \<open>rel c hs\<close> relates a concrete memory
  to the whole history \<open>hs\<close>, newest first.
\<close>

locale recent_memory =
  fixes empty :: 'c
    and seen :: "'c \<Rightarrow> 'k \<Rightarrow> bool"
    and store :: "'c \<Rightarrow> 'k \<Rightarrow> 'a \<Rightarrow> 'c"
    and key :: "'k \<Rightarrow> bool"
    and rel :: "'c \<Rightarrow> 'k list \<Rightarrow> bool"
    and cap :: nat
  assumes rel_empty: "rel empty []"
    and rel_seen: "rel c hs \<Longrightarrow> key k \<Longrightarrow> seen c k \<longleftrightarrow> k \<in> set (take cap hs)"
    and rel_store: "rel c hs \<Longrightarrow> key k \<Longrightarrow> rel (store c k a) (k # hs)"
    and cap_pos: "0 < cap"
begin

text \<open>Storing a batch of keys, oldest first.\<close>

lemma rel_store_all:
  "rel c hs \<Longrightarrow> list_all key ks \<Longrightarrow> rel (fold (\<lambda>k c. store c k a) ks c) (rev ks @ hs)"
  by (induction ks arbitrary: c hs) (auto dest: rel_store)

lemma just_stored_seen: "rel c hs \<Longrightarrow> key k \<Longrightarrow> seen (store c k a) k"
  using rel_seen [OF rel_store] cap_pos by (cases cap) auto

text \<open>A key stays remembered while fewer than \<open>cap\<close> keys have been stored after it.\<close>

lemma still_seen:
  assumes "rel c hs" and "key k" and "list_all key ks" and "length ks < cap"
  shows "seen (fold (\<lambda>k c. store c k a) ks (store c k b)) k"
proof -
  from rel_store_all [OF rel_store [OF assms(1,2)] assms(3)]
  have "rel (fold (\<lambda>k c. store c k a) ks (store c k b)) (rev ks @ k # hs)" .
  moreover obtain d where "cap = length ks + Suc d"
    using assms(4) by (metis add_Suc_right less_imp_Suc_add)
  ultimately show ?thesis using assms(2) by (simp add: rel_seen)
qed

text \<open>And it is forgotten after \<open>cap\<close> different ones.\<close>

lemma forgotten:
  assumes "rel c hs" and "key k" and "list_all key ks" and "length ks = cap" and "k \<notin> set ks"
  shows "\<not> seen (fold (\<lambda>k c. store c k a) ks c) k"
  using rel_store_all [OF assms(1,3), of a] assms(2,4,5) by (simp add: rel_seen)

end

end
