(* ===== verification/Wsse.thy ===== *)
theory Wsse
  imports Sha1 Base64 Calendar Replay_Interface
begin

text \<open>
  \<open>core/onvif_wsse.c\<close>: extraction of the token's fields from the raw envelope, the nonce cache,
  and \<open>onvif_wsse_verify\<close>.
\<close>

unbundle bit_operations_syntax

section \<open>Envelope fields\<close>

definition name_char :: "char \<Rightarrow> bool" where
  "name_char c \<longleftrightarrow> c \<noteq> CHR ''>'' \<and> c \<noteq> CHR '' '' \<and> c \<noteq> CHR ''/''"

text \<open>The local part of a tag name, as the code cuts it: only a prefix that leaves exactly the
  length of the tag after the colon is removed.\<close>

definition local_part :: "string \<Rightarrow> nat \<Rightarrow> string" where
  "local_part name tag_len =
     (if tag_len + 1 < length name \<and> name ! (length name - tag_len - 1) = CHR '':''
      then drop (length name - tag_len) name else name)"

text \<open>What follows a matching tag name: \<open>before\<close> is everything from the \<open><\<close> to \<open>end\<close>, so that
  the character before the closing bracket (\<open>gt[-1]\<close> in the code) is known.\<close>

definition element_content :: "string \<Rightarrow> string \<Rightarrow> nat \<Rightarrow> string option" where
  "element_content before rest n =
     (case strchr rest (CHR ''>'') of
        None \<Rightarrow> None
      | Some gt \<Rightarrow>
          if last (before @ takeWhile (\<lambda>c. c \<noteq> CHR ''>'') rest) = CHR ''/'' then None
          else (let text = tl gt in
            case strchr text (CHR ''<'') of
              None \<Rightarrow> None
            | Some _ \<Rightarrow> Some (take (n - 1) (takeWhile (\<lambda>c. c \<noteq> CHR ''<'') text))))"

function element_text :: "string \<Rightarrow> string \<Rightarrow> nat \<Rightarrow> string option" where
  "element_text p tag n =
     (case strchr p (CHR ''<'') of
        None \<Rightarrow> None
      | Some q \<Rightarrow>
          (let name = takeWhile name_char (tl q); rest = dropWhile name_char (tl q) in
           if length (local_part name (length tag)) = length tag \<and> local_part name (length tag) = tag
           then element_content (CHR ''<'' # name) rest n
           else element_text rest tag n))"
  by pat_completeness auto
termination
proof (relation "measure (\<lambda>(p, tag, n). length p)", simp, clarsimp)
  fix p q
  assume "strchr p CHR ''<'' = Some q"
  then have "length q \<le> length p" "q \<noteq> []" by (auto dest: strchr_length strchr_hd)
  moreover have "length (dropWhile name_char (tl q)) \<le> length (tl q)" by (rule length_dropWhile_le)
  ultimately show "length (dropWhile name_char (tl q)) < length p" by (cases q) auto
qed

declare element_text.simps [simp del]


section \<open>Comparison and cache\<close>

definition ct_memeq :: "byte list \<Rightarrow> byte list \<Rightarrow> nat \<Rightarrow> bool" where
  "ct_memeq a b n = (fold (\<lambda>i diff. diff OR (a ! i XOR b ! i)) [0..<n] (0 :: byte) = 0)"

definition ONVIF_WSSE_NONCE_SLOTS :: nat where
  "ONVIF_WSSE_NONCE_SLOTS = 16"

record nonce_cache =
  nc_hash :: "byte list list"
  nc_created :: "int list"
  nc_used :: "bool list"
  nc_next :: u32

definition cache_seen :: "nonce_cache \<Rightarrow> byte list \<Rightarrow> bool" where
  "cache_seen c h = list_ex (\<lambda>i. nc_used c ! i \<and> ct_memeq (nc_hash c ! i) h 20) [0..<ONVIF_WSSE_NONCE_SLOTS]"

definition cache_store :: "nonce_cache \<Rightarrow> byte list \<Rightarrow> int \<Rightarrow> nonce_cache" where
  "cache_store c h created =
     (let slot = unat (nc_next c) mod ONVIF_WSSE_NONCE_SLOTS in
      c\<lparr>nc_hash := (nc_hash c)[slot := h],
        nc_created := (nc_created c)[slot := created],
        nc_used := (nc_used c)[slot := True],
        nc_next := nc_next c + 1\<rparr>)"


section \<open>Verification\<close>

datatype wsse_status = WSSE_OK | WSSE_NO_TOKEN | WSSE_BAD_DIGEST | WSSE_STALE | WSSE_REPLAY
  | WSSE_TEXT_REJECTED

definition bytes_of :: "string \<Rightarrow> byte list" where
  "bytes_of s = map (\<lambda>c. of_nat (of_char c)) s"

text \<open>The replay guard at the end of the digest path.\<close>

definition wsse_replay_guard :: "nonce_cache option \<Rightarrow> byte list \<Rightarrow> int \<Rightarrow> wsse_status \<times> nonce_cache option" where
  "wsse_replay_guard cache nonce_raw created_unix =
     (case cache of
        None \<Rightarrow> (WSSE_OK, None)
      | Some c \<Rightarrow>
          (let nonce_hash = onvif_sha1 nonce_raw in
           if cache_seen c nonce_hash then (WSSE_REPLAY, Some c)
           else (WSSE_OK, Some (cache_store c nonce_hash created_unix))))"

text \<open>The digest path, from the freshness check on.\<close>

definition wsse_verify_digest ::
  "string \<Rightarrow> int \<Rightarrow> int \<Rightarrow> nonce_cache option \<Rightarrow> string \<Rightarrow> string \<Rightarrow> string \<Rightarrow> wsse_status \<times> nonce_cache option" where
  "wsse_verify_digest password now_unix window_secs cache pwd_raw nonce_b64 created =
     (case onvif_wsse_parse_created created of
        None \<Rightarrow> (WSSE_STALE, cache)
      | Some created_unix \<Rightarrow>
          (let window = (if window_secs \<le> 0 then 300 else window_secs);
               delta = now_unix - created_unix;
               delta = (if delta < 0 then - delta else delta)
           in if window < delta then (WSSE_STALE, cache)
              else case onvif_base64_decode nonce_b64 192 of
                None \<Rightarrow> (WSSE_BAD_DIGEST, cache)
              | Some nonce_raw \<Rightarrow>
                  if 512 < length nonce_raw + length created + length password + 1
                  then (WSSE_BAD_DIGEST, cache)
                  else (let payload = nonce_raw @ bytes_of created @ bytes_of password;
                            digest = onvif_sha1 payload
                        in case onvif_base64_encode digest 32 of
                             None \<Rightarrow> (WSSE_BAD_DIGEST, cache)
                           | Some expect_b64 \<Rightarrow>
                               if length expect_b64 \<noteq> length pwd_raw \<or>
                                  \<not> ct_memeq (bytes_of expect_b64) (bytes_of pwd_raw) (length expect_b64)
                               then (WSSE_BAD_DIGEST, cache)
                               else wsse_replay_guard cache nonce_raw created_unix)))"

definition onvif_wsse_verify ::
  "string option \<Rightarrow> string option \<Rightarrow> string option \<Rightarrow> int \<Rightarrow> int \<Rightarrow> bool \<Rightarrow> nonce_cache option
     \<Rightarrow> wsse_status \<times> nonce_cache option" where
  "onvif_wsse_verify envelope username password now_unix window_secs allow_text cache =
     (case (envelope, password) of
        (Some env, Some pw) \<Rightarrow>
          if pw = [] then (WSSE_BAD_DIGEST, cache)
          else if \<not> contains env ''UsernameToken'' then (WSSE_NO_TOKEN, cache)
          else (case element_text env ''Username'' 64 of
            None \<Rightarrow> (WSSE_NO_TOKEN, cache)
          | Some username_val \<Rightarrow>
              if (case username of None \<Rightarrow> False | Some u \<Rightarrow> u \<noteq> [] \<and> username_val \<noteq> u)
              then (WSSE_BAD_DIGEST, cache)
              else (case element_text env ''Password'' 256 of
                None \<Rightarrow> (WSSE_NO_TOKEN, cache)
              | Some pwd_raw \<Rightarrow>
                  if contains env ''#PasswordText'' then
                    (if \<not> allow_text then (WSSE_TEXT_REJECTED, cache)
                     else if pwd_raw \<noteq> pw then (WSSE_BAD_DIGEST, cache)
                     else (WSSE_OK, cache))
                  else (case (element_text env ''Nonce'' 256, element_text env ''Created'' 40) of
                    (Some nonce_b64, Some created) \<Rightarrow>
                      wsse_verify_digest pw now_unix window_secs cache pwd_raw nonce_b64 created
                  | _ \<Rightarrow> (WSSE_BAD_DIGEST, cache))))
      | _ \<Rightarrow> (WSSE_BAD_DIGEST, cache))"


section \<open>Facts on the comparison and the extraction\<close>

lemma or_zero_iff: "x OR y = 0 \<longleftrightarrow> x = 0 \<and> y = 0" for x y :: byte
  by (simp add: or_eq_0_iff)

lemma xor_zero_iff: "x XOR y = 0 \<longleftrightarrow> x = y" for x y :: byte
  by (auto simp: bit_eq_iff bit_simps)

lemma fold_or_zero:
  "fold (\<lambda>i (d :: byte). d OR f i) xs d = 0 \<longleftrightarrow> d = 0 \<and> (\<forall>i\<in>set xs. f i = 0)"
  by (induction xs arbitrary: d) (auto simp: or_zero_iff)

lemma ct_memeq_iff:
  assumes "n \<le> length a" and "n \<le> length b"
  shows "ct_memeq a b n \<longleftrightarrow> take n a = take n b"
  using assms by (auto simp: ct_memeq_def fold_or_zero xor_zero_iff list_eq_iff_nth_eq)

lemma bytes_of_eq [simp]: "bytes_of s = bytes_of t \<longleftrightarrow> s = t"
proof
  have "inj (\<lambda>c. of_nat (of_char c) :: byte)"
  proof (rule injI)
    fix c d :: char
    assume "(of_nat (of_char c) :: byte) = of_nat (of_char d)"
    then have "unat (of_nat (of_char c) :: byte) = unat (of_nat (of_char d) :: byte)" by simp
    moreover have "(of_char c :: nat) < 256" "(of_char d :: nat) < 256" by simp_all
    ultimately show "c = d" by (simp add: unat_of_nat take_bit_nat_eq_self)
  qed
  moreover assume "bytes_of s = bytes_of t"
  ultimately show "s = t" unfolding bytes_of_def by (metis inj_map_eq_map)
qed simp

lemma length_bytes_of [simp]: "length (bytes_of s) = length s"
  by (simp add: bytes_of_def)

lemma expect_compare:
  "\<not> (length e \<noteq> length p \<or> \<not> ct_memeq (bytes_of e) (bytes_of p) (length e)) \<longleftrightarrow> p = e"
  by (auto simp: ct_memeq_iff)

lemma element_text_at:
  assumes "CHR ''<'' \<notin> set pre" and "list_all name_char name" and "rest = [] \<or> \<not> name_char (hd rest)"
  shows "element_text (pre @ CHR ''<'' # name @ rest) tag n =
    (if local_part name (length tag) = tag then element_content (CHR ''<'' # name) rest n
     else element_text rest tag n)"
proof -
  have "takeWhile name_char (name @ rest) = name" "dropWhile name_char (name @ rest) = rest"
    using assms(2,3) by (cases rest; induction name; simp)+
  with assms(1) show ?thesis
    by (subst element_text.simps) (auto simp: Let_def)
qed

lemma element_text_hit:
  assumes "CHR ''<'' \<notin> set pre" and "list_all name_char name"
    and "local_part name (length tag) = tag"
    and "attrs = [] \<or> \<not> name_char (hd attrs)" and "CHR ''>'' \<notin> set attrs"
    and "last (CHR ''<'' # name @ attrs) \<noteq> CHR ''/''" and "CHR ''<'' \<notin> set v"
  shows "element_text (pre @ CHR ''<'' # name @ attrs @ CHR ''>'' # v @ CHR ''<'' # r) tag n = Some (take (n - 1) v)"
proof -
  have tw: "takeWhile (\<lambda>c. c \<noteq> x) (a @ x # b) = a" if "x \<notin> set a" for x :: char and a b
    using that by (induction a) auto
  have "attrs @ CHR ''>'' # v @ CHR ''<'' # r = [] \<or>
      \<not> name_char (hd (attrs @ CHR ''>'' # v @ CHR ''<'' # r))"
    using assms(4) by (cases attrs) (auto simp: name_char_def)
  from element_text_at [OF assms(1,2) this] show ?thesis
    using assms(3,5,6,7) by (simp add: element_content_def tw)
qed

lemma element_content_length: "element_content b r n = Some v \<Longrightarrow> 0 < n \<Longrightarrow> length v < n"
  by (auto simp: element_content_def Let_def split: option.splits if_splits)

lemma element_text_length: "element_text p tag n = Some v \<Longrightarrow> 0 < n \<Longrightarrow> length v < n"
proof (induction p tag n rule: element_text.induct)
  case (1 p tag n)
  then obtain q where q: "strchr p (CHR ''<'') = Some q"
    by (subst (asm) (2) element_text.simps) (auto split: option.splits)
  let ?name = "takeWhile name_char (tl q)" and ?rest = "dropWhile name_char (tl q)"
  show ?case
  proof (cases "local_part ?name (length tag) = tag")
    case True
    then have "element_text p tag n = element_content (CHR ''<'' # ?name) ?rest n"
      by (subst element_text.simps) (simp add: q)
    with 1(2,3) show ?thesis by (auto dest: element_content_length)
  next
    case False
    then have "element_text p tag n = element_text ?rest tag n"
      by (subst element_text.simps) (simp add: q)
    with 1(2) have "element_text ?rest tag n = Some v" by simp
    from False have "\<not> (length (local_part ?name (length tag)) = length tag \<and> local_part ?name (length tag) = tag)"
      by simp
    from 1(1) [OF q refl refl this \<open>element_text ?rest tag n = Some v\<close> 1(3)] show ?thesis .
  qed
qed


section \<open>The nonce cache remembers the last sixteen digests\<close>

definition zero_cache :: nonce_cache where
  "zero_cache = \<lparr>nc_hash = replicate 16 (replicate 20 0), nc_created = replicate 16 0,
     nc_used = replicate 16 False, nc_next = 0\<rparr>"

text \<open>After \<open>n\<close> stores the hash of age \<open>i\<close> (0 the newest) sits in slot \<open>(n - 1 - i) mod 16\<close>; slots not
  yet written are unused.  The 32-bit counter wraps, which does not disturb the slots.\<close>

definition cache_rel :: "nonce_cache \<Rightarrow> byte list list \<Rightarrow> bool" where
  "cache_rel c hs \<longleftrightarrow>
     length (nc_hash c) = 16 \<and> length (nc_created c) = 16 \<and> length (nc_used c) = 16 \<and>
     nc_next c = of_nat (length hs) \<and> list_all (\<lambda>h. length h = 20) hs \<and>
     (\<forall>j<16. length (nc_hash c ! j) = 20) \<and>
     (\<forall>m<length hs. length hs \<le> m + 16 \<longrightarrow>
        nc_used c ! (m mod 16) \<and> nc_hash c ! (m mod 16) = rev hs ! m) \<and>
     (\<forall>j<16. length hs \<le> j \<longrightarrow> \<not> nc_used c ! j)"

lemma wrap_slot: "unat (of_nat n :: u32) mod 16 = n mod 16"
  by (simp add: unat_of_nat take_bit_eq_mod mod_mod_cancel)

lemma cache_rel_store:
  assumes r: "cache_rel c hs" and h: "length h = 20"
  shows "cache_rel (cache_store c h t) (h # hs)"
proof -
  let ?n = "length hs" and ?c = "cache_store c h t"
  have s: "unat (nc_next c) mod ONVIF_WSSE_NONCE_SLOTS = ?n mod 16"
    using r by (simp add: cache_rel_def wrap_slot ONVIF_WSSE_NONCE_SLOTS_def)
  have f: "nc_hash ?c = (nc_hash c)[?n mod 16 := h]" "nc_used ?c = (nc_used c)[?n mod 16 := True]"
    "nc_created ?c = (nc_created c)[?n mod 16 := t]" "nc_next ?c = nc_next c + 1"
    by (simp_all add: cache_store_def Let_def s)
  have lens: "length (nc_hash c) = 16" "length (nc_used c) = 16" using r by (simp_all add: cache_rel_def)
  have "nc_used ?c ! (m mod 16) \<and> nc_hash ?c ! (m mod 16) = rev (h # hs) ! m"
    if "m < Suc ?n" "Suc ?n \<le> m + 16" for m
  proof (cases "m = ?n")
    case True
    then show ?thesis by (simp add: f lens nth_append)
  next
    case False
    with that have m: "m < ?n" "?n < m + 16" by auto
    then have "m mod 16 \<noteq> ?n mod 16"
      by (metis add_diff_inverse_nat leD less_imp_le mod_eq_nat1E nat_add_left_cancel_less dvd_imp_le
          zero_less_diff mod_eq_dvd_iff_nat)
    moreover have "nc_used c ! (m mod 16) \<and> nc_hash c ! (m mod 16) = rev hs ! m"
      using r m by (simp add: cache_rel_def)
    ultimately show ?thesis using m by (simp add: f nth_append)
  qed
  moreover have "\<not> nc_used ?c ! j" if "j < 16" "Suc ?n \<le> j" for j
    using r that by (simp add: cache_rel_def f)
  moreover have "length (nc_hash ?c ! j) = 20" if "j < 16" for j
    using r h that by (cases "j = ?n mod 16") (simp_all add: cache_rel_def f)
  ultimately show ?thesis
    using r h by (simp add: cache_rel_def f)
qed

lemma nth_rev_take:
  "(\<exists>m<length hs. length hs \<le> m + k \<and> rev hs ! m = h) \<longleftrightarrow> h \<in> set (take k hs)"
proof
  assume "\<exists>m<length hs. length hs \<le> m + k \<and> rev hs ! m = h"
  then obtain m where m: "m < length hs" "length hs \<le> m + k" "rev hs ! m = h" by blast
  then have "hs ! (length hs - 1 - m) = h" by (simp add: rev_nth)
  moreover have "length hs - 1 - m < k" "length hs - 1 - m < length hs" using m by auto
  ultimately show "h \<in> set (take k hs)" by (auto simp: in_set_conv_nth)
next
  assume "h \<in> set (take k hs)"
  then obtain i where "i < k" "i < length hs" "hs ! i = h" by (auto simp: in_set_conv_nth)
  then show "\<exists>m<length hs. length hs \<le> m + k \<and> rev hs ! m = h"
    by (intro exI [of _ "length hs - 1 - i"]) (auto simp: rev_nth)
qed

lemma newest_in_slot:
  fixes j n :: nat
  assumes "j < 16" and "j < n"
  shows "\<exists>m<n. n \<le> m + 16 \<and> m mod 16 = j"
proof -
  obtain q r where "n - 1 - j = 16 * q + r" "r < 16"
    by (metis mult_div_mod_eq mod_less_divisor zero_less_numeral)
  with assms have "j + 16 * q < n" "n \<le> (j + 16 * q) + 16" by linarith+
  moreover have "(j + 16 * q) mod 16 = j" using assms(1) by simp
  ultimately show ?thesis by blast
qed

lemma cache_seen_rel:
  assumes r: "cache_rel c hs" and h: "length h = 20"
  shows "cache_seen c h \<longleftrightarrow> h \<in> set (take 16 hs)"
proof -
  have slot: "ct_memeq (nc_hash c ! j) h 20 \<longleftrightarrow> nc_hash c ! j = h" if "j < 16" for j
    using r h that by (simp add: ct_memeq_iff cache_rel_def)
  have "cache_seen c h \<longleftrightarrow> (\<exists>j<16. nc_used c ! j \<and> nc_hash c ! j = h)"
    using slot by (auto simp: cache_seen_def list_ex_iff ONVIF_WSSE_NONCE_SLOTS_def)
  also have "\<dots> \<longleftrightarrow> (\<exists>m<length hs. length hs \<le> m + 16 \<and> rev hs ! m = h)"
  proof
    assume "\<exists>j<16. nc_used c ! j \<and> nc_hash c ! j = h"
    then obtain j where j: "j < 16" "nc_used c ! j" "nc_hash c ! j = h" by blast
    then have jn: "j < length hs" using r by (auto simp: cache_rel_def not_less)
    obtain m where "m < length hs" "length hs \<le> m + 16" "m mod 16 = j"
      using newest_in_slot [OF j(1) jn] by blast
    with r j show "\<exists>m<length hs. length hs \<le> m + 16 \<and> rev hs ! m = h"
      by (auto simp: cache_rel_def)
  next
    assume "\<exists>m<length hs. length hs \<le> m + 16 \<and> rev hs ! m = h"
    then obtain m where "m < length hs" "length hs \<le> m + 16" "rev hs ! m = h" by blast
    with r show "\<exists>j<16. nc_used c ! j \<and> nc_hash c ! j = h"
      by (intro exI [of _ "m mod 16"]) (auto simp: cache_rel_def)
  qed
  finally show ?thesis by (simp only: nth_rev_take)
qed

interpretation nonces: recent_memory zero_cache cache_seen cache_store "\<lambda>h. length h = 20" cache_rel
  ONVIF_WSSE_NONCE_SLOTS
proof unfold_locales
  show "cache_rel zero_cache []" by (simp add: cache_rel_def zero_cache_def)
  show "0 < ONVIF_WSSE_NONCE_SLOTS" by (simp add: ONVIF_WSSE_NONCE_SLOTS_def)
  show "cache_seen c k \<longleftrightarrow> k \<in> set (take ONVIF_WSSE_NONCE_SLOTS hs)"
    if "cache_rel c hs" "length k = 20" for c hs k
    using cache_seen_rel [OF that] by (simp add: ONVIF_WSSE_NONCE_SLOTS_def)
qed (rule cache_rel_store)


section \<open>What is accepted\<close>

definition wsse_window :: "int \<Rightarrow> int" where
  "wsse_window w = (if w \<le> 0 then 300 else w)"

text \<open>A token that the digest path accepts: fresh, well-formed and with the digest of its fields.\<close>

definition digest_token ::
  "string \<Rightarrow> int \<Rightarrow> int \<Rightarrow> string \<Rightarrow> string \<Rightarrow> string \<Rightarrow> byte list \<Rightarrow> int \<Rightarrow> bool" where
  "digest_token pw now w pwd_raw nonce_b64 created nonce t \<longleftrightarrow>
     onvif_wsse_parse_created created = Some t \<and> \<bar>now - t\<bar> \<le> wsse_window w \<and>
     onvif_base64_decode nonce_b64 192 = Some nonce \<and>
     length nonce + length created + length pw < 512 \<and>
     pwd_raw = b64_text (onvif_sha1 (nonce @ bytes_of created @ bytes_of pw))"

lemma encode_digest: "onvif_base64_encode (onvif_sha1 m) 32 = Some (b64_text (onvif_sha1 m))"
  by (simp add: onvif_base64_encode_eq onvif_sha1_length)

lemma window_check:
  "((if w \<le> 0 then 300 else w) < (if now - t < 0 then - (now - t) else now - t)) \<longleftrightarrow>
     \<not> \<bar>now - t\<bar> \<le> wsse_window w" for w now t :: int
  by (auto simp: wsse_window_def abs_if)

lemma wsse_verify_digest_eq:
  "wsse_verify_digest pw now w cache p nb cr =
     (case (onvif_wsse_parse_created cr, onvif_base64_decode nb 192) of
        (Some t, Some nonce) \<Rightarrow>
          if digest_token pw now w p nb cr nonce t then wsse_replay_guard cache nonce t
          else if \<bar>now - t\<bar> \<le> wsse_window w then (WSSE_BAD_DIGEST, cache) else (WSSE_STALE, cache)
      | (Some t, None) \<Rightarrow>
          if \<bar>now - t\<bar> \<le> wsse_window w then (WSSE_BAD_DIGEST, cache) else (WSSE_STALE, cache)
      | (None, _) \<Rightarrow> (WSSE_STALE, cache))"
proof (cases "onvif_wsse_parse_created cr")
  case None
  then show ?thesis by (simp add: wsse_verify_digest_def)
next
  case (Some t)
  have b: "(512 < length n + length cr + length pw + 1) = (\<not> length n + length cr + length pw < 512)"
    for n :: "byte list" by linarith
  show ?thesis
  proof (cases "onvif_base64_decode nb 192")
    case None
    with Some show ?thesis by (simp only: wsse_verify_digest_def option.case prod.case Let_def window_check) simp
  next
    case (Some n)
    with \<open>onvif_wsse_parse_created cr = Some t\<close> show ?thesis
      by (simp only: wsse_verify_digest_def option.case prod.case Let_def window_check b
          encode_digest digest_token_def length_bytes_of de_Morgan_disj expect_compare option.inject)
        (auto simp: expect_compare ct_memeq_iff)
  qed
qed

lemma wsse_verify_digest_token:
  "digest_token pw now w p nb cr nonce t \<Longrightarrow>
     wsse_verify_digest pw now w cache p nb cr = wsse_replay_guard cache nonce t"
  by (simp add: wsse_verify_digest_eq) (simp add: digest_token_def)

lemma wsse_verify_digest_cases:
  obtains (token) nonce t where "digest_token pw now w p nb cr nonce t"
      "wsse_verify_digest pw now w cache p nb cr = wsse_replay_guard cache nonce t"
  | (reject) st where "st = WSSE_STALE \<or> st = WSSE_BAD_DIGEST"
      "wsse_verify_digest pw now w cache p nb cr = (st, cache)"
      "\<nexists>nonce t. digest_token pw now w p nb cr nonce t"
proof (cases "\<exists>nonce t. digest_token pw now w p nb cr nonce t")
  case True
  then show ?thesis using token wsse_verify_digest_token by blast
next
  case False
  then have "\<exists>st. (st = WSSE_STALE \<or> st = WSSE_BAD_DIGEST) \<and>
      wsse_verify_digest pw now w cache p nb cr = (st, cache)"
    by (simp add: wsse_verify_digest_eq split: option.splits)
  with False show ?thesis using reject by blast
qed

lemma replay_guard_ok:
  "wsse_replay_guard cache nonce t = (WSSE_OK, cache') \<longleftrightarrow>
     (case cache of None \<Rightarrow> cache' = None
      | Some c \<Rightarrow> \<not> cache_seen c (onvif_sha1 nonce) \<and>
          cache' = Some (cache_store c (onvif_sha1 nonce) t))"
  by (auto simp: wsse_replay_guard_def Let_def split: option.splits)

lemma replay_guard_cases:
  "wsse_replay_guard cache nonce t = (WSSE_REPLAY, cache) \<or>
     (\<exists>c'. wsse_replay_guard cache nonce t = (WSSE_OK, c'))"
  by (auto simp: wsse_replay_guard_def Let_def split: option.splits)


definition user_ok :: "string option \<Rightarrow> string \<Rightarrow> bool" where
  "user_ok username u = (case username of None \<Rightarrow> True | Some x \<Rightarrow> x = [] \<or> u = x)"

text \<open>The fields of a digest token, as extracted from the envelope.\<close>

definition digest_fields :: "string \<Rightarrow> (string \<times> string \<times> string) option" where
  "digest_fields env =
     (case (element_text env ''Password'' 256, element_text env ''Nonce'' 256, element_text env ''Created'' 40) of
        (Some p, Some nb, Some cr) \<Rightarrow> Some (p, nb, cr)
      | _ \<Rightarrow> None)"

text \<open>The checks common to both token types.\<close>

definition token_present :: "string \<Rightarrow> string option \<Rightarrow> string \<Rightarrow> bool" where
  "token_present env username pw \<longleftrightarrow> pw \<noteq> [] \<and> contains env ''UsernameToken'' \<and>
     (\<exists>u. element_text env ''Username'' 64 = Some u \<and> user_ok username u)"

lemma verify_not_present:
  assumes "\<not> token_present env user pw"
  shows "\<exists>st. st \<noteq> WSSE_OK \<and> st \<noteq> WSSE_REPLAY \<and>
    onvif_wsse_verify (Some env) user (Some pw) now w at cache = (st, cache)"
  using assms
  by (auto simp: onvif_wsse_verify_def token_present_def user_ok_def split: option.splits)

lemma verify_text:
  assumes "token_present env user pw" and "contains env ''#PasswordText''"
  shows "onvif_wsse_verify (Some env) user (Some pw) now w at cache =
    ((case element_text env ''Password'' 256 of
        None \<Rightarrow> WSSE_NO_TOKEN
      | Some p \<Rightarrow> if \<not> at then WSSE_TEXT_REJECTED else if p = pw then WSSE_OK else WSSE_BAD_DIGEST), cache)"
  using assms
  by (auto simp: onvif_wsse_verify_def token_present_def user_ok_def split: option.splits)

lemma verify_digest:
  assumes "token_present env user pw" and "\<not> contains env ''#PasswordText''"
    and "digest_fields env = Some (p, nb, cr)"
  shows "onvif_wsse_verify (Some env) user (Some pw) now w at cache =
    wsse_verify_digest pw now w cache p nb cr"
  using assms
  by (auto simp: onvif_wsse_verify_def token_present_def user_ok_def digest_fields_def split: option.splits)

lemma verify_no_fields:
  assumes "token_present env user pw" and "\<not> contains env ''#PasswordText''"
    and "digest_fields env = None"
  shows "\<exists>st. st \<noteq> WSSE_OK \<and> st \<noteq> WSSE_REPLAY \<and>
    onvif_wsse_verify (Some env) user (Some pw) now w at cache = (st, cache)"
  using assms
  by (auto simp: onvif_wsse_verify_def token_present_def user_ok_def digest_fields_def split: option.splits)

lemma verify_fail_closed:
  "onvif_wsse_verify None user pw now w at cache = (WSSE_BAD_DIGEST, cache)"
  "onvif_wsse_verify env user None now w at cache = (WSSE_BAD_DIGEST, cache)"
  "onvif_wsse_verify env user (Some []) now w at cache = (WSSE_BAD_DIGEST, cache)"
  by (auto simp: onvif_wsse_verify_def split: option.splits)

lemmas verify_branches = verify_not_present verify_text verify_digest verify_no_fields verify_fail_closed

text \<open>Every call falls into one of three classes.\<close>

lemma verify_cases:
  obtains (plain) "token_present env user pw" "contains env ''#PasswordText''" "at"
      "element_text env ''Password'' 256 = Some pw"
      "onvif_wsse_verify (Some env) user (Some pw) now w at cache = (WSSE_OK, cache)"
  | (digest) p nb cr nonce t where "token_present env user pw" "\<not> contains env ''#PasswordText''"
      "digest_fields env = Some (p, nb, cr)" "digest_token pw now w p nb cr nonce t"
      "onvif_wsse_verify (Some env) user (Some pw) now w at cache = wsse_replay_guard cache nonce t"
  | (reject) st where "st \<noteq> WSSE_OK" "st \<noteq> WSSE_REPLAY"
      "onvif_wsse_verify (Some env) user (Some pw) now w at cache = (st, cache)"
proof -
  consider "\<not> token_present env user pw"
    | "token_present env user pw" "contains env ''#PasswordText''"
    | "token_present env user pw" "\<not> contains env ''#PasswordText''" "digest_fields env = None"
    | p nb cr where "token_present env user pw" "\<not> contains env ''#PasswordText''"
        "digest_fields env = Some (p, nb, cr)"
    by (cases "digest_fields env") auto
  then show ?thesis
  proof cases
    case 1
    with verify_not_present reject show ?thesis by blast
  next
    case 2
    from verify_text [OF this, of now w at cache] show ?thesis
      using plain [OF 2] reject by (auto split: option.splits if_splits)
  next
    case 3
    with verify_no_fields reject show ?thesis by blast
  next
    case (4 p nb cr)
    from verify_digest [OF this, of now w at cache] show ?thesis
      using digest [OF 4] reject
      by (cases rule: wsse_verify_digest_cases [of pw now w p nb cr cache]) auto
  qed
qed


section \<open>Properties\<close>

text \<open>
  C1: \<open>onvif_wsse_verify\<close> answers OK exactly for: a non-empty configured password, a
  \<open>UsernameToken\<close> whose user name matches (when one is configured), and either an allowed plain
  text password equal to the configured one, or a digest token that is fresh within the window,
  whose Password field is Base64 (onvif_sha1 (nonce ++ created ++ password)), and whose nonce is not in the
  cache; the digest path then records the nonce, the plain text path leaves the cache alone.
\<close>

theorem wsse_accept_iff:
  "onvif_wsse_verify (Some env) user (Some pw) now w at cache = (WSSE_OK, cache') \<longleftrightarrow>
     token_present env user pw \<and>
     (if contains env ''#PasswordText''
      then at \<and> element_text env ''Password'' 256 = Some pw \<and> cache' = cache
      else \<exists>p nb cr nonce t. digest_fields env = Some (p, nb, cr) \<and>
             digest_token pw now w p nb cr nonce t \<and>
             (case cache of None \<Rightarrow> cache' = None
              | Some c \<Rightarrow> \<not> cache_seen c (onvif_sha1 nonce) \<and>
                  cache' = Some (cache_store c (onvif_sha1 nonce) t)))"
  (is "?l \<longleftrightarrow> ?p \<and> (if ?t then ?a else ?d)")
proof (cases "?p \<and> \<not> ?t")
  case False
  then consider "\<not> ?p" | "?p" "?t" by blast
  then show ?thesis
  proof cases
    case 1
    from verify_not_present [OF this, of now w at cache] 1 show ?thesis by auto
  next
    case 2
    from verify_text [OF 2, of now w at cache] 2 show ?thesis by (auto split: option.splits if_splits)
  qed
next
  case True
  show ?thesis
  proof (cases "digest_fields env")
    case None
    with True show ?thesis using verify_no_fields [of env user pw now w at cache] by auto
  next
    case (Some f)
    obtain p nb cr where f: "f = (p, nb, cr)" by (cases f) auto
    from True Some f have v: "?l \<longleftrightarrow> wsse_verify_digest pw now w cache p nb cr = (WSSE_OK, cache')"
      by (simp add: verify_digest)
    show ?thesis
    proof (cases rule: wsse_verify_digest_cases [of pw now w p nb cr cache])
      case (token nonce t)
      have uniq: "nonce' = nonce \<and> t' = t" if "digest_token pw now w p nb cr nonce' t'" for nonce' t'
        using that token(1) by (simp add: digest_token_def)
      have "?d \<longleftrightarrow> wsse_replay_guard cache nonce t = (WSSE_OK, cache')"
        unfolding replay_guard_ok using Some f token(1) by (auto dest: uniq)
      with True show ?thesis by (simp add: v token(2))
    next
      case (reject st)
      then have "\<not> ?d" using Some f by auto
      with True reject show ?thesis by (auto simp: v)
    qed
  qed
qed

text \<open>
  Nothing but an acceptance changes the nonce cache, so unauthenticated requests cannot evict
  remembered nonces; and with no envelope, no password or an empty password nothing is accepted
  (fail closed).
\<close>

theorem wsse_reject_keeps_cache:
  "(let (st, cache') = onvif_wsse_verify env user pw now w at cache in
     (st \<noteq> WSSE_OK \<longrightarrow> cache' = cache) \<and>
     (env = None \<or> pw = None \<or> pw = Some [] \<longrightarrow> st = WSSE_BAD_DIGEST))"
proof (cases "env = None \<or> pw = None \<or> pw = Some []")
  case True
  then show ?thesis by (auto simp: verify_fail_closed)
next
  case False
  then obtain e p where ep: "env = Some e" "pw = Some p" by auto
  show ?thesis
  proof (cases rule: verify_cases [of e user p at now w cache])
    case plain
    then show ?thesis using False by (simp add: ep)
  next
    case (digest q nb cr nonce t)
    then show ?thesis using False replay_guard_cases [of cache nonce t] by (auto simp: ep)
  next
    case (reject st)
    then show ?thesis using False by (simp add: ep)
  qed
qed

theorem wsse_reject_keeps_cache_witness:
  "fst (onvif_wsse_verify (Some ''<a/>'') None (Some ''x'') 0 0 False None) = WSSE_NO_TOKEN \<and>
     snd (onvif_wsse_verify (Some ''<a/>'') None (Some ''x'') 0 0 False None) = None"
proof -
  have s: "fst (onvif_wsse_verify (Some ''<a/>'') None (Some ''x'') 0 0 False None) = WSSE_NO_TOKEN"
    by (simp add: onvif_wsse_verify_def contains_def)
  with wsse_reject_keeps_cache [of "Some ''<a/>''" None "Some ''x''" 0 0 False None] show ?thesis
    by (auto simp: Let_def split: prod.splits)
qed


lemma element_text_Cons:
  "element_text (c # p) tag n =
     (if c = CHR ''<'' then
        (if local_part (takeWhile name_char p) (length tag) = tag
         then element_content (CHR ''<'' # takeWhile name_char p) (dropWhile name_char p) n
         else element_text (dropWhile name_char p) tag n)
      else element_text p tag n)"
  by (subst (1) element_text.simps) (auto simp: Let_def element_text.simps [of p])

lemma element_text_chunk: "CHR ''<'' \<notin> set a \<Longrightarrow> element_text (a @ p) tag n = element_text p tag n"
  by (induction a) (auto simp: element_text_Cons)

lemma contains_Cons: "contains (x # xs) p \<longleftrightarrow> prefix p (x # xs) \<or> contains xs p"
  by (simp add: contains_def)

lemma contains_chunk: "c \<notin> set a \<Longrightarrow> contains (a @ b) (c # p) \<longleftrightarrow> contains b (c # p)"
  by (induction a) (auto simp: contains_Cons)

lemma takeWhile_chunk: "x \<notin> set a \<Longrightarrow> takeWhile (\<lambda>c. c \<noteq> x) (a @ x # b) = a"
  by (induction a) auto

lemmas token_eval = element_text_Cons element_text_chunk element_content_def name_char_def local_part_def
  takeWhile_chunk

lemma b64_text_chars: "set (b64_text bs) \<subseteq> insert (CHR ''='') (set b64_tbl)"
proof -
  have "b64_char v k \<in> set b64_tbl" for v k
    by (simp add: b64_char_def unat_and_63 b64_tbl_length)
  then show ?thesis by (induction bs rule: b64_text.induct) (simp_all add: Let_def)
qed

lemma b64_text_clean: "CHR ''<'' \<notin> set (b64_text bs)" "CHR ''#'' \<notin> set (b64_text bs)"
proof -
  have "CHR ''<'' \<notin> insert (CHR ''='') (set b64_tbl)" "CHR ''#'' \<notin> insert (CHR ''='') (set b64_tbl)"
    by (simp_all add: b64_tbl_def)
  then show "CHR ''<'' \<notin> set (b64_text bs)" "CHR ''#'' \<notin> set (b64_text bs)"
    using b64_text_chars [of bs] by blast+
qed

section \<open>A client's envelope\<close>

text \<open>An envelope as ONVIF clients send it: user name, password digest, nonce, creation time, and
  the rest of the message.\<close>

definition client_envelope :: "string \<Rightarrow> string \<Rightarrow> string \<Rightarrow> string \<Rightarrow> string \<Rightarrow> string" where
  "client_envelope u d nb cr rest =
     ''<s:Envelope><s:Header><wsse:Security><wsse:UsernameToken><wsse:Username>'' @ u @
     ''</wsse:Username><wsse:Password Type=\"profile-1.0#PasswordDigest\">'' @ d @
     ''</wsse:Password><wsse:Nonce>'' @ nb @ ''</wsse:Nonce><wsu:Created>'' @ cr @
     ''</wsu:Created></wsse:UsernameToken></wsse:Security></s:Header>'' @ rest"

lemma client_envelope_fields:
  assumes "CHR ''<'' \<notin> set u" "CHR ''<'' \<notin> set d" "CHR ''<'' \<notin> set nb" "CHR ''<'' \<notin> set cr"
  shows "element_text (client_envelope u d nb cr rest) ''Username'' n = Some (take (n - 1) u)"
    and "element_text (client_envelope u d nb cr rest) ''Password'' n = Some (take (n - 1) d)"
    and "element_text (client_envelope u d nb cr rest) ''Nonce'' n = Some (take (n - 1) nb)"
    and "element_text (client_envelope u d nb cr rest) ''Created'' n = Some (take (n - 1) cr)"
  using assms by (simp_all add: client_envelope_def token_eval)


lemma prefix_hash: "\<not> prefix ''#PasswordText'' (CHR ''#'' # CHR ''P'' # CHR ''a'' # CHR ''s'' # CHR ''s'' # CHR ''w'' #
   CHR ''o'' # CHR ''r'' # CHR ''d'' # CHR ''D'' # xs)" by simp

lemma client_envelope_kind:
  assumes "CHR ''#'' \<notin> set u" "CHR ''#'' \<notin> set d" "CHR ''#'' \<notin> set nb" "CHR ''#'' \<notin> set cr"
    and "\<not> contains rest ''#PasswordText''"
  shows "contains (client_envelope u d nb cr rest) ''UsernameToken''"
    and "\<not> contains (client_envelope u d nb cr rest) ''#PasswordText''"
  using assms by (simp_all add: client_envelope_def contains_Cons contains_chunk)

lemma client_verify:
  assumes chars: "CHR ''<'' \<notin> set u \<union> set cr" "CHR ''#'' \<notin> set u \<union> set cr"
    and rest: "\<not> contains rest ''#PasswordText''"
    and len: "length u < 64" "length cr < 40" "length nonce \<le> 189"
    and user: "user_ok user u" and pw: "pw \<noteq> []"
    and time: "onvif_wsse_parse_created cr = Some t" "\<bar>now - t\<bar> \<le> wsse_window w"
    and fits: "length nonce + length cr + length pw < 512"
    and d: "digest = onvif_sha1 (nonce @ bytes_of cr @ bytes_of pw)"
  shows "onvif_wsse_verify (Some (client_envelope u (b64_text digest) (b64_text nonce) cr rest)) user (Some pw)
      now w at cache = wsse_replay_guard cache nonce t" (is "?v = _")
    and "digest_fields (client_envelope u (b64_text digest) (b64_text nonce) cr rest) =
      Some (b64_text digest, b64_text nonce, cr)" (is "?f")
    and "\<not> contains (client_envelope u (b64_text digest) (b64_text nonce) cr rest) ''#PasswordText''"
    and "token_present (client_envelope u (b64_text digest) (b64_text nonce) cr rest) user pw" (is ?p)
    and "digest_token pw now w (b64_text digest) (b64_text nonce) cr nonce t" (is ?d)
proof -
  let ?e = "client_envelope u (b64_text digest) (b64_text nonce) cr rest"
  have nb: "length (b64_text nonce) < 256" using len(3) by (simp add: b64_text_length)
  have ld: "length (b64_text digest) = 28" by (simp add: d b64_text_length onvif_sha1_length)
  note f = client_envelope_fields [of u "b64_text digest" "b64_text nonce" cr rest]
  have un: "element_text ?e ''Username'' 64 = Some u"
    using f(1) [of 64] chars(1) len(1) by (simp add: b64_text_clean)
  show fields: ?f
    using f(2) [of 256] f(3) [of 256] f(4) [of 40] chars(1) len nb ld
    by (simp add: digest_fields_def b64_text_clean)
  note k = client_envelope_kind [of u "b64_text digest" "b64_text nonce" cr rest]
  show dig: "\<not> contains ?e ''#PasswordText''" using k(2) chars(2) rest by (simp add: b64_text_clean)
  show ?p
    using k(1) chars(2) rest un user pw by (simp add: b64_text_clean token_present_def)
  moreover show ?d
    using time fits d len(3) by (simp add: digest_token_def onvif_base64_decode_text)
  ultimately show "?v = wsse_replay_guard cache nonce t"
    using verify_digest [OF _ dig fields] wsse_verify_digest_token by simp
qed

text \<open>
  C2: A client that follows the profile is accepted: with the SHA-1 of FIPS 180-4 over nonce,
  creation time and password (at most 119 bytes together), the right user name, a creation time
  within the window and a nonce not among the remembered ones, the envelope is answered OK and
  the nonce is recorded.
\<close>

theorem honest_client_accepted:
  assumes "CHR ''<'' \<notin> set u \<union> set cr" and "CHR ''#'' \<notin> set u \<union> set cr"
    and "\<not> contains rest ''#PasswordText''"
    and "length u < 64" and "length cr < 40" and "user_ok user u" and "pw \<noteq> []"
    and "onvif_wsse_parse_created cr = Some t" and "\<bar>now - t\<bar> \<le> wsse_window w"
    and "length nonce + length cr + length pw \<le> 119"
    and "\<not> cache_seen c (fips_sha1 nonce)"
    and "digest = fips_sha1 (nonce @ bytes_of cr @ bytes_of pw)"
  shows "onvif_wsse_verify (Some (client_envelope u (b64_text digest) (b64_text nonce) cr rest)) user (Some pw)
      now w at (Some c) = (WSSE_OK, Some (cache_store c (fips_sha1 nonce) t))"
proof -
  have sha: "onvif_sha1 nonce = fips_sha1 nonce" "digest = onvif_sha1 (nonce @ bytes_of cr @ bytes_of pw)"
    using assms(10,12) by (simp_all add: sha1_short)
  show ?thesis
    using client_verify(1) [of u cr rest nonce user pw t now w digest at "Some c"] assms sha
    by (simp add: wsse_replay_guard_def)
qed

theorem honest_client_accepted_witness:
  "fst (onvif_wsse_verify
      (Some (client_envelope ''admin'' (b64_text (fips_sha1 ([1, 2, 3] @ bytes_of ''2024-01-01T00:00:00Z'' @ bytes_of ''secret'')))
        (b64_text [1, 2, 3]) ''2024-01-01T00:00:00Z'' ''<s:Body/></s:Envelope>''))
      (Some ''admin'') (Some ''secret'') 1704067300 0 False (Some zero_cache)) = WSSE_OK"
proof -
  have p: "onvif_wsse_parse_created ''2024-01-01T00:00:00Z'' = Some 1704067200"
    using parse_2024 by simp
  have s: "\<not> cache_seen zero_cache h" if "length h = 20" for h
    using nonces.rel_seen [OF nonces.rel_empty that] by simp
  have l: "length (fips_sha1 [1, 2, 3 :: byte]) = 20"
    using onvif_sha1_length [of "[1, 2, 3]"] by (simp add: sha1_short)
  show ?thesis
    by (subst honest_client_accepted [where t = 1704067200])
      (simp_all add: p s [OF l] user_ok_def wsse_window_def contains_def)
qed

text \<open>
  C4: The hole left by the hash: once nonce and creation time together reach 120 bytes (with at most 189
  and 39 of them), the envelope with the constant digest of the initial chaining value is accepted without
  knowledge of the password, for every password of 1 to 280 characters.  The rest of the token must be in
  order: a user name the server accepts (at most 63 characters), a creation time inside the window, a nonce
  that is not remembered, no \<open><\<close> and no \<open>#\<close> in user name and creation time, and no
  \<open>#PasswordText\<close> behind the header.
\<close>

theorem long_nonce_bypasses_password:
  assumes "120 \<le> length nonce + length cr" and "length nonce \<le> 189" and "length cr < 40"
    and "CHR ''<'' \<notin> set u \<union> set cr" and "CHR ''#'' \<notin> set u \<union> set cr"
    and "\<not> contains rest ''#PasswordText''" and "length u < 64" and "user_ok user u"
    and "onvif_wsse_parse_created cr = Some t" and "\<bar>now - t\<bar> \<le> wsse_window w"
    and "\<not> cache_seen c (onvif_sha1 nonce)"
    and "pw \<noteq> []" and "length pw \<le> 280"
  shows "fst (onvif_wsse_verify
      (Some (client_envelope u (b64_text (digest_bytes sha1_init)) (b64_text nonce) cr rest))
      user (Some pw) now w at (Some c)) = WSSE_OK"
proof -
  have d: "digest_bytes sha1_init = onvif_sha1 (nonce @ bytes_of cr @ bytes_of pw)"
    using assms(1) by (simp add: sha1_constant)
  show ?thesis
    using client_verify(1) [OF assms(4,5,6,7,3,2,8,12,9,10) _ d, of at "Some c"] assms
    by (simp add: wsse_replay_guard_def)
qed

theorem long_nonce_bypasses_password_witness:
  "fst (onvif_wsse_verify
      (Some (client_envelope ''admin'' ''Z0UjAe/Nq4mYutz+EDJUdsPS4fA='' (b64_text (replicate 120 0))
        ''2024-01-01T00:00:00Z'' ''<s:Body/></s:Envelope>''))
      (Some ''admin'') (Some ''unknown to the client'') 1704067300 0 False (Some zero_cache)) = WSSE_OK"
proof -
  have p: "onvif_wsse_parse_created ''2024-01-01T00:00:00Z'' = Some 1704067200"
    using parse_2024 by simp
  have s: "\<not> cache_seen zero_cache h" if "length h = 20" for h
    using nonces.rel_seen [OF nonces.rel_empty that] by simp
  have d: "''Z0UjAe/Nq4mYutz+EDJUdsPS4fA='' = b64_text (digest_bytes sha1_init)"
    by (simp add: sha1_init_def be32_def b64_char_def b64_tbl_def)
  show ?thesis
    unfolding d
    by (rule long_nonce_bypasses_password [where t = 1704067200])
      (simp_all add: p s onvif_sha1_length user_ok_def wsse_window_def contains_def)
qed


section \<open>A server's life: replayed tokens\<close>

definition token_nonce :: "string \<Rightarrow> byte list option" where
  "token_nonce env =
     (case element_text env ''Nonce'' 256 of None \<Rightarrow> None | Some nb \<Rightarrow> onvif_base64_decode nb 192)"

text \<open>The caches a server can reach from the zeroed one by any sequence of verifications, with the
  nonces of the digest tokens it accepted, newest first.\<close>

inductive wsse_history :: "string option \<Rightarrow> string \<Rightarrow> int \<Rightarrow> bool \<Rightarrow> nonce_cache \<Rightarrow> byte list list \<Rightarrow> bool"
  for user pw w at where
  boot: "wsse_history user pw w at zero_cache []"
| accepted: "wsse_history user pw w at c ns \<Longrightarrow>
    onvif_wsse_verify (Some env) user (Some pw) now w at (Some c) = (WSSE_OK, Some c') \<Longrightarrow>
    \<not> contains env ''#PasswordText'' \<Longrightarrow> token_nonce env = Some n \<Longrightarrow>
    wsse_history user pw w at c' (n # ns)"
| other: "wsse_history user pw w at c ns \<Longrightarrow>
    onvif_wsse_verify (Some env) user (Some pw) now w at (Some c) = (st, Some c') \<Longrightarrow>
    st \<noteq> WSSE_OK \<or> contains env ''#PasswordText'' \<Longrightarrow>
    wsse_history user pw w at c' ns"

lemma token_nonce_fields:
  "digest_fields env = Some (p, nb, cr) \<Longrightarrow> digest_token pw now w p nb cr n t \<Longrightarrow> token_nonce env = Some n"
  by (auto simp: token_nonce_def digest_fields_def digest_token_def split: option.splits)

lemma accepted_digest:
  assumes "onvif_wsse_verify (Some env) user (Some pw) now w at (Some c) = (WSSE_OK, c')"
    and "\<not> contains env ''#PasswordText''"
  obtains n t where "token_nonce env = Some n" "\<not> cache_seen c (onvif_sha1 n)"
    "c' = Some (cache_store c (onvif_sha1 n) t)"
proof (cases rule: verify_cases [of env user pw at now w "Some c"])
  case (digest p nb cr nonce t)
  then have "token_nonce env = Some nonce" by (intro token_nonce_fields)
  moreover from digest(5) assms(1)
  have "wsse_replay_guard (Some c) nonce t = (WSSE_OK, c')" by simp
  ultimately show ?thesis using that by (auto simp: replay_guard_ok)
qed (use assms in auto)

lemma verify_other_keeps:
  assumes "onvif_wsse_verify (Some env) user (Some pw) now w at cache = (st, cache')"
    and "st \<noteq> WSSE_OK \<or> contains env ''#PasswordText''"
  shows "cache' = cache"
proof (cases rule: verify_cases [of env user pw at now w cache])
  case (digest p nb cr nonce t)
  then show ?thesis using assms replay_guard_cases [of cache nonce t] by auto
qed (use assms in auto)

lemma wsse_history_rel: "wsse_history user pw w at c ns \<Longrightarrow> cache_rel c (map onvif_sha1 ns)"
proof (induction rule: wsse_history.induct)
  case boot
  show ?case using nonces.rel_empty by simp
next
  case (accepted c ns env now c' n)
  from accepted.hyps(2,3) obtain t where "c' = cache_store c (onvif_sha1 n) t"
    by (rule accepted_digest) (use accepted.hyps(4) in auto)
  with accepted.IH show ?case by (simp add: nonces.rel_store onvif_sha1_length)
next
  case (other c ns env now st c')
  with verify_other_keeps [OF other.hyps(2,3)] show ?case by simp
qed

lemma history_seen:
  "wsse_history user pw w at c ns \<Longrightarrow>
     cache_seen c (onvif_sha1 n) \<longleftrightarrow> onvif_sha1 n \<in> onvif_sha1 ` set (take 16 ns)"
  using nonces.rel_seen [OF wsse_history_rel, of user pw w at c ns "onvif_sha1 n"]
  by (simp add: onvif_sha1_length ONVIF_WSSE_NONCE_SLOTS_def take_map)

text \<open>
  Replay protection over the whole life of a server: whatever sequence of requests it has
  verified (accepted or not, plain or digest, in any order and at any time), a digest token whose
  nonce is among the sixteen most recently accepted ones is not accepted again.
\<close>

theorem replayed_token_refused:
  assumes "wsse_history user pw w at c ns" and "n \<in> set (take 16 ns)"
    and "token_nonce env = Some n" and "\<not> contains env ''#PasswordText''"
  shows "fst (onvif_wsse_verify (Some env) user (Some pw) now w at (Some c)) \<noteq> WSSE_OK"
proof
  assume "fst (onvif_wsse_verify (Some env) user (Some pw) now w at (Some c)) = WSSE_OK"
  then obtain c' where "onvif_wsse_verify (Some env) user (Some pw) now w at (Some c) = (WSSE_OK, c')"
    by (metis prod.collapse)
  then obtain n' t where "token_nonce env = Some n'" "\<not> cache_seen c (onvif_sha1 n')"
    using assms(4) by (rule accepted_digest)
  with assms history_seen [OF assms(1), of n] show False by auto
qed

theorem replayed_token_refused_witness:
  "\<exists>c env. wsse_history (Some ''admin'') ''secret'' 0 False c [[1, 2, 3]] \<and>
     fst (onvif_wsse_verify (Some env) (Some ''admin'') (Some ''secret'') 1704067300 0 False (Some zero_cache)) = WSSE_OK \<and>
     fst (onvif_wsse_verify (Some env) (Some ''admin'') (Some ''secret'') 1704067310 0 False (Some c)) \<noteq> WSSE_OK"
proof -
  let ?cr = "''2024-01-01T00:00:00Z''" and ?n = "[1, 2, 3] :: byte list"
  define d where "d = onvif_sha1 (?n @ bytes_of ?cr @ bytes_of ''secret'')"
  define env where "env = client_envelope ''admin'' (b64_text d) (b64_text ?n) ?cr ''<s:Body/></s:Envelope>''"
  have s: "\<not> cache_seen zero_cache (onvif_sha1 ?n)"
    using nonces.rel_seen [OF nonces.rel_empty onvif_sha1_length] by simp
  have "CHR ''<'' \<notin> set ''admin'' \<union> set ?cr" "CHR ''#'' \<notin> set ''admin'' \<union> set ?cr"
    "\<not> contains ''<s:Body/></s:Envelope>'' ''#PasswordText''" "length ''admin'' < 64" "length ?cr < 40"
    "length ?n \<le> 189" "user_ok (Some ''admin'') ''admin''" "''secret'' \<noteq> []"
    by (simp_all add: contains_def user_ok_def)
  note pre = this parse_2024 _ _ d_def
  note v = client_verify(1) [OF pre, of 1704067300 0 False "Some zero_cache", folded env_def]
    client_verify(2,3) [OF pre, of 1704067300 0, folded env_def]
  have ok: "onvif_wsse_verify (Some env) (Some ''admin'') (Some ''secret'') 1704067300 0 False (Some zero_cache) =
      (WSSE_OK, Some (cache_store zero_cache (onvif_sha1 ?n) 1704067200))"
    using v(1) s by (simp add: wsse_window_def wsse_replay_guard_def)
  have "digest_fields env = Some (b64_text d, b64_text ?n, ?cr)" and k: "\<not> contains env ''#PasswordText''"
    using v(2,3) by (simp_all add: wsse_window_def)
  then have n: "token_nonce env = Some ?n"
    by (auto simp: token_nonce_def digest_fields_def onvif_base64_decode_text simp del: b64_text.simps split: option.splits)
  have h: "wsse_history (Some ''admin'') ''secret'' 0 False (cache_store zero_cache (onvif_sha1 ?n) 1704067200) [?n]"
    by (rule wsse_history.accepted [OF wsse_history.boot ok k n])
  show ?thesis
    using h ok replayed_token_refused [OF h _ n k] by (intro exI [of _ env] exI conjI [OF h]) auto
qed

text \<open>
  C3: The replay guard is exact: after any sequence of verifications, a valid and fresh digest token
  is answered REPLAY, with the cache as it was, precisely when its nonce hashes like one of the sixteen
  accepted last; otherwise it is accepted and recorded, so a nonce is usable again (within its window)
  once sixteen others have followed it.
\<close>

theorem replay_guard_exact:
  assumes "wsse_history user pw w at c ns" and "token_present env user pw" and "\<not> contains env ''#PasswordText''"
    and "digest_fields env = Some (p, nb, cr)" and "digest_token pw now w p nb cr n t"
  shows "onvif_wsse_verify (Some env) user (Some pw) now w at (Some c) =
    (if onvif_sha1 n \<in> onvif_sha1 ` set (take 16 ns) then (WSSE_REPLAY, Some c)
     else (WSSE_OK, Some (cache_store c (onvif_sha1 n) t)))"
proof -
  have "onvif_wsse_verify (Some env) user (Some pw) now w at (Some c) = wsse_replay_guard (Some c) n t"
    using verify_digest [OF assms(2-4)] wsse_verify_digest_token [OF assms(5)] by simp
  then show ?thesis using history_seen [OF assms(1), of n] by (simp add: wsse_replay_guard_def Let_def)
qed

theorem replay_guard_exact_witness:
  "\<exists>c env. fst (onvif_wsse_verify (Some env) (Some ''admin'') (Some ''secret'') 1704067300 0 False (Some zero_cache)) = WSSE_OK \<and>
     onvif_wsse_verify (Some env) (Some ''admin'') (Some ''secret'') 1704067310 0 False (Some c) = (WSSE_REPLAY, Some c)"
proof -
  let ?cr = "''2024-01-01T00:00:00Z''" and ?n = "[1, 2, 3] :: byte list"
  define d where "d = onvif_sha1 (?n @ bytes_of ?cr @ bytes_of ''secret'')"
  define env where "env = client_envelope ''admin'' (b64_text d) (b64_text ?n) ?cr ''<s:Body/></s:Envelope>''"
  have "CHR ''<'' \<notin> set ''admin'' \<union> set ?cr" "CHR ''#'' \<notin> set ''admin'' \<union> set ?cr"
    "\<not> contains ''<s:Body/></s:Envelope>'' ''#PasswordText''" "length ''admin'' < 64" "length ?cr < 40"
    "length ?n \<le> 189" "user_ok (Some ''admin'') ''admin''" "''secret'' \<noteq> []"
    by (simp_all add: contains_def user_ok_def)
  note pre = this parse_2024
  have t: "\<bar>1704067300 - 1704067200\<bar> \<le> wsse_window 0" "\<bar>1704067310 - 1704067200\<bar> \<le> wsse_window 0"
    and l: "length ?n + length ?cr + length ''secret'' < 512"
    by (simp_all add: wsse_window_def)
  note f = client_verify(2-4) [OF pre t(1) l d_def, folded env_def]
    and d = client_verify(5) [OF pre t(1) l d_def] client_verify(5) [OF pre t(2) l d_def]
  have n: "token_nonce env = Some ?n" by (rule token_nonce_fields [OF f(1) d(1)])
  have ok: "onvif_wsse_verify (Some env) (Some ''admin'') (Some ''secret'') 1704067300 0 False (Some zero_cache) =
      (WSSE_OK, Some (cache_store zero_cache (onvif_sha1 ?n) 1704067200))"
    using replay_guard_exact [OF wsse_history.boot f(3,2,1) d(1), of False] by simp
  have "wsse_history (Some ''admin'') ''secret'' 0 False (cache_store zero_cache (onvif_sha1 ?n) 1704067200) [?n]"
    by (rule wsse_history.accepted [OF wsse_history.boot ok f(2) n])
  from replay_guard_exact [OF this f(3,2,1) d(2)]
  show ?thesis by (intro exI [of _ "cache_store zero_cache (onvif_sha1 ?n) 1704067200"] exI [of _ env] conjI) (simp_all add: ok)
qed

end
