(* ===== verification/Probe.thy ===== *)
theory Probe
  imports Xml_Doc Wsse
begin

text \<open>
  \<open>core/onvif_probe.c\<close>: recognising the WS-Discovery datagrams that concern a device, taking the
  message id out of them, and building the four messages a device sends.
\<close>

section \<open>Reading a datagram\<close>

definition onvif_probe_is_probe :: "string \<Rightarrow> bool" where
  "onvif_probe_is_probe body \<longleftrightarrow>
     (contains body ''wsdiscovery:Probe'' \<or> contains body ''ws-discovery:Probe'' \<or> contains body '':Probe'') \<and>
     \<not> contains body ''ProbeMatches''"

definition onvif_probe_is_resolve :: "string \<Rightarrow> bool" where
  "onvif_probe_is_resolve body \<longleftrightarrow> contains body '':Resolve'' \<and> \<not> contains body ''ResolveMatches''"

text \<open>\<open>None\<close> is the result \<open>false\<close>, with \<open>out\<close> untouched.\<close>

definition onvif_probe_message_id :: "string \<Rightarrow> nat \<Rightarrow> string option" where
  "onvif_probe_message_id body n =
     (case strstr body ''MessageID'' of
        None \<Rightarrow> None
      | Some tag \<Rightarrow>
          (case strchr tag (CHR ''>'') of
             None \<Rightarrow> None
           | Some gt \<Rightarrow>
               (case strchr (tl gt) (CHR ''<'') of
                  None \<Rightarrow> None
                | Some lt \<Rightarrow>
                    (let len = length (tl gt) - length lt in
                     if len = 0 \<or> n \<le> len then None else Some (take len (tl gt))))))"


section \<open>Building messages\<close>

definition given :: "string option \<Rightarrow> bool" where
  "given s \<longleftrightarrow> (case s of None \<Rightarrow> False | Some t \<Rightarrow> t \<noteq> [])"

definition build_matches_family ::
  "nat \<Rightarrow> string \<Rightarrow> string \<Rightarrow> string option \<Rightarrow> string \<Rightarrow> string \<Rightarrow> nat \<Rightarrow> string option \<Rightarrow> int \<times> string" where
  "build_matches_family n outer inner relates_to uuid ip port scopes = snprintf n (
     ''<?xml version=\"1.0\" encoding=\"utf-8\"?>'' @
     ''<soap:Envelope'' @
     '' xmlns:soap=\"http://www.w3.org/2003/05/soap-envelope\"'' @
     '' xmlns:wsa=\"http://schemas.xmlsoap.org/ws/2004/08/addressing\"'' @
     '' xmlns:wsd=\"http://schemas.xmlsoap.org/ws/2005/04/discovery\"'' @
     '' xmlns:wsdp=\"http://schemas.xmlsoap.org/ws/2006/02/devprof\">'' @
     ''<soap:Header>'' @
     ''<wsa:Action>'' @
     ''http://schemas.xmlsoap.org/ws/2005/04/discovery/'' @ outer @
     ''</wsa:Action>'' @
     ''<wsa:MessageID>urn:uuid:'' @ uuid @ ''</wsa:MessageID>'' @
     ''<wsa:RelatesTo>'' @ (case relates_to of Some r \<Rightarrow> r | None \<Rightarrow> []) @ ''</wsa:RelatesTo>'' @
     ''<wsa:To>'' @
     ''http://schemas.xmlsoap.org/ws/2004/08/addressing/role/anonymous'' @
     ''</wsa:To>'' @
     ''<wsd:AppSequence InstanceId=\"14200\" MessageNumber=\"1\"/>'' @
     ''</soap:Header>'' @
     ''<soap:Body>'' @
     ''<wsd:'' @ outer @ ''>'' @
     ''<wsd:'' @ inner @ ''>'' @
     ''<wsa:EndpointReference>'' @
     ''<wsa:Address>urn:uuid:'' @ uuid @ ''</wsa:Address>'' @
     ''</wsa:EndpointReference>'' @
     (if given scopes then ''<wsd:Types>tns:NetworkVideoTransmitter</wsd:Types>'' else []) @
     (if given scopes then ''<wsd:Scopes>'' else []) @
     (if given scopes then (case scopes of Some s \<Rightarrow> s | None \<Rightarrow> []) else []) @
     (if given scopes then ''</wsd:Scopes>'' else []) @
     ''<wsd:XAddrs>http://'' @ ip @ '':'' @ show_nat port @ ''/onvif/device_service</wsd:XAddrs>'' @
     ''<wsd:MetadataVersion>2</wsd:MetadataVersion>'' @
     ''</wsd:'' @ inner @ ''>'' @
     ''</wsd:'' @ outer @ ''>'' @
     ''</soap:Body>'' @
     ''</soap:Envelope>'')"

definition onvif_probe_build_matches ::
  "nat \<Rightarrow> string option \<Rightarrow> string \<Rightarrow> string \<Rightarrow> nat \<Rightarrow> string option \<Rightarrow> int \<times> string" where
  "onvif_probe_build_matches n relates_to uuid ip port scopes =
     build_matches_family n ''ProbeMatches'' ''ProbeMatch'' relates_to uuid ip port scopes"

definition onvif_probe_build_resolve_matches ::
  "nat \<Rightarrow> string option \<Rightarrow> string \<Rightarrow> string \<Rightarrow> nat \<Rightarrow> int \<times> string" where
  "onvif_probe_build_resolve_matches n relates_to uuid ip port =
     build_matches_family n ''ResolveMatches'' ''ResolveMatch'' relates_to uuid ip port (Some [])"

definition onvif_probe_build_hello :: "nat \<Rightarrow> string \<Rightarrow> string \<Rightarrow> nat \<Rightarrow> string \<Rightarrow> int \<times> string" where
  "onvif_probe_build_hello n uuid ip port scopes = snprintf n (
     ''<?xml version=\"1.0\" encoding=\"utf-8\"?>'' @
     ''<soap:Envelope'' @
     '' xmlns:soap=\"http://www.w3.org/2003/05/soap-envelope\"'' @
     '' xmlns:wsa=\"http://schemas.xmlsoap.org/ws/2004/08/addressing\"'' @
     '' xmlns:wsd=\"http://schemas.xmlsoap.org/ws/2005/04/discovery\"'' @
     '' xmlns:wsdp=\"http://schemas.xmlsoap.org/ws/2006/02/devprof\">'' @
     ''<soap:Header>'' @
     ''<wsa:Action>'' @
     ''http://schemas.xmlsoap.org/ws/2005/04/discovery/Hello'' @
     ''</wsa:Action>'' @
     ''<wsa:MessageID>urn:uuid:'' @ uuid @ ''</wsa:MessageID>'' @
     ''<wsa:To>'' @
     ''urn:schemas-xmlsoap-org:ws:2005:04:discovery'' @
     ''</wsa:To>'' @
     ''<wsd:AppSequence InstanceId=\"14200\" MessageNumber=\"1\"/>'' @
     ''</soap:Header>'' @
     ''<soap:Body>'' @
     ''<wsd:Hello>'' @
     ''<wsa:EndpointReference>'' @
     ''<wsa:Address>urn:uuid:'' @ uuid @ ''</wsa:Address>'' @
     ''</wsa:EndpointReference>'' @
     ''<wsd:Types>tns:NetworkVideoTransmitter</wsd:Types>'' @
     ''<wsd:Scopes>'' @ scopes @ ''</wsd:Scopes>'' @
     ''<wsd:XAddrs>http://'' @ ip @ '':'' @ show_nat port @ ''/onvif/device_service</wsd:XAddrs>'' @
     ''<wsd:MetadataVersion>2</wsd:MetadataVersion>'' @
     ''</wsd:Hello>'' @
     ''</soap:Body>'' @
     ''</soap:Envelope>'')"

definition onvif_probe_build_bye :: "nat \<Rightarrow> string \<Rightarrow> int \<times> string" where
  "onvif_probe_build_bye n uuid = snprintf n (
     ''<?xml version=\"1.0\" encoding=\"utf-8\"?>'' @
     ''<soap:Envelope'' @
     '' xmlns:soap=\"http://www.w3.org/2003/05/soap-envelope\"'' @
     '' xmlns:wsa=\"http://schemas.xmlsoap.org/ws/2004/08/addressing\"'' @
     '' xmlns:wsd=\"http://schemas.xmlsoap.org/ws/2005/04/discovery\">'' @
     ''<soap:Header>'' @
     ''<wsa:MessageID>urn:uuid:'' @ uuid @ ''</wsa:MessageID>'' @
     ''<wsa:To>urn:schemas-xmlsoap-org:ws:2005:04:discovery</wsa:To>'' @
     ''<wsa:Action>http://schemas.xmlsoap.org/ws/2005/04/discovery/Bye</wsa:Action>'' @
     ''<wsd:AppSequence InstanceId=\"1\" MessageNumber=\"2\"/>'' @
     ''</soap:Header>'' @
     ''<soap:Body>'' @
     ''<wsd:Bye>'' @
     ''<wsa:EndpointReference>'' @
     ''<wsa:Address>urn:uuid:'' @ uuid @ ''</wsa:Address>'' @
     ''</wsa:EndpointReference>'' @
     ''</wsd:Bye>'' @
     ''</soap:Body>'' @
     ''</soap:Envelope>'')"


section \<open>The documents they promise\<close>

definition discovery_namespaces :: "(string \<times> string) list" where
  "discovery_namespaces =
     [(''xmlns:soap'', ''http://www.w3.org/2003/05/soap-envelope''),
      (''xmlns:wsa'', ''http://schemas.xmlsoap.org/ws/2004/08/addressing''),
      (''xmlns:wsd'', ''http://schemas.xmlsoap.org/ws/2005/04/discovery'')]"

definition endpoint_doc :: "string \<Rightarrow> xml" where
  "endpoint_doc uuid = Node ''wsa:EndpointReference'' [] [Leaf ''wsa:Address'' [] (''urn:uuid:'' @ uuid)]"

definition xaddrs_docs :: "string \<Rightarrow> nat \<Rightarrow> xml list" where
  "xaddrs_docs ip port =
     [Leaf ''wsd:XAddrs'' [] (''http://'' @ ip @ '':'' @ show_nat port @ ''/onvif/device_service''),
      Leaf ''wsd:MetadataVersion'' [] ''2'']"

definition matches_doc :: "string \<Rightarrow> string \<Rightarrow> string \<Rightarrow> string \<Rightarrow> string \<Rightarrow> nat \<Rightarrow> string \<Rightarrow> xml" where
  "matches_doc outer inner relates_to uuid ip port scopes =
   Node ''soap:Envelope'' (discovery_namespaces @ [(''xmlns:wsdp'', ''http://schemas.xmlsoap.org/ws/2006/02/devprof'')]) [
     Node ''soap:Header'' [] [
       Leaf ''wsa:Action'' [] (''http://schemas.xmlsoap.org/ws/2005/04/discovery/'' @ outer),
       Leaf ''wsa:MessageID'' [] (''urn:uuid:'' @ uuid),
       Leaf ''wsa:RelatesTo'' [] relates_to,
       Leaf ''wsa:To'' [] ''http://schemas.xmlsoap.org/ws/2004/08/addressing/role/anonymous'',
       Empty ''wsd:AppSequence'' [(''InstanceId'', ''14200''), (''MessageNumber'', ''1'')]],
     Node ''soap:Body'' [] [
       Node (''wsd:'' @ outer) [] [
         Node (''wsd:'' @ inner) [] (endpoint_doc uuid #
           (if scopes = [] then [] else
             [Leaf ''wsd:Types'' [] ''tns:NetworkVideoTransmitter'', Leaf ''wsd:Scopes'' [] scopes]) @
           xaddrs_docs ip port)]]]"

definition hello_doc :: "string \<Rightarrow> string \<Rightarrow> nat \<Rightarrow> string \<Rightarrow> xml" where
  "hello_doc uuid ip port scopes =
   Node ''soap:Envelope'' (discovery_namespaces @ [(''xmlns:wsdp'', ''http://schemas.xmlsoap.org/ws/2006/02/devprof'')]) [
     Node ''soap:Header'' [] [
       Leaf ''wsa:Action'' [] ''http://schemas.xmlsoap.org/ws/2005/04/discovery/Hello'',
       Leaf ''wsa:MessageID'' [] (''urn:uuid:'' @ uuid),
       Leaf ''wsa:To'' [] ''urn:schemas-xmlsoap-org:ws:2005:04:discovery'',
       Empty ''wsd:AppSequence'' [(''InstanceId'', ''14200''), (''MessageNumber'', ''1'')]],
     Node ''soap:Body'' [] [
       Node ''wsd:Hello'' [] (endpoint_doc uuid #
         [Leaf ''wsd:Types'' [] ''tns:NetworkVideoTransmitter'', Leaf ''wsd:Scopes'' [] scopes] @
         xaddrs_docs ip port)]]"

definition bye_doc :: "string \<Rightarrow> xml" where
  "bye_doc uuid =
   Node ''soap:Envelope'' discovery_namespaces [
     Node ''soap:Header'' [] [
       Leaf ''wsa:MessageID'' [] (''urn:uuid:'' @ uuid),
       Leaf ''wsa:To'' [] ''urn:schemas-xmlsoap-org:ws:2005:04:discovery'',
       Leaf ''wsa:Action'' [] ''http://schemas.xmlsoap.org/ws/2005/04/discovery/Bye'',
       Empty ''wsd:AppSequence'' [(''InstanceId'', ''1''), (''MessageNumber'', ''2'')]],
     Node ''soap:Body'' [] [
       Node ''wsd:Bye'' [] [endpoint_doc uuid]]]"

lemmas discovery_docs = matches_doc_def hello_doc_def bye_doc_def discovery_namespaces_def endpoint_doc_def xaddrs_docs_def

lemma matches_renders:
  "renders n (build_matches_family n outer inner relates_to uuid ip port scopes)
     (render_doc ''utf-8'' (matches_doc outer inner (case relates_to of Some r \<Rightarrow> r | None \<Rightarrow> []) uuid ip port
       (case scopes of Some s \<Rightarrow> s | None \<Rightarrow> [])))"
proof (cases "given scopes")
  case True
  then obtain s where "scopes = Some s" "s \<noteq> []" by (auto simp: given_def split: option.splits)
  then show ?thesis by (simp add: build_matches_family_def given_def discovery_docs render_doc_def renders_snprintf)
next
  case False
  then have "(case scopes of Some s \<Rightarrow> s | None \<Rightarrow> []) = []" by (auto simp: given_def split: option.splits)
  with False show ?thesis by (simp add: build_matches_family_def discovery_docs render_doc_def renders_snprintf)
qed

lemma hello_renders:
  "renders n (onvif_probe_build_hello n uuid ip port scopes) (render_doc ''utf-8'' (hello_doc uuid ip port scopes))"
  by (simp add: onvif_probe_build_hello_def discovery_docs render_doc_def renders_snprintf)

lemma bye_renders:
  "renders n (onvif_probe_build_bye n uuid) (render_doc ''utf-8'' (bye_doc uuid))"
  by (simp add: onvif_probe_build_bye_def discovery_docs render_doc_def renders_snprintf)

lemma discovery_lengths:
  "length (render_doc ''utf-8'' (matches_doc ''ProbeMatches'' ''ProbeMatch'' r uuid ip port scopes)) =
     894 + length r + 2 * length uuid + length ip + length (show_nat port) +
     (if scopes = [] then 0 else 75 + length scopes)"
  "length (render_doc ''utf-8'' (matches_doc ''ResolveMatches'' ''ResolveMatch'' r uuid ip port [])) =
     904 + length r + 2 * length uuid + length ip + length (show_nat port)"
  "length (render_doc ''utf-8'' (hello_doc uuid ip port scopes)) =
     865 + 2 * length uuid + length ip + length (show_nat port) + length scopes"
  "length (render_doc ''utf-8'' (bye_doc uuid)) = 623 + 2 * length uuid"
  by (simp_all add: discovery_docs render_doc_def)

lemma matches_ok:
  assumes "(outer, inner) = (''ProbeMatches'', ''ProbeMatch'') \<or> (outer, inner) = (''ResolveMatches'', ''ResolveMatch'')"
    and "text_ok r" "text_ok uuid" "text_ok ip" "text_ok scopes"
  shows "xml_ok (matches_doc outer inner r uuid ip port scopes)" and "ns_ok [] (matches_doc outer inner r uuid ip port scopes)"
  using assms by (auto simp: discovery_docs xml_check prefix_of_def declared_def)

lemma hello_ok:
  assumes "text_ok uuid" "text_ok ip" "text_ok scopes"
  shows "xml_ok (hello_doc uuid ip port scopes)" and "ns_ok [] (hello_doc uuid ip port scopes)"
  using assms by (simp_all add: discovery_docs xml_check prefix_of_def declared_def)

lemma bye_ok: "text_ok uuid \<Longrightarrow> xml_ok (bye_doc uuid)" "ns_ok [] (bye_doc uuid)"
  by (simp_all add: discovery_docs xml_check prefix_of_def declared_def)


section \<open>What the device reads\<close>

lemma message_id_bounds:
  "onvif_probe_message_id body n = Some r \<Longrightarrow> 0 < length r \<and> length r < n \<and> text_ok r"
proof -
  assume r: "onvif_probe_message_id body n = Some r"
  then obtain tag gt lt where *: "strstr body ''MessageID'' = Some tag" "strchr tag (CHR ''>'') = Some gt"
    "strchr (tl gt) (CHR ''<'') = Some lt" "length (tl gt) - length lt \<noteq> 0" "length (tl gt) - length lt < n"
    "r = take (length (tl gt) - length lt) (tl gt)"
    by (auto simp: onvif_probe_message_id_def Let_def simp del: strchr_None_iff split: option.splits if_splits)
  have "CHR ''<'' \<notin> set (take (length s - length lt) s)" if "strchr s (CHR ''<'') = Some lt" for s
    using that
  proof (induction s)
    case (Cons x xs)
    show ?case
    proof (cases "x = CHR ''<''")
      case False
      then have "strchr xs (CHR ''<'') = Some lt" using Cons.prems by simp
      then have "length lt \<le> length xs" "CHR ''<'' \<notin> set (take (length xs - length lt) xs)"
        using strchr_length Cons.IH by auto
      then show ?thesis using False by (simp add: Suc_diff_le)
    qed (use Cons.prems in auto)
  qed simp
  from this [OF *(3)] show ?thesis using *(4-6) strchr_length [OF *(3)] by (simp add: text_ok_def del: length_tl)
qed

text \<open>A client's probe: its message id and types are texts without NUL and \<open><\<close> in which the words that
  mark other messages do not occur.\<close>

definition probe_request :: "string \<Rightarrow> string \<Rightarrow> string" where
  "probe_request message_id types =
     ''<?xml version=\"1.0\" encoding=\"UTF-8\"?>'' @
     ''<e:Envelope xmlns:e=\"http://www.w3.org/2003/05/soap-envelope\" xmlns:w=\"http://schemas.xmlsoap.org/ws/2004/08/addressing\" xmlns:d=\"http://schemas.xmlsoap.org/ws/2005/04/discovery\">'' @
     ''<e:Header><w:MessageID>'' @ message_id @ ''</w:MessageID>'' @
     ''<w:To>urn:schemas-xmlsoap-org:ws:2005:04:discovery</w:To>'' @
     ''<w:Action>http://schemas.xmlsoap.org/ws/2005/04/discovery/Probe</w:Action></e:Header>'' @
     ''<e:Body><d:Probe><d:Types>'' @ types @ ''</d:Types></d:Probe></e:Body></e:Envelope>''"

definition probe_text :: "string \<Rightarrow> bool" where
  "probe_text s \<longleftrightarrow> CHR ''<'' \<notin> set s \<and> NUL \<notin> set s \<and> \<not> contains s ''ProbeMatches'' \<and> \<not> contains s '':Resolve''"

lemma probe_request_id:
  assumes "probe_text i" and "0 < length i" and "length i < n"
  shows "onvif_probe_message_id (probe_request i types) n = Some i"
  using assms by (simp add: onvif_probe_message_id_def probe_request_def probe_text_def Let_def)

lemma contains_Nil: "\<not> contains [] (c # p)"
  by (simp add: contains_def)

text \<open>A word without \<open><\<close> lies on one side of a \<open><\<close>.\<close>

lemma contains_break:
  assumes "CHR ''<'' \<notin> set (c # w)"
  shows "contains (a @ CHR ''<'' # r) (c # w) \<longleftrightarrow> contains a (c # w) \<or> contains r (c # w)"
proof (induction a)
  case Nil
  then show ?case using assms by (auto simp: contains_Cons contains_Nil)
next
  case (Cons x a)
  have "prefix (c # w) (x # a @ CHR ''<'' # r) \<longleftrightarrow> prefix (c # w) (x # a)"
  proof -
    have "prefix v (b @ CHR ''<'' # r) \<longleftrightarrow> prefix v b" if "CHR ''<'' \<notin> set v" for v b
      using that
    proof (induction v arbitrary: b)
      case (Cons y v)
      then show ?case by (cases b) auto
    qed simp
    from this [of "c # w" "x # a"] assms show ?thesis by simp
  qed
  with Cons show ?case by (simp add: contains_Cons)
qed

lemma probe_request_kind:
  assumes "probe_text i" and "probe_text types"
  shows "onvif_probe_is_probe (probe_request i types)" and "\<not> onvif_probe_is_resolve (probe_request i types)"
proof -
  have no: "\<not> contains (probe_request i types) ''ProbeMatches''" "\<not> contains (probe_request i types) '':Resolve''"
    using assms by (simp_all add: probe_request_def contains_Cons contains_break probe_text_def contains_Nil)
  have "contains (probe_request i types) '':Probe''"
    using assms by (simp add: probe_request_def contains_Cons contains_append_right)
  then show "onvif_probe_is_probe (probe_request i types)" using no by (simp add: onvif_probe_is_probe_def)
  show "\<not> onvif_probe_is_resolve (probe_request i types)" using no by (simp add: onvif_probe_is_resolve_def)
qed

end
