(* ===== verification/Port_Base.thy ===== *)
theory Port_Base
  imports Onvif_Prelude
begin

text \<open>
  The ground the ESP-IDF port stands on (\<open>include/onvif_c.h\<close>, \<open>esp_idf/onvif_c_service.c\<close>): error
  codes, the integrator's configuration, what the platform contributes to one request, and the
  effects a handler has on the outside.

  A configuration callback is represented by what it answers for the request at hand: \<open>None\<close> is a
  NULL function pointer, \<open>Some\<close> the answer.  Callbacks that act (\<open>time_apply\<close>, \<open>ntp_set\<close>,
  \<open>on_keyframe\<close>) also leave an effect.  The platform's functions are arguments: the clock, whether
  each allocation succeeds, the pieces that \<open>httpd_req_recv\<close> hands out, \<open>esp_err_to_name\<close>.
\<close>

section \<open>Error codes\<close>

type_synonym esp_err = int

definition ESP_OK :: esp_err where "ESP_OK = 0"
definition ESP_FAIL :: esp_err where "ESP_FAIL = -1"
definition ESP_ERR_NO_MEM :: esp_err where "ESP_ERR_NO_MEM = 0x101"
definition ESP_ERR_INVALID_ARG :: esp_err where "ESP_ERR_INVALID_ARG = 0x102"
definition ESP_ERR_HTTPD_HANDLER_EXISTS :: esp_err where "ESP_ERR_HTTPD_HANDLER_EXISTS = 0x6604"

lemmas esp_codes = ESP_OK_def ESP_FAIL_def ESP_ERR_NO_MEM_def ESP_ERR_INVALID_ARG_def
  ESP_ERR_HTTPD_HANDLER_EXISTS_def


section \<open>Configuration\<close>

record 'r onvif_c_config =
  cfg_manufacturer :: "string option"
  cfg_model :: "string option"
  cfg_hardware_id :: "string option"
  cfg_firmware_version :: "string option"
  cfg_serial :: "string option"
  cfg_uuid :: "string option"
  cfg_ip :: "string option option"
  cfg_stream_uri :: "string option"
  cfg_snapshot_uri :: "string option"
  cfg_frame_rate :: "byte option"
  cfg_on_keyframe :: bool
  cfg_auth_password :: "string option option"
  cfg_auth_username :: "string option"
  cfg_auth_window_secs :: "16 word"
  cfg_auth_allow_password_text :: bool
  cfg_events_enabled :: "bool option"
  cfg_time_ntp_active :: "bool option"
  cfg_time_tz :: "string option option"
  cfg_time_apply :: "('r \<Rightarrow> esp_err) option"
  cfg_ntp_set :: "(string list \<Rightarrow> esp_err) option"
  cfg_http_port :: "16 word"
  cfg_wdt_watch_discovery :: bool
  cfg_mdns_hostname :: "string option"
  cfg_mdns_instance :: "string option"
  cfg_scopes :: "string option"

text \<open>A string field used as such; \<open>onvif_c_start\<close> and \<open>onvif_c_cfg_set\<close> leave none of those used
  in a message NULL.\<close>

definition c_text :: "string option \<Rightarrow> string" where
  "c_text s = (case s of None \<Rightarrow> [] | Some t \<Rightarrow> t)"

definition default_to :: "string \<Rightarrow> string option \<Rightarrow> string option" where
  "default_to d s = (case s of None \<Rightarrow> Some d | Some t \<Rightarrow> Some t)"

definition default_scopes_text :: "string \<Rightarrow> string" where
  "default_scopes_text model =
     ''onvif://www.onvif.org/type/video_encoder '' @
     ''onvif://www.onvif.org/type/NetworkVideoTransmitter '' @
     ''onvif://www.onvif.org/hardware/'' @ model @ '' '' @
     ''onvif://www.onvif.org/name/'' @ model @ '' '' @
     ''onvif://www.onvif.org/Profile/Streaming''"

definition onvif_c_cfg_set :: "'r onvif_c_config \<Rightarrow> 'r onvif_c_config" where
  "onvif_c_cfg_set cfg =
     (let c = cfg\<lparr>cfg_manufacturer := default_to ''MiBee'' (cfg_manufacturer cfg),
                 cfg_model := default_to ''MiBeeCam'' (cfg_model cfg),
                 cfg_hardware_id := default_to ''ESP32'' (cfg_hardware_id cfg),
                 cfg_firmware_version := default_to ''v0.1.0'' (cfg_firmware_version cfg),
                 cfg_http_port := (if cfg_http_port cfg = 0 then 80 else cfg_http_port cfg)\<rparr>
      in case cfg_scopes c of
           None \<Rightarrow> c\<lparr>cfg_scopes := Some (snd (snprintf 256 (default_scopes_text (c_text (cfg_model c)))))\<rparr>
         | Some _ \<Rightarrow> c)"

definition onvif_c_cfg_ip :: "'r onvif_c_config \<Rightarrow> string" where
  "onvif_c_cfg_ip cfg =
     (case cfg_ip cfg of
        Some (Some ip) \<Rightarrow> if ip \<noteq> ''0.0.0.0'' then ip else ''0.0.0.0''
      | _ \<Rightarrow> ''0.0.0.0'')"

definition onvif_c_cfg_has_events :: "'r onvif_c_config \<Rightarrow> bool" where
  "onvif_c_cfg_has_events cfg = (cfg_events_enabled cfg \<noteq> None)"

definition cfg_port :: "'r onvif_c_config \<Rightarrow> nat" where
  "cfg_port cfg = unat (cfg_http_port cfg)"


section \<open>One request\<close>

text \<open>What the platform contributes: the clock, and whether the allocations of the response, of the
  fallback fault and of the 401 response succeed, what \<open>httpd_resp_send\<close> returns where a handler passes it on.\<close>

record env =
  env_now :: int
  env_mem_resp :: bool
  env_mem_fault :: bool
  env_mem_deny :: bool
  env_send_ret :: esp_err
  env_err_name :: "esp_err \<Rightarrow> string"

text \<open>The announced length, the pieces handed out by \<open>httpd_req_recv\<close> (the empty one stands for a
  result of 0 or below; after the last piece the connection fails), and the body allocation.\<close>

record request =
  req_len :: nat
  req_pieces :: "string list"
  req_mem :: bool

definition ONVIF_C_BODY_MAX :: nat where "ONVIF_C_BODY_MAX = 4096"
definition ONVIF_C_RESP_MAX :: nat where "ONVIF_C_RESP_MAX = 4096"

text \<open>The receive loop: a piece is at most as long as the rest that was asked for.\<close>

fun recv_loop :: "nat \<Rightarrow> string \<Rightarrow> string list \<Rightarrow> string option" where
  "recv_loop len buf [] = (if length buf < len then None else Some buf)"
| "recv_loop len buf (piece # ps) =
     (if length buf < len
      then (if piece = [] then None else recv_loop len (buf @ take (len - length buf) piece) ps)
      else Some buf)"

definition read_body :: "request \<Rightarrow> string option" where
  "read_body req =
     (if req_len req = 0 \<or> ONVIF_C_BODY_MAX < req_len req then None
      else if \<not> req_mem req then None
      else map_option c_str (recv_loop (req_len req) [] (req_pieces req)))"


section \<open>Effects\<close>

text \<open>\<open>Send status len buf\<close> hands \<open>len\<close> bytes of a buffer with the text \<open>buf\<close> to \<open>httpd_resp_send\<close>.\<close>

datatype 'r effect =
    Send nat int string
  | Keyframe
  | Time_Apply 'r
  | Ntp_Set "string list"
  | Log_Unsupported string

type_synonym 'r outcome = "esp_err \<times> 'r effect list"

text \<open>A send that stays within its buffer's text and is not empty.\<close>

fun send_in_bounds :: "'r effect \<Rightarrow> bool" where
  "send_in_bounds (Send st len buf) \<longleftrightarrow> 0 < len \<and> len = int (length buf)"
| "send_in_bounds _ \<longleftrightarrow> True"

fun is_send :: "'r effect \<Rightarrow> bool" where
  "is_send (Send st len buf) = True"
| "is_send _ = False"


section \<open>Reading a body\<close>

lemma recv_loop_pieces:
  assumes "[] \<notin> set ps" and "length buf + length (concat ps) = len"
  shows "recv_loop len buf ps = Some (buf @ concat ps)"
  using assms
proof (induction ps arbitrary: buf)
  case (Cons p ps)
  then have "recv_loop len (buf @ p) ps = Some ((buf @ p) @ concat ps)" by (intro Cons.IH) auto
  then show ?case using Cons.prems by (cases "p = []") auto
qed simp

lemma recv_loop_length: "recv_loop len buf ps = Some r \<Longrightarrow> length buf \<le> len \<Longrightarrow> length r = len"
  by (induction ps arbitrary: buf) (auto split: if_splits)

lemma recv_loop_short:
  assumes "length buf + length (concat ps) < len"
  shows "recv_loop len buf ps = None"
  using assms by (induction ps arbitrary: buf) auto


section \<open>Properties\<close>

text \<open>
  A body arrives whole however the transport cuts it: if the pieces are non-empty and together
  as long as announced (1 to 4096 bytes), the handler sees exactly their concatenation (up to the
  first NUL); an empty or oversized announcement and a stream that ends early give no body.
\<close>

theorem read_body_reassembles:
  "(req_mem req \<and> [] \<notin> set (req_pieces req) \<and> length (concat (req_pieces req)) = req_len req \<and>
      0 < req_len req \<and> req_len req \<le> ONVIF_C_BODY_MAX \<longrightarrow>
      read_body req = Some (c_str (concat (req_pieces req)))) \<and>
   (req_len req = 0 \<or> ONVIF_C_BODY_MAX < req_len req \<or> length (concat (req_pieces req)) < req_len req \<longrightarrow>
      read_body req = None)"
  by (auto simp: read_body_def recv_loop_pieces recv_loop_short)

theorem read_body_reassembles_witness:
  "read_body \<lparr>req_len = 5, req_pieces = [''he'', ''l'', ''lo''], req_mem = True\<rparr> = Some ''hello'' \<and>
     read_body \<lparr>req_len = 5, req_pieces = [''he'', ''l''], req_mem = True\<rparr> = None"
  using read_body_reassembles [of "\<lparr>req_len = 5, req_pieces = [''he'', ''l'', ''lo''], req_mem = True\<rparr>"]
    read_body_reassembles [of "\<lparr>req_len = 5, req_pieces = [''he'', ''l''], req_mem = True\<rparr>"]
  by (simp add: ONVIF_C_BODY_MAX_def c_str_def)

text \<open>
  After \<open>onvif_c_cfg_set\<close> every text that the messages use is present, the port is never 0,
  nothing the integrator did set is changed, and default scopes that fit 255 characters name the model twice.
\<close>

theorem cfg_set_resolves:
  "cfg_manufacturer (onvif_c_cfg_set cfg) \<noteq> None \<and> cfg_model (onvif_c_cfg_set cfg) \<noteq> None \<and>
   cfg_hardware_id (onvif_c_cfg_set cfg) \<noteq> None \<and> cfg_firmware_version (onvif_c_cfg_set cfg) \<noteq> None \<and>
   cfg_scopes (onvif_c_cfg_set cfg) \<noteq> None \<and> 0 < cfg_port (onvif_c_cfg_set cfg) \<and>
   (\<forall>m. cfg_model cfg = Some m \<longrightarrow> cfg_model (onvif_c_cfg_set cfg) = Some m) \<and>
   (\<forall>s. cfg_scopes cfg = Some s \<longrightarrow> cfg_scopes (onvif_c_cfg_set cfg) = Some s) \<and>
   length (c_text (cfg_scopes (onvif_c_cfg_set cfg))) \<le> max 255 (length (c_text (cfg_scopes cfg))) \<and>
   (cfg_scopes cfg = None \<and> length (c_text (cfg_model (onvif_c_cfg_set cfg))) \<le> 30 \<longrightarrow>
      cfg_scopes (onvif_c_cfg_set cfg) = Some (default_scopes_text (c_text (cfg_model (onvif_c_cfg_set cfg)))))"
  by (auto simp: onvif_c_cfg_set_def default_to_def c_text_def cfg_port_def default_scopes_text_def snprintf_def
      Let_def unat_gt_0 split: option.splits)

definition cfg_minimal :: "'r onvif_c_config" where
  "cfg_minimal = \<lparr>cfg_manufacturer = None, cfg_model = None, cfg_hardware_id = None, cfg_firmware_version = None,
     cfg_serial = Some ''0042'', cfg_uuid = Some ''f472b01e-0000-1000-8000-aabbccddeeff'',
     cfg_ip = Some (Some ''10.0.0.2''), cfg_stream_uri = Some ''rtsp://10.0.0.2:554/live'', cfg_snapshot_uri = None,
     cfg_frame_rate = None, cfg_on_keyframe = True, cfg_auth_password = None, cfg_auth_username = None,
     cfg_auth_window_secs = 0, cfg_auth_allow_password_text = False, cfg_events_enabled = Some True,
     cfg_time_ntp_active = None, cfg_time_tz = None, cfg_time_apply = None, cfg_ntp_set = None,
     cfg_http_port = 0, cfg_wdt_watch_discovery = False, cfg_mdns_hostname = None, cfg_mdns_instance = None,
     cfg_scopes = None\<rparr>"

theorem cfg_set_resolves_witness:
  "cfg_scopes (onvif_c_cfg_set (cfg_minimal :: nat onvif_c_config)) = Some (default_scopes_text ''MiBeeCam'') \<and>
     cfg_port (onvif_c_cfg_set (cfg_minimal :: nat onvif_c_config)) = 80"
proof -
  have m: "cfg_model (onvif_c_cfg_set (cfg_minimal :: nat onvif_c_config)) = Some ''MiBeeCam''"
    by (simp add: onvif_c_cfg_set_def cfg_minimal_def default_to_def Let_def)
  have "cfg_port (onvif_c_cfg_set (cfg_minimal :: nat onvif_c_config)) = 80"
    by (simp add: onvif_c_cfg_set_def cfg_minimal_def Let_def cfg_port_def)
  with m cfg_set_resolves [of "cfg_minimal :: nat onvif_c_config"] show ?thesis
    by (simp add: c_text_def cfg_minimal_def)
qed

end
