(* ===== verification/Time_Request.thy ===== *)
theory Time_Request
  imports Calendar
begin

text \<open>
  \<open>core/onvif_time.c\<close>: the parsers of \<open>SetSystemDateAndTime\<close> and \<open>SetNTP\<close>.  A pointer into the
  body is the suffix it points at.  An end pointer is the number of characters left behind it, so
  that \<open>p < end\<close> is \<open>e < length p\<close> and \<open>end - p\<close> is \<open>length p - e\<close>.
\<close>

section \<open>Tag names\<close>

definition c_isalpha :: "char \<Rightarrow> bool" where
  "c_isalpha c \<longleftrightarrow> (65 \<le> (of_char c :: nat) \<and> (of_char c :: nat) \<le> 90) \<or>
     (97 \<le> (of_char c :: nat) \<and> (of_char c :: nat) \<le> 122)"

definition c_isalnum :: "char \<Rightarrow> bool" where
  "c_isalnum c \<longleftrightarrow> c_isalpha c \<or> c_isdigit c"

definition ident_char :: "char \<Rightarrow> bool" where
  "ident_char c \<longleftrightarrow> c_isalnum c \<or> c = CHR ''_'' \<or> c = CHR ''.'' \<or> c = CHR ''-''"

definition scan_ident :: "string \<Rightarrow> string" where
  "scan_ident q = dropWhile ident_char q"

text \<open>The start of the local name and the character after it.\<close>

definition split_name :: "string \<Rightarrow> string \<times> string" where
  "split_name tag =
     (let q = scan_ident tag
      in if q \<noteq> [] \<and> hd q = CHR '':'' then (tl q, scan_ident (tl q)) else (tag, q))"

definition tag_is :: "string \<Rightarrow> string \<Rightarrow> bool" where
  "tag_is tag local =
     (let (name, name_end) = split_name tag
      in length name - length name_end = length local \<and> take (length local) name = local \<and>
         name_end \<noteq> [] \<and> hd name_end = CHR ''>'')"

text \<open>What follows an open tag of the given local name, at the character after its \<open><\<close>.\<close>

definition open_tag :: "string \<Rightarrow> string \<Rightarrow> string option" where
  "open_tag q local =
     (if q = [] \<or> \<not> (c_isalpha (hd q) \<or> hd q = CHR ''_'') then None
      else if tag_is q local then Some (tl (snd (split_name q))) else None)"


section \<open>Scopes and leaves\<close>

function find_close :: "string \<Rightarrow> string \<Rightarrow> nat" where
  "find_close s local =
     (case strchr s (CHR ''<'') of
        None \<Rightarrow> 0
      | Some c \<Rightarrow>
          if tl c \<noteq> [] \<and> hd (tl c) = CHR ''/'' \<and> tag_is (tl (tl c)) local then length c
          else find_close (tl c) local)"
  by pat_completeness auto
termination
  by (relation "measure (\<lambda>(s, local). length s)") (auto simp del: length_tl dest: strchr_tl_less)

function elem_scope :: "string \<Rightarrow> string \<Rightarrow> (string \<times> nat) option" where
  "elem_scope hay local =
     (case strchr hay (CHR ''<'') of
        None \<Rightarrow> None
      | Some p \<Rightarrow>
          (case open_tag (tl p) local of
             Some text \<Rightarrow> Some (text, find_close text local)
           | None \<Rightarrow> elem_scope (tl p) local))"
  by pat_completeness auto
termination
  by (relation "measure (\<lambda>(s, local). length s)") (auto simp del: length_tl dest: strchr_tl_less)

text \<open>The length of the text up to the next \<open><\<close> before the end.\<close>

definition leaf_len :: "string \<Rightarrow> nat \<Rightarrow> nat" where
  "leaf_len text e = length (takeWhile (\<lambda>c. c \<noteq> CHR ''<'') (take (length text - e) text))"

text \<open>The first search is a \<open>memchr\<close> up to the end, the next ones are \<open>strchr\<close> with the loop
  condition \<open>p < end\<close>; both stop the loop at the first \<open><\<close> that is not before the end.\<close>

function leaf_text :: "string \<Rightarrow> nat \<Rightarrow> string \<Rightarrow> (string \<times> nat) option" where
  "leaf_text scope e local =
     (case strchr scope (CHR ''<'') of
        None \<Rightarrow> None
      | Some p \<Rightarrow>
          if length p \<le> e then None
          else (case open_tag (tl p) local of
             Some text \<Rightarrow> Some (text, leaf_len text e)
           | None \<Rightarrow> leaf_text (tl p) e local))"
  by pat_completeness auto
termination
  by (relation "measure (\<lambda>(s, e, local). length s)") (auto simp del: length_tl dest: strchr_tl_less)

declare find_close.simps [simp del] elem_scope.simps [simp del] leaf_text.simps [simp del]


section \<open>Numbers\<close>

text \<open>\<open>strtol\<close> in base 10: the value and the first character not consumed (the whole text when
  there is no number).\<close>

definition strtol :: "string \<Rightarrow> int \<times> string" where
  "strtol s =
     (let (sg, s2) = scan_sign (dropWhile c_isspace s); ds = takeWhile c_isdigit s2
      in if ds = [] then (0, s) else (sg * dec_val ds, drop (length ds) s2))"

definition parse_num :: "string \<Rightarrow> nat \<Rightarrow> int \<Rightarrow> int \<Rightarrow> int option" where
  "parse_num s len lo hi =
     (if len = 0 \<or> 5 < len then None
      else (let (v, endp) = strtol (take len s)
            in if endp \<noteq> [] \<or> v < lo \<or> hi < v then None else Some v))"


section \<open>\<open>SetSystemDateAndTime\<close>\<close>

record onvif_c_time_req =
  ntp_mode :: bool
  has_utc :: bool
  utc_epoch :: int
  has_tz :: bool
  tz :: string

definition time_req_zero :: onvif_c_time_req where
  "time_req_zero = \<lparr>ntp_mode = False, has_utc = False, utc_epoch = 0, has_tz = False, tz = []\<rparr>"

text \<open>The time zone block; \<open>None\<close> is its early \<open>return false\<close>.\<close>

definition time_zone_part :: "string \<Rightarrow> onvif_c_time_req \<Rightarrow> onvif_c_time_req option" where
  "time_zone_part body out =
     (case elem_scope body ''TimeZone'' of
        None \<Rightarrow> Some out
      | Some (scope, tze) \<Rightarrow>
          (case (case leaf_text scope tze ''TZ'' of
                   None \<Rightarrow> leaf_text body 0 ''TZ''
                 | Some r \<Rightarrow> Some r) of
             None \<Rightarrow> None
           | Some (t, n) \<Rightarrow>
               Some (out\<lparr>tz := take (if 48 \<le> n then 47 else n) t, has_tz := True\<rparr>)))"

definition num_field :: "string \<Rightarrow> nat \<Rightarrow> string \<Rightarrow> int \<Rightarrow> int \<Rightarrow> int option" where
  "num_field us ue local lo hi =
     (case leaf_text us ue local of None \<Rightarrow> None | Some (t, l) \<Rightarrow> parse_num t l lo hi)"

definition utc_part :: "string \<Rightarrow> nat \<Rightarrow> int option" where
  "utc_part us ue =
     Option.bind (num_field us ue ''Year'' 1970 9999) (\<lambda>y.
     Option.bind (num_field us ue ''Month'' 1 12) (\<lambda>mo.
     Option.bind (num_field us ue ''Day'' 1 31) (\<lambda>d.
     Option.bind (num_field us ue ''Hour'' 0 23) (\<lambda>h.
     Option.bind (num_field us ue ''Minute'' 0 59) (\<lambda>mi.
     Option.bind (num_field us ue ''Second'' 0 60) (\<lambda>s.
     Some (days_from_civil y mo d * 86400 + h * 3600 + mi * 60 + s)))))))"

definition onvif_time_parse_set_request :: "string option \<Rightarrow> bool \<times> onvif_c_time_req" where
  "onvif_time_parse_set_request body0 =
     (case body0 of
        None \<Rightarrow> (False, time_req_zero)
      | Some body \<Rightarrow>
          (let out = time_req_zero\<lparr>ntp_mode :=
                 (case leaf_text body 0 ''DateTimeType'' of
                    None \<Rightarrow> False
                  | Some (dt, len) \<Rightarrow> len = 3 \<and> take 3 dt = ''NTP'')\<rparr>
           in case time_zone_part body out of
                None \<Rightarrow> (False, out)
              | Some out \<Rightarrow>
                  (case elem_scope body ''UTCDateTime'' of
                     None \<Rightarrow> (True, out)
                   | Some (us, ue) \<Rightarrow>
                       (case utc_part us ue of
                          None \<Rightarrow> (False, out)
                        | Some t \<Rightarrow> (True, out\<lparr>has_utc := True, utc_epoch := t\<rparr>)))))"


section \<open>\<open>SetNTP\<close>\<close>

definition onvif_time_is_set_ntp :: "string option \<Rightarrow> bool" where
  "onvif_time_is_set_ntp body = (case body of None \<Rightarrow> False | Some b \<Rightarrow> contains b ''SetNTP'')"

definition ONVIF_TIME_HOST_MAX :: nat where
  "ONVIF_TIME_HOST_MAX = 46"

text \<open>One occurrence \<open>p\<close> of the name: the loop body, with its three \<open>continue\<close>s.\<close>

definition ntp_at :: "string \<Rightarrow> string \<Rightarrow> string \<Rightarrow> string list \<Rightarrow> string list" where
  "ntp_at body local p out =
     (let i = length body - length p; q = drop (length local) p in
      if 0 < i \<and> (c_isalnum (body ! (i - 1)) \<or> body ! (i - 1) = CHR ''_'' \<or> body ! (i - 1) = CHR ''-'') then out
      else if q = [] \<or> hd q \<noteq> CHR ''>'' then out
      else (let text = takeWhile (\<lambda>c. c \<noteq> CHR ''<'') (tl q) in
            if length text = 0 \<or> ONVIF_TIME_HOST_MAX \<le> length text then out else out @ [text]))"

function ntp_pass :: "string \<Rightarrow> string \<Rightarrow> nat \<Rightarrow> string \<Rightarrow> string list \<Rightarrow> string list" where
  "ntp_pass body local mx p out =
     (case strstr p local of
        None \<Rightarrow> out
      | Some s \<Rightarrow>
          if s = [] \<or> mx \<le> length out then out
          else ntp_pass body local mx (tl s) (ntp_at body local s out))"
  by pat_completeness auto
termination
proof (relation "measure (\<lambda>(body, local, mx, p, out). length p)", simp, clarsimp)
  fix s local p :: string
  assume "s \<noteq> []" "strstr p local = Some s"
  then show "length s - Suc 0 < length p"
    by (cases s) (auto dest!: strstr_suffix suffix_length_le)
qed

declare ntp_pass.simps [simp del]

definition onvif_time_parse_set_ntp :: "string option \<Rightarrow> int \<Rightarrow> string list" where
  "onvif_time_parse_set_ntp body0 mx =
     (case body0 of
        None \<Rightarrow> []
      | Some body \<Rightarrow>
          if mx \<le> 0 then []
          else fold (\<lambda>local out. if nat mx \<le> length out then out
                       else ntp_pass body local (nat mx) body out)
                 [''IPv4Address'', ''IPv6Address''] [])"


section \<open>Scanning facts\<close>

lemma ident_not_special [simp]: "\<not> ident_char (CHR ''<'')" "\<not> ident_char (CHR ''>'')" "\<not> ident_char (CHR '':'')"
  by (simp_all add: ident_char_def c_isalnum_def c_isalpha_def c_isdigit_def)

lemma takeWhile_ident_no_lt: "CHR ''<'' \<notin> set (takeWhile ident_char s)"
  by (auto dest: set_takeWhileD)

lemma split_name_shape:
  "\<exists>a. tag = a @ snd (split_name tag) \<and> CHR ''<'' \<notin> set a"
proof -
  have s: "t = takeWhile ident_char t @ scan_ident t" for t by (simp add: scan_ident_def)
  show ?thesis
  proof (cases "scan_ident tag \<noteq> [] \<and> hd (scan_ident tag) = CHR '':''")
    case True
    then obtain r where r: "scan_ident tag = CHR '':'' # r" by (cases "scan_ident tag") auto
    have "tag = (takeWhile ident_char tag @ CHR '':'' # takeWhile ident_char r) @ scan_ident r"
      using s [of tag] s [of r] r by (metis append.assoc append_Cons)
    moreover have "snd (split_name tag) = scan_ident r" by (simp add: split_name_def Let_def r)
    moreover have "CHR ''<'' \<notin> set (takeWhile ident_char tag @ CHR '':'' # takeWhile ident_char r)"
      by (simp add: takeWhile_ident_no_lt)
    ultimately show ?thesis by metis
  next
    case False
    then have "snd (split_name tag) = scan_ident tag" by (auto simp: split_name_def Let_def)
    with s [of tag] takeWhile_ident_no_lt show ?thesis by metis
  qed
qed

text \<open>The test of the local name, in terms of the characters of the name.\<close>

lemma tag_is_eq:
  "tag_is tag local \<longleftrightarrow> takeWhile ident_char (fst (split_name tag)) = local \<and>
     snd (split_name tag) \<noteq> [] \<and> hd (snd (split_name tag)) = CHR ''>''"
proof -
  obtain name ne where sp: "split_name tag = (name, ne)" by fastforce
  then have ne: "ne = dropWhile ident_char name"
    by (auto simp: split_name_def scan_ident_def Let_def split: if_splits)
  have "length name - length ne = length (takeWhile ident_char name)"
    unfolding ne by (metis add_diff_cancel_right' length_append takeWhile_dropWhile_id)
  moreover have "take (length (takeWhile ident_char name)) name = takeWhile ident_char name"
    by (rule takeWhile_eq_take [symmetric])
  ultimately show ?thesis by (auto simp: tag_is_def sp)
qed

lemma open_tag_shape:
  assumes "open_tag q local = Some text"
  shows "\<exists>a. q = a @ text \<and> CHR ''<'' \<notin> set a"
proof -
  have t: "tag_is q local" "text = tl (snd (split_name q))"
    using assms by (auto simp: open_tag_def split: if_splits)
  then have ne: "snd (split_name q) = CHR ''>'' # text" by (cases "snd (split_name q)") (auto simp: tag_is_eq)
  obtain a where "q = a @ snd (split_name q)" "CHR ''<'' \<notin> set a" using split_name_shape by blast
  then have "q = (a @ ''>'') @ text \<and> CHR ''<'' \<notin> set (a @ ''>'')" by (simp add: ne)
  then show ?thesis by blast
qed

text \<open>An end pointer into a text: at its end or at one of its \<open><\<close>.\<close>

definition scope_end :: "string \<Rightarrow> nat \<Rightarrow> bool" where
  "scope_end s e \<longleftrightarrow> (\<exists>b. suffix b s \<and> length b = e \<and> (b = [] \<or> hd b = CHR ''<''))"

lemma scope_end_le: "scope_end s e \<Longrightarrow> e \<le> length s"
  by (auto simp: scope_end_def dest: suffix_length_le)

lemma scope_end_append: "scope_end (a @ s) e \<Longrightarrow> e \<le> length s \<Longrightarrow> scope_end s e"
  unfolding scope_end_def using suffix_length_suffix [of _ "a @ s" s] by (auto simp: suffix_def)

lemma scope_end_prepend: "scope_end s e \<Longrightarrow> scope_end (a @ s) e"
  by (auto simp: scope_end_def intro: suffix_appendI)

lemma scope_end_skip:
  assumes "scope_end (a @ s) e" and "CHR ''<'' \<notin> set a"
  shows "scope_end s e"
proof -
  obtain b where b: "suffix b (a @ s)" "length b = e" "b = [] \<or> hd b = CHR ''<''"
    using assms(1) by (auto simp: scope_end_def)
  from b(1) consider "suffix b s" | c where "suffix c a" "b = c @ s" "c \<noteq> []"
    unfolding suffix_append by (metis append_Nil suffix_order.refl)
  then show ?thesis
  proof cases
    case 1
    with b show ?thesis by (auto simp: scope_end_def)
  next
    case (2 c)
    then have "hd b \<in> set a" by (cases c) (auto simp: suffix_def)
    with 2 b assms(2) show ?thesis by auto
  qed
qed

lemma find_close_end: "scope_end s (find_close s local)"
proof (induction s local rule: find_close.induct)
  case (1 s local)
  show ?case
  proof (cases "strchr s (CHR ''<'')")
    case None
    then show ?thesis
      by (subst find_close.simps) (simp add: None scope_end_def del: strchr_None_iff)
  next
    case (Some c)
    then obtain a where a: "s = a @ c" by (auto dest: strchr_suffix elim: suffixE)
    obtain r where r: "c = CHR ''<'' # r" using strchr_hd [OF Some] by blast
    show ?thesis
    proof (cases "tl c \<noteq> [] \<and> hd (tl c) = CHR ''/'' \<and> tag_is (tl (tl c)) local")
      case True
      then have "find_close s local = length c" by (subst find_close.simps) (simp add: Some)
      moreover have "scope_end c (length c)" by (auto simp: scope_end_def r)
      ultimately show ?thesis by (simp add: a scope_end_prepend)
    next
      case False
      from 1 [OF Some False] have "scope_end r (find_close r local)" by (simp add: r)
      moreover have "find_close s local = find_close r local"
        using False by (subst find_close.simps) (auto simp: Some r)
      ultimately show ?thesis using scope_end_prepend [of r _ "a @ ''<''"] by (simp add: a r)
    qed
  qed
qed

lemma elem_scope_end:
  "elem_scope hay local = Some (text, e) \<Longrightarrow> suffix text hay \<and> scope_end text e"
proof (induction hay local rule: elem_scope.induct)
  case (1 hay local)
  then obtain p where p: "strchr hay (CHR ''<'') = Some p"
    by (subst (asm) (2) elem_scope.simps) (auto split: option.splits)
  have sp: "suffix (tl p) hay" using strchr_suffix [OF p] suffix_tl suffix_order.order_trans by blast
  show ?case
  proof (cases "open_tag (tl p) local")
    case None
    then have "elem_scope (tl p) local = Some (text, e)"
      using 1(2) by (subst (asm) elem_scope.simps) (simp add: p)
    from 1(1) [OF p None this] sp show ?thesis using suffix_order.order_trans by blast
  next
    case (Some t)
    then have "text = t" "e = find_close t local"
      using 1(2) by (subst (asm) elem_scope.simps, simp add: p)+
    moreover have "suffix t (tl p)" using open_tag_shape [OF Some] by (auto simp: suffix_def)
    ultimately show ?thesis using sp find_close_end suffix_order.order_trans by blast
  qed
qed

lemma leaf_text_in:
  "leaf_text scope e local = Some (t, l) \<Longrightarrow> scope_end scope e \<Longrightarrow>
     suffix t scope \<and> scope_end t e \<and> l \<le> length t - e \<and> CHR ''<'' \<notin> set (take l t)"
proof (induction scope e local rule: leaf_text.induct)
  case (1 scope e local)
  then obtain p where p: "strchr scope (CHR ''<'') = Some p" "e < length p"
    by (subst (asm) (2) leaf_text.simps) (auto split: option.splits if_splits)
  have sp: "suffix (tl p) scope" using strchr_suffix [OF p(1)] suffix_tl suffix_order.order_trans by blast
  from strchr_suffix [OF p(1)] obtain a where a: "scope = a @ p" by (auto elim: suffixE)
  have se: "scope_end (tl p) e"
    using scope_end_append [of "a @ [hd p]" "tl p" e] 1(3) p(2) a by (cases p) auto
  show ?case
  proof (cases "open_tag (tl p) local")
    case None
    then have "leaf_text (tl p) e local = Some (t, l)"
      using 1(2) p(2) by (subst (asm) leaf_text.simps) (simp add: p(1))
    from 1(1) [OF p(1) _ None this se] p(2) sp show ?thesis using suffix_order.order_trans by fastforce
  next
    case (Some u)
    then have u: "t = u" "l = leaf_len u e"
      using 1(2) p(2) by (subst (asm) leaf_text.simps, simp add: p(1))+
    obtain b where b: "tl p = b @ t" "CHR ''<'' \<notin> set b" using open_tag_shape [OF Some] u by blast
    have "scope_end t e" using se b scope_end_skip by metis
    moreover have ll: "l \<le> length t - e"
      using length_takeWhile_le [of _ "take (length t - e) t"] by (auto simp: u leaf_len_def intro: le_trans)
    moreover have "take l t = takeWhile (\<lambda>c. c \<noteq> CHR ''<'') (take (length t - e) t)"
      using ll unfolding u leaf_len_def by (metis takeWhile_eq_take min.absorb1 take_take)
    then have "CHR ''<'' \<notin> set (take l t)" by (auto dest: set_takeWhileD)
    moreover have "suffix t scope" using b sp by (metis suffix_appendD suffix_def)
    ultimately show ?thesis by simp
  qed
qed


section \<open>Values\<close>

lemma parse_num_range: "parse_num s l lo hi = Some v \<Longrightarrow> lo \<le> v \<and> v \<le> hi"
  by (auto simp: parse_num_def Let_def split: if_splits prod.splits)

lemma num_field_range: "num_field us ue local lo hi = Some v \<Longrightarrow> lo \<le> v \<and> v \<le> hi"
  by (auto simp: num_field_def dest: parse_num_range split: option.splits)

lemma civil_days_range:
  assumes "1970 \<le> y" "y \<le> 9999" "1 \<le> m" "m \<le> 12" "1 \<le> d" "d \<le> 31"
  shows "0 \<le> civil_days y m d \<and> civil_days y m d \<le> 2932896"
proof -
  have ml: "(\<Sum>k\<in>{1..<m}. month_len y k) \<le> (\<Sum>k\<in>{1..<12}. month_len y k)"
    using assms by (intro sum_mono2) (auto intro: less_imp_le [OF month_len_pos])
  have "(\<Sum>k\<in>{1..<13}. month_len y k) = (\<Sum>k\<in>{1..<12}. month_len y k) + month_len y 12"
    using month_sum_snoc [of 12 y] by simp
  then have m12: "(\<Sum>k\<in>{1..<12}. month_len y k) = year_len y - 31"
    using year_months [of y] by (simp add: month_len_def [of y 12])
  have y: "(\<Sum>k\<in>{1970..<y}. year_len k) + year_len y \<le> (\<Sum>k\<in>{1970..<10000}. year_len k)"
    using year_sum_snoc [of y] civil_days_year_mono [of "y + 1" 10000] assms by simp
  have tot: "(\<Sum>k\<in>{1970..<10000}. year_len k) = 2932897"
    by (simp add: sum_years cycle_days_def)
  have "0 \<le> (\<Sum>k\<in>{1970..<y}. year_len k)" "0 \<le> (\<Sum>k\<in>{1..<m}. month_len y k)"
    by (auto intro!: sum_nonneg less_imp_le [OF year_len_pos] less_imp_le [OF month_len_pos])
  with ml m12 y tot assms(5,6) show ?thesis by (simp add: civil_days_def)
qed

lemma utc_part_value:
  assumes "utc_part us ue = Some t"
  shows "0 \<le> t \<and> t \<le> 253402300800"
proof -
  obtain y mo d h mi s where f: "num_field us ue ''Year'' 1970 9999 = Some y" "num_field us ue ''Month'' 1 12 = Some mo"
    "num_field us ue ''Day'' 1 31 = Some d" "num_field us ue ''Hour'' 0 23 = Some h"
    "num_field us ue ''Minute'' 0 59 = Some mi" "num_field us ue ''Second'' 0 60 = Some s"
    "t = days_from_civil y mo d * 86400 + h * 3600 + mi * 60 + s"
    using assms by (auto simp: utc_part_def bind_eq_Some_conv)
  note r = f(1-6) [THEN num_field_range]
  have "days_from_civil y mo d = civil_days y mo d" using r by (intro days_from_civil_correct) auto
  with civil_days_range [of y mo d] r f(7) show ?thesis by auto
qed

text \<open>Decimal texts of at most five digits are read back.\<close>

lemma parse_num_show:
  assumes "lo \<le> int n" "int n \<le> hi" "n < 10 ^ 5"
  shows "parse_num (show_nat n @ r) (length (show_nat n)) lo hi = Some (int n)"
proof -
  have dig: "list_all c_isdigit (show_nat n)"
    unfolding list_all_iff by (auto dest!: show_nat_digits simp: digit_char_facts)
  obtain c ds where c: "show_nat n = c # ds" by (cases "show_nat n") auto
  then have "c_isdigit c" using dig by simp
  then have nsp: "\<not> c_isspace c" "c \<noteq> CHR ''-''" "c \<noteq> CHR ''+''"
    by (auto simp: c_isdigit_def c_isspace_def)
  have "takeWhile c_isdigit (show_nat n) = show_nat n"
    using dig by (simp add: takeWhile_eq_all_conv list_all_iff)
  then have "strtol (show_nat n) = (int n, [])"
    using nsp by (simp add: strtol_def scan_sign_def c dec_val_show_nat [of n, unfolded c])
  moreover have "length (show_nat n) \<le> 5" using show_nat_length [of n 5] assms(3) by simp
  ultimately show ?thesis using assms(1,2) by (simp add: parse_num_def)
qed

section \<open>Evaluation on a client's request\<close>

lemma elem_scope_Cons:
  "elem_scope (c # p) local =
     (if c = CHR ''<'' then
        (case open_tag p local of Some text \<Rightarrow> Some (text, find_close text local) | None \<Rightarrow> elem_scope p local)
      else elem_scope p local)"
  by (subst (1) elem_scope.simps) (auto simp: elem_scope.simps [of p] split: option.split)

lemma elem_scope_chunk: "CHR ''<'' \<notin> set a \<Longrightarrow> elem_scope (a @ p) local = elem_scope p local"
  by (induction a) (auto simp: elem_scope_Cons)

lemma find_close_Cons:
  "find_close (c # p) local =
     (if c = CHR ''<'' \<and> p \<noteq> [] \<and> hd p = CHR ''/'' \<and> tag_is (tl p) local then Suc (length p)
      else find_close p local)"
  by (subst (1) find_close.simps) (auto simp: find_close.simps [of p])

lemma find_close_chunk: "CHR ''<'' \<notin> set a \<Longrightarrow> find_close (a @ p) local = find_close p local"
  by (induction a) (auto simp: find_close_Cons)

lemma leaf_text_Cons:
  "leaf_text (c # p) e local =
     (if c = CHR ''<'' then
        (if length p < e then None
         else (case open_tag p local of Some text \<Rightarrow> Some (text, leaf_len text e) | None \<Rightarrow> leaf_text p e local))
      else leaf_text p e local)"
  by (subst (1) leaf_text.simps) (auto simp: leaf_text.simps [of p] split: option.split)

lemma leaf_text_chunk: "CHR ''<'' \<notin> set a \<Longrightarrow> leaf_text (a @ p) e local = leaf_text p e local"
  by (induction a) (auto simp: leaf_text_Cons)

lemma leaf_len_chunk:
  assumes "CHR ''<'' \<notin> set a" and "e \<le> Suc (length r)"
  shows "leaf_len (a @ CHR ''<'' # r) e = length a"
proof -
  have "takeWhile (\<lambda>c. c \<noteq> CHR ''<'') (a @ take k (CHR ''<'' # r)) = a" for k
    using assms(1) by (cases k) (auto simp: takeWhile_append takeWhile_eq_all_conv)
  moreover have "take (length (a @ CHR ''<'' # r) - e) (a @ CHR ''<'' # r) =
      a @ take (Suc (length r) - e) (CHR ''<'' # r)"
    using assms(2) by simp
  ultimately show ?thesis by (simp only: leaf_len_def)
qed

text \<open>The character classes tabulated, so that evaluation looks each character up once.\<close>

lemma ident_table:
  "list_all ident_char ''ABCDEFGHIJKLMNOPQRSTUVWXYZabcdefghijklmnopqrstuvwxyz0123456789_.-''"
  by (simp add: ident_char_def c_isalnum_def c_isalpha_def c_isdigit_def)

lemma alpha_table:
  "list_all c_isalpha ''ABCDEFGHIJKLMNOPQRSTUVWXYZabcdefghijklmnopqrstuvwxyz''"
  by (simp add: c_isalpha_def)

lemma slash_class: "\<not> c_isalpha (CHR ''/'')" "\<not> ident_char (CHR ''/'')"
  by (simp_all add: ident_char_def c_isalnum_def c_isalpha_def c_isdigit_def)

lemmas class_facts = ident_table [unfolded list.pred_inject] alpha_table [unfolded list.pred_inject] slash_class

lemmas request_eval = elem_scope_Cons elem_scope_chunk find_close_Cons find_close_chunk leaf_text_Cons
  leaf_text_chunk leaf_len_chunk open_tag_def tag_is_eq split_name_def scan_ident_def class_facts Let_def

definition set_time_request :: "string \<Rightarrow> string \<Rightarrow> nat \<Rightarrow> nat \<Rightarrow> nat \<Rightarrow> nat \<Rightarrow> nat \<Rightarrow> nat \<Rightarrow> string" where
  "set_time_request mode zone y mo d h mi s =
     ''<s:Envelope><s:Body><tds:SetSystemDateAndTime><tds:DateTimeType>'' @ mode @
     ''</tds:DateTimeType><tds:DaylightSavings>false</tds:DaylightSavings><tds:TimeZone><tt:TZ>'' @ zone @
     ''</tt:TZ></tds:TimeZone><tds:UTCDateTime><tt:Time><tt:Hour>'' @ show_nat h @
     ''</tt:Hour><tt:Minute>'' @ show_nat mi @ ''</tt:Minute><tt:Second>'' @ show_nat s @
     ''</tt:Second></tt:Time><tt:Date><tt:Year>'' @ show_nat y @ ''</tt:Year><tt:Month>'' @ show_nat mo @
     ''</tt:Month><tt:Day>'' @ show_nat d @
     ''</tt:Day></tt:Date></tds:UTCDateTime></tds:SetSystemDateAndTime></s:Body></s:Envelope>''"

lemma show_nat_no_lt: "CHR ''<'' \<notin> set (show_nat n)"
  by (auto dest!: show_nat_digits simp: digit_char_def less_Suc_eq numeral_eq_Suc)

lemma set_time_mode:
  assumes "CHR ''<'' \<notin> set mode" "CHR ''<'' \<notin> set zone"
  shows "\<exists>r. leaf_text (set_time_request mode zone y mo d h mi s) 0 ''DateTimeType'' = Some (mode @ CHR ''<'' # r, length mode)"
  using assms by (simp add: set_time_request_def request_eval show_nat_no_lt)


definition req_head :: "string \<Rightarrow> string \<Rightarrow> string" where
  "req_head mode rest =
     ''<s:Envelope><s:Body><tds:SetSystemDateAndTime><tds:DateTimeType>'' @ mode @
     ''</tds:DateTimeType><tds:DaylightSavings>false</tds:DaylightSavings>'' @ rest"

definition req_zone :: "string \<Rightarrow> string \<Rightarrow> string" where
  "req_zone zone rest = ''<tds:TimeZone><tt:TZ>'' @ zone @ ''</tt:TZ></tds:TimeZone>'' @ rest"

definition req_time :: "nat \<Rightarrow> nat \<Rightarrow> nat \<Rightarrow> string \<Rightarrow> string" where
  "req_time h mi s rest =
     ''<tt:Time><tt:Hour>'' @ show_nat h @ ''</tt:Hour><tt:Minute>'' @ show_nat mi @
     ''</tt:Minute><tt:Second>'' @ show_nat s @ ''</tt:Second></tt:Time>'' @ rest"

definition req_date :: "nat \<Rightarrow> nat \<Rightarrow> nat \<Rightarrow> string \<Rightarrow> string" where
  "req_date y mo d rest =
     ''<tt:Date><tt:Year>'' @ show_nat y @ ''</tt:Year><tt:Month>'' @ show_nat mo @ ''</tt:Month><tt:Day>'' @
     show_nat d @ ''</tt:Day></tt:Date>'' @ rest"

lemma set_time_request_eq:
  "set_time_request mode zone y mo d h mi s =
     req_head mode (req_zone zone (''<tds:UTCDateTime>'' @ req_time h mi s (req_date y mo d
       (''</tds:UTCDateTime>'' @ ''</tds:SetSystemDateAndTime></s:Body></s:Envelope>''))))"
  by (simp add: set_time_request_def req_head_def req_zone_def req_time_def req_date_def)

lemma set_time_zone:
  assumes "CHR ''<'' \<notin> set mode" "CHR ''<'' \<notin> set zone"
  shows "time_zone_part (req_head mode (req_zone zone rest)) out =
    Some (out\<lparr>tz := take 47 zone, has_tz := True\<rparr>)"
proof -
  let ?e = "Suc (length (''/tds:TimeZone>'' @ rest))"
  have "elem_scope (req_head mode (req_zone zone rest)) ''TimeZone'' =
      Some (''<tt:TZ>'' @ zone @ ''</tt:TZ></tds:TimeZone>'' @ rest, ?e)"
    using assms by (simp add: req_head_def req_zone_def request_eval)
  moreover have "leaf_text (''<tt:TZ>'' @ zone @ ''</tt:TZ></tds:TimeZone>'' @ rest) ?e ''TZ'' =
      Some (zone @ ''</tt:TZ></tds:TimeZone>'' @ rest, length zone)"
    using assms by (simp add: request_eval)
  ultimately show ?thesis by (simp add: time_zone_part_def)
qed

lemma utc_scope:
  assumes "CHR ''<'' \<notin> set mode" "CHR ''<'' \<notin> set zone"
  shows "elem_scope (req_head mode (req_zone zone (''<tds:UTCDateTime>'' @ us))) ''UTCDateTime'' =
    Some (us, find_close us ''UTCDateTime'')"
  using assms by (simp add: req_head_def req_zone_def request_eval)

lemma utc_close:
  "find_close (req_time h mi s (req_date y mo d (''</tds:UTCDateTime>'' @ rest))) ''UTCDateTime'' =
     length (''</tds:UTCDateTime>'' @ rest)"
proof -
  have "find_close (req_time h mi s r) ''UTCDateTime'' = find_close r ''UTCDateTime''" for r
    by (simp add: req_time_def request_eval show_nat_no_lt)
  moreover have "find_close (req_date y mo d r) ''UTCDateTime'' = find_close r ''UTCDateTime''" for r
    by (simp add: req_date_def request_eval show_nat_no_lt)
  moreover have "find_close (''</tds:UTCDateTime>'' @ rest) ''UTCDateTime'' = length (''</tds:UTCDateTime>'' @ rest)"
    by (simp add: request_eval)
  ultimately show ?thesis by simp
qed

text \<open>The leaves, with an end pointer somewhere behind them.\<close>

lemma time_leaves:
  assumes "e \<le> length r"
  shows "\<exists>q. leaf_text (req_time h mi s r) e ''Hour'' = Some (show_nat h @ q, length (show_nat h))"
    and "\<exists>q. leaf_text (req_time h mi s r) e ''Minute'' = Some (show_nat mi @ q, length (show_nat mi))"
    and "\<exists>q. leaf_text (req_time h mi s r) e ''Second'' = Some (show_nat s @ q, length (show_nat s))"
    and "tag \<in> {''Year'', ''Month'', ''Day''} \<Longrightarrow> leaf_text (req_time h mi s r) e tag = leaf_text r e tag"
  using assms by (auto simp: req_time_def request_eval show_nat_no_lt)

lemma date_leaves:
  assumes "e \<le> length r"
  shows "\<exists>q. leaf_text (req_date y mo d r) e ''Year'' = Some (show_nat y @ q, length (show_nat y))"
    and "\<exists>q. leaf_text (req_date y mo d r) e ''Month'' = Some (show_nat mo @ q, length (show_nat mo))"
    and "\<exists>q. leaf_text (req_date y mo d r) e ''Day'' = Some (show_nat d @ q, length (show_nat d))"
  using assms by (auto simp: req_date_def request_eval show_nat_no_lt)

lemma num_field_value:
  assumes "leaf_text us ue local = Some (show_nat n @ r, length (show_nat n))"
    and "lo \<le> int n" "int n \<le> hi" "n < 10 ^ 5"
  shows "num_field us ue local lo hi = Some (int n)"
  using assms by (simp add: num_field_def parse_num_show)

lemma utc_part_request:
  assumes "1970 \<le> y" "y \<le> 9999" "1 \<le> mo" "mo \<le> 12" "1 \<le> d" "d \<le> 31" "h \<le> 23" "mi \<le> 59" "s \<le> 60"
    and "e \<le> length r"
  shows "utc_part (req_time h mi s (req_date y mo d r)) e =
    Some (days_from_civil (int y) (int mo) (int d) * 86400 + int h * 3600 + int mi * 60 + int s)"
proof -
  let ?us = "req_time h mi s (req_date y mo d r)"
  have e: "e \<le> length (req_date y mo d r)" using assms(10) by (simp add: req_date_def)
  note t = time_leaves(1-3) [OF e, of h mi s] time_leaves(4) [OF e] date_leaves [OF assms(10), of y mo d]
  have
    "num_field ?us e ''Year'' 1970 9999 = Some (int y)" "num_field ?us e ''Month'' 1 12 = Some (int mo)"
    "num_field ?us e ''Day'' 1 31 = Some (int d)" "num_field ?us e ''Hour'' 0 23 = Some (int h)"
    "num_field ?us e ''Minute'' 0 59 = Some (int mi)" "num_field ?us e ''Second'' 0 60 = Some (int s)"
    using t(1-3) t(5-7) t(4) assms(1-9) by (auto intro!: num_field_value)
  then show ?thesis by (simp add: utc_part_def)
qed

lemma set_request_parsed:
  assumes "CHR ''<'' \<notin> set mode" "CHR ''<'' \<notin> set zone"
    and "1970 \<le> y" "y \<le> 9999" "1 \<le> mo" "mo \<le> 12" "1 \<le> d" "d \<le> 31" "h \<le> 23" "mi \<le> 59" "s \<le> 60"
  shows "onvif_time_parse_set_request (Some (set_time_request mode zone y mo d h mi s)) =
    (True, \<lparr>ntp_mode = (mode = ''NTP''), has_utc = True,
            utc_epoch = civil_seconds (int y) (int mo) (int d) (int h) (int mi) (int s),
            has_tz = True, tz = take 47 zone\<rparr>)"
proof -
  let ?b = "set_time_request mode zone y mo d h mi s"
  obtain r where "leaf_text ?b 0 ''DateTimeType'' = Some (mode @ CHR ''<'' # r, length mode)"
    using set_time_mode [OF assms(1,2)] by blast
  then have m: "(case leaf_text ?b 0 ''DateTimeType'' of None \<Rightarrow> False
      | Some (dt, len) \<Rightarrow> len = 3 \<and> take 3 dt = ''NTP'') = (mode = ''NTP'')"
    by auto
  have z: "time_zone_part ?b out = Some (out\<lparr>tz := take 47 zone, has_tz := True\<rparr>)" for out
    unfolding set_time_request_eq by (rule set_time_zone [OF assms(1,2)])
  obtain us ue where u: "elem_scope ?b ''UTCDateTime'' = Some (us, ue)"
    "utc_part us ue = Some (days_from_civil (int y) (int mo) (int d) * 86400 + int h * 3600 + int mi * 60 + int s)"
    unfolding set_time_request_eq utc_scope [OF assms(1,2)] utc_close
    using utc_part_request [OF assms(3-)] by blast
  have "days_from_civil (int y) (int mo) (int d) = civil_days (int y) (int mo) (int d)"
    using assms by (intro days_from_civil_correct) auto
  then show ?thesis
    unfolding onvif_time_parse_set_request_def option.case Let_def m
    by (simp add: z u time_req_zero_def civil_seconds_def)
qed


section \<open>The NTP servers\<close>

definition host_ok :: "string \<Rightarrow> bool" where
  "host_ok h \<longleftrightarrow> 0 < length h \<and> length h < ONVIF_TIME_HOST_MAX \<and> CHR ''<'' \<notin> set h"

lemma ntp_at_hosts: "list_all host_ok out \<Longrightarrow> list_all host_ok (ntp_at body local p out)"
  by (auto simp: ntp_at_def host_ok_def Let_def dest: set_takeWhileD)

lemma ntp_at_length: "length (ntp_at body local p out) \<le> Suc (length out)"
  by (simp add: ntp_at_def Let_def)

lemma ntp_pass_hosts:
  "list_all host_ok out \<Longrightarrow> length out \<le> mx \<Longrightarrow>
     list_all host_ok (ntp_pass body local mx p out) \<and> length (ntp_pass body local mx p out) \<le> mx"
proof (induction body local mx p out rule: ntp_pass.induct)
  case (1 body local mx p out)
  show ?case
  proof (cases "\<exists>s. strstr p local = Some s \<and> \<not> (s = [] \<or> mx \<le> length out)")
    case True
    then obtain s where s: "strstr p local = Some s" "\<not> (s = [] \<or> mx \<le> length out)" by blast
    then have "length (ntp_at body local s out) \<le> mx" using ntp_at_length [of body local s out] by simp
    with 1(1) [OF s ntp_at_hosts [OF 1(2)]] s show ?thesis by (subst (1 2) ntp_pass.simps) simp
  next
    case False
    then have "ntp_pass body local mx p out = out"
      by (subst ntp_pass.simps) (auto split: option.split)
    with 1(2,3) show ?thesis by simp
  qed
qed

lemma set_ntp_hosts:
  "list_all host_ok (onvif_time_parse_set_ntp body mx) \<and> int (length (onvif_time_parse_set_ntp body mx)) \<le> \<bar>mx\<bar>"
proof (cases "body = None \<or> mx \<le> 0")
  case True
  then show ?thesis by (auto simp: onvif_time_parse_set_ntp_def split: option.split)
next
  case False
  then obtain b where b: "body = Some b" "0 < mx" by auto
  define out where "out = ntp_pass b ''IPv4Address'' (nat mx) b []"
  have o: "list_all host_ok out \<and> length out \<le> nat mx"
    unfolding out_def by (rule ntp_pass_hosts) simp_all
  have "onvif_time_parse_set_ntp body mx =
      (if nat mx \<le> length out then out else ntp_pass b ''IPv6Address'' (nat mx) b out)"
    using b by (simp add: onvif_time_parse_set_ntp_def out_def)
  with o ntp_pass_hosts [of out "nat mx" b "''IPv6Address''" b] b(2) show ?thesis by auto
qed

text \<open>A client's request: one \<open>NTPManual\<close> entry per server.\<close>

definition ntp_entry :: "string \<Rightarrow> string" where
  "ntp_entry h = ''<tds:NTPManual><tt:Type>IPv4</tt:Type><tt:IPv4Address>'' @ h @ ''</tt:IPv4Address></tds:NTPManual>''"

definition set_ntp_request :: "string list \<Rightarrow> string" where
  "set_ntp_request hs =
     ''<s:Envelope><s:Body><tds:SetNTP><tds:FromDHCP>false</tds:FromDHCP>'' @ concat (map ntp_entry hs) @
     ''</tds:SetNTP></s:Body></s:Envelope>''"

lemma strstr_skip:
  "c \<notin> set a \<Longrightarrow> strstr (a @ b) (c # p) = strstr b (c # p)"
  by (induction a) auto

lemma ntp_pass_skip:
  "strstr q local = strstr p local \<Longrightarrow> ntp_pass body local mx q out = ntp_pass body local mx p out"
  by (subst (1 2) ntp_pass.simps) simp

lemma ntp_pass_hit:
  assumes "strstr p local = Some (c # r)" and "length out < mx"
  shows "ntp_pass body local mx p out = ntp_pass body local mx r (ntp_at body local (c # r) out)"
  using assms by (subst ntp_pass.simps) simp

text \<open>At an opening tag the server is taken; at a closing tag directly followed by another tag the
  empty text is skipped.\<close>

lemma ntp_at_open:
  assumes "body = pre @ ''<tt:IPv4Address>'' @ h @ CHR ''<'' # r" and "host_ok h"
  shows "ntp_at body ''IPv4Address'' (''IPv4Address>'' @ h @ CHR ''<'' # r) out = out @ [h]"
proof -
  have "takeWhile (\<lambda>c. c \<noteq> CHR ''<'') (h @ CHR ''<'' # r) = h"
    using assms(2) by (auto simp: host_ok_def takeWhile_append takeWhile_eq_all_conv)
  moreover have "body ! (3 + length pre) = CHR '':''" by (simp add: assms(1) nth_append)
  moreover have "length body - length (''IPv4Address>'' @ h @ CHR ''<'' # r) = length pre + 4"
    by (simp add: assms(1))
  ultimately show ?thesis
    using assms(2) by (simp add: ntp_at_def Let_def host_ok_def c_isalnum_def c_isalpha_def c_isdigit_def)
qed

lemma ntp_at_close: "ntp_at body ''IPv4Address'' (''IPv4Address>'' @ CHR ''<'' # r) out = out"
  by (simp add: ntp_at_def Let_def)


definition ipv4_text :: "string \<Rightarrow> bool" where
  "ipv4_text h \<longleftrightarrow> 0 < length h \<and> length h < 46 \<and> set h \<subseteq> set ''0123456789.''"

lemma ipv4_text_host: "ipv4_text h \<Longrightarrow> host_ok h \<and> CHR ''I'' \<notin> set h"
  by (auto simp: ipv4_text_def host_ok_def ONVIF_TIME_HOST_MAX_def)

lemma ntp_entries_v4:
  assumes "list_all ipv4_text hs" and "body = pre @ concat (map ntp_entry hs) @ tail"
    and "strstr tail ''IPv4Address'' = None"
  shows "ntp_pass body ''IPv4Address'' mx (concat (map ntp_entry hs) @ tail) out = out @ take (mx - length out) hs"
  using assms
proof (induction hs arbitrary: pre out)
  case Nil
  then show ?case by (subst ntp_pass.simps) simp
next
  case (Cons h hs)
  let ?t = "concat (map ntp_entry hs) @ tail"
  let ?close = "''IPv4Address></tds:NTPManual>'' @ ?t"
  let ?open = "''IPv4Address>'' @ h @ ''</tt:'' @ ?close"
  have h: "host_ok h" "CHR ''I'' \<notin> set h" using Cons.prems(1) ipv4_text_host by auto
  have first: "strstr (concat (map ntp_entry (h # hs)) @ tail) ''IPv4Address'' = Some ?open"
    by (simp add: ntp_entry_def [of h])
  show ?case
  proof (cases "length out < mx")
    case False
    then show ?thesis by (subst ntp_pass.simps) (simp only: first option.case, simp)
  next
    case True
    let ?pre = "pre @ ''<tds:NTPManual><tt:Type>IPv4</tt:Type>''"
    have "body = ?pre @ ''<tt:IPv4Address>'' @ h @ CHR ''<'' # ''/tt:'' @ ?close"
      by (simp add: Cons.prems(2) ntp_entry_def [of h])
    from ntp_at_open [OF this h(1), of out]
    have at: "ntp_at body ''IPv4Address'' ?open out = out @ [h]" by simp
    have "ntp_pass body ''IPv4Address'' mx (concat (map ntp_entry (h # hs)) @ tail) out =
        ntp_pass body ''IPv4Address'' mx (tl ?open) (out @ [h])"
      using ntp_pass_hit [of _ "''IPv4Address''" "hd ?open" "tl ?open" out mx body] first at True by simp
    also have "\<dots> = ntp_pass body ''IPv4Address'' mx ?close (out @ [h])"
      by (rule ntp_pass_skip) (use h(2) in \<open>simp add: strstr_skip\<close>)
    also have "\<dots> = ntp_pass body ''IPv4Address'' mx ?t (out @ [h])"
    proof (cases "length (out @ [h]) < mx")
      case True
      have "strstr ?close ''IPv4Address'' = Some ?close" by simp
      moreover have "ntp_at body ''IPv4Address'' ?close (out @ [h]) = out @ [h]"
        using ntp_at_close [of body "''/tds:NTPManual>'' @ ?t" "out @ [h]"] by simp
      ultimately have "ntp_pass body ''IPv4Address'' mx ?close (out @ [h]) =
          ntp_pass body ''IPv4Address'' mx (tl ?close) (out @ [h])"
        using ntp_pass_hit [of ?close "''IPv4Address''" "hd ?close" "tl ?close" "out @ [h]" mx body] True
        by simp
      also have "\<dots> = ntp_pass body ''IPv4Address'' mx ?t (out @ [h])"
        by (rule ntp_pass_skip) simp
      finally show ?thesis .
    next
      case False
      have "ntp_pass body l mx p (out @ [h]) = out @ [h]" for l p
        using False by (subst ntp_pass.simps) (auto split: option.split)
      then show ?thesis by simp
    qed
    also have "\<dots> = (out @ [h]) @ take (mx - length (out @ [h])) hs"
      by (rule Cons.IH [where pre = "pre @ ntp_entry h"]) (use Cons.prems in auto)
    finally show ?thesis using True by (simp add: take_Cons' diff_Suc split: nat.split)
  qed
qed

lemma ntp_entries_v6:
  "list_all ipv4_text hs \<Longrightarrow> strstr (concat (map ntp_entry hs) @ tail) ''IPv6Address'' = strstr tail ''IPv6Address''"
proof (induction hs)
  case (Cons h hs)
  then have "CHR ''I'' \<notin> set h" using ipv4_text_host by auto
  with Cons show ?case by (simp add: ntp_entry_def strstr_skip)
qed simp

lemma set_ntp_request_parsed:
  assumes "list_all ipv4_text hs" and "0 < mx"
  shows "onvif_time_parse_set_ntp (Some (set_ntp_request hs)) mx = take (nat mx) hs"
proof -
  let ?head = "''<s:Envelope><s:Body><tds:SetNTP><tds:FromDHCP>false</tds:FromDHCP>''"
  let ?tail = "''</tds:SetNTP></s:Body></s:Envelope>''"
  let ?e = "concat (map ntp_entry hs) @ ?tail" and ?b = "set_ntp_request hs"
  have b: "?b = ?head @ ?e" by (simp add: set_ntp_request_def)
  have skip: "strstr (?head @ x) (''IPv4Address'') = strstr x ''IPv4Address''"
    "strstr (?head @ x) (''IPv6Address'') = strstr x ''IPv6Address''" for x
    by simp_all
  have "ntp_pass ?b ''IPv4Address'' (nat mx) ?b [] = ntp_pass ?b ''IPv4Address'' (nat mx) ?e []"
    by (rule ntp_pass_skip) (simp only: b skip)
  also have "\<dots> = take (nat mx) hs"
    using ntp_entries_v4 [OF assms(1) b, of "nat mx" "[]"] by simp
  finally have v4: "ntp_pass ?b ''IPv4Address'' (nat mx) ?b [] = take (nat mx) hs" .
  have "strstr ?b ''IPv6Address'' = None"
    unfolding b skip ntp_entries_v6 [OF assms(1)] by simp
  then have "ntp_pass ?b ''IPv6Address'' (nat mx) ?b out = out" for out
    by (subst ntp_pass.simps) simp
  then show ?thesis using assms(2) by (simp add: onvif_time_parse_set_ntp_def v4)
qed


section \<open>Properties\<close>

text \<open>
  No pointer leaves the message: a scope that \<open>elem_scope\<close> finds is a suffix of the body
  with its end inside it, and a leaf that \<open>leaf_text\<close> finds in that scope starts inside the
  scope, ends not behind its end, and contains no \<open><\<close>.
\<close>

theorem leaf_in_scope:
  assumes "elem_scope body outer = Some (scope, e)"
    and "leaf_text scope e inner = Some (text, l)"
  shows "suffix scope body \<and> suffix text scope \<and> e \<le> length text \<and> l \<le> length text - e \<and>
    CHR ''<'' \<notin> set (take l text)"
  using elem_scope_end [OF assms(1)] leaf_text_in [OF assms(2)] by (auto dest: scope_end_le)

theorem leaf_in_scope_witness:
  "elem_scope ''<a><b>42</b></a>'' ''a'' = Some (''<b>42</b></a>'', 4) \<and>
     leaf_text ''<b>42</b></a>'' 4 ''b'' = Some (''42</b></a>'', 2) \<and> suffix ''42</b></a>'' ''<b>42</b></a>''"
proof -
  have s: "elem_scope ''<a><b>42</b></a>'' ''a'' = Some (''<b>42</b></a>'', 4)"
    by (simp add: request_eval)
  have l: "leaf_text ''<b>42</b></a>'' 4 ''b'' = Some (''42</b></a>'', 2)"
    by (simp add: request_eval leaf_len_def)
  from s l leaf_in_scope [OF s l] show ?thesis by simp
qed

text \<open>
  C39: What a \<open>SetSystemDateAndTime\<close> request can make of the device, whatever its body is: the
  time zone text always fits its 48-byte field, and an accepted UTC time lies between the epoch
  and the end of the year 9999 (a leap second included).
\<close>

theorem set_request_bounds:
  "(let (ok, r) = onvif_time_parse_set_request body in
     length (tz r) < 48 \<and> 0 \<le> utc_epoch r \<and> utc_epoch r \<le> 253402300800 \<and>
     (has_utc r \<longrightarrow> ok))"
proof -
  have zone: "length (tz out') < 48 \<and> utc_epoch out' = utc_epoch out \<and> has_utc out' = has_utc out"
    if "time_zone_part b out = Some out'" "length (tz out) < 48" for b out out'
    using that by (auto simp: time_zone_part_def split: option.splits if_splits)
  show ?thesis
    by (auto simp: onvif_time_parse_set_request_def Let_def time_req_zero_def
        dest!: zone dest: utc_part_value split: option.splits)
qed

theorem set_request_bounds_witness:
  "fst (onvif_time_parse_set_request None) = False \<and> length (tz (snd (onvif_time_parse_set_request None))) < 48"
  using set_request_bounds [of None] by (simp add: onvif_time_parse_set_request_def)

text \<open>
  C24: A client's \<open>SetSystemDateAndTime\<close> request is read back exactly: mode, time zone (the first
  47 characters of it), and the date and time as the seconds of the civil calendar.
\<close>

theorem set_request_roundtrip:
  assumes "CHR ''<'' \<notin> set mode" "CHR ''<'' \<notin> set zone"
    and "1970 \<le> y" "y \<le> 9999" "1 \<le> mo" "mo \<le> 12" "1 \<le> d" "d \<le> 31" "h \<le> 23" "mi \<le> 59" "s \<le> 60"
  shows "onvif_time_parse_set_request (Some (set_time_request mode zone y mo d h mi s)) =
    (True, \<lparr>ntp_mode = (mode = ''NTP''), has_utc = True,
            utc_epoch = civil_seconds (int y) (int mo) (int d) (int h) (int mi) (int s),
            has_tz = True, tz = take 47 zone\<rparr>)"
  using assms by (rule set_request_parsed)

theorem set_request_roundtrip_witness:
  "onvif_time_parse_set_request (Some (set_time_request ''Manual'' ''CET-1CEST'' 2026 9 20 7 42 13)) =
    (True, \<lparr>ntp_mode = False, has_utc = True, utc_epoch = 1789890133, has_tz = True, tz = ''CET-1CEST''\<rparr>)"
proof -
  have "civil_seconds 2026 9 20 7 42 13 = 1789890133"
    using created_seconds_eq [of 9 2026 20 7 42 13] civil_closed_correct [of 2026 9 20]
    by (simp add: civil_seconds_def created_seconds_def)
  then show ?thesis
    using set_request_roundtrip [of "''Manual''" "''CET-1CEST''" 2026 9 20 7 42 13] by simp
qed

text \<open>
  \<open>SetNTP\<close> never overruns its caller's array: at most \<open>max\<close> servers are returned, each one
  non-empty, shorter than its 46-byte slot and without markup.
\<close>

theorem set_ntp_bounds:
  assumes "0 \<le> mx"
  shows "int (length (onvif_time_parse_set_ntp body mx)) \<le> mx \<and>
    (\<forall>h\<in>set (onvif_time_parse_set_ntp body mx). 0 < length h \<and> length h < ONVIF_TIME_HOST_MAX \<and> CHR ''<'' \<notin> set h)"
  using set_ntp_hosts [of body mx] assms by (auto simp: list_all_iff host_ok_def)

theorem set_ntp_bounds_witness:
  "int (length (onvif_time_parse_set_ntp (Some ''<a:IPv4Address>10.0.0.1</a:IPv4Address>'') 8)) \<le> 8 \<and>
     list_all (\<lambda>h. length h < 46) (onvif_time_parse_set_ntp (Some ''<a:IPv4Address>10.0.0.1</a:IPv4Address>'') 8)"
  using set_ntp_bounds [of 8 "Some ''<a:IPv4Address>10.0.0.1</a:IPv4Address>''"]
  by (simp add: ONVIF_TIME_HOST_MAX_def list_all_iff)

text \<open>
  C40: A client's list of IPv4 servers comes back in request order, cut at the caller's maximum,
  when the closing tags are directly followed by the next tag.
\<close>

theorem set_ntp_roundtrip:
  assumes "list_all ipv4_text hs" and "0 < mx"
  shows "onvif_time_parse_set_ntp (Some (set_ntp_request hs)) mx = take (nat mx) hs"
  using assms by (rule set_ntp_request_parsed)

theorem set_ntp_roundtrip_witness:
  "onvif_time_parse_set_ntp (Some (set_ntp_request [''10.0.0.1'', ''192.168.1.254''])) 8 = [''10.0.0.1'', ''192.168.1.254'']"
  using set_ntp_roundtrip [of "[''10.0.0.1'', ''192.168.1.254'']" 8] by (simp add: ipv4_text_def)

text \<open>
  White space after a closing tag becomes a server: the name is also found inside
  \<open></tt:IPv4Address>\<close>, so a pretty-printed request yields the text between the tags as an extra entry.
\<close>

theorem set_ntp_takes_whitespace:
  "onvif_time_parse_set_ntp (Some ''<tt:IPv4Address>10.0.0.1</tt:IPv4Address> </tds:NTPManual>'') 8 =
     [''10.0.0.1'', '' '']"
  by (simp add: onvif_time_parse_set_ntp_def ntp_pass.simps ntp_at_def Let_def
      c_isalnum_def c_isalpha_def c_isdigit_def ONVIF_TIME_HOST_MAX_def)


section \<open>The request in an envelope with a header\<close>

definition set_time_body :: "string \<Rightarrow> string \<Rightarrow> nat \<Rightarrow> nat \<Rightarrow> nat \<Rightarrow> nat \<Rightarrow> nat \<Rightarrow> nat \<Rightarrow> string" where
  "set_time_body mode zone y mo d h mi s =
     ''<s:Body><tds:SetSystemDateAndTime><tds:DateTimeType>'' @ mode @
     ''</tds:DateTimeType><tds:DaylightSavings>false</tds:DaylightSavings><tds:TimeZone><tt:TZ>'' @ zone @
     ''</tt:TZ></tds:TimeZone><tds:UTCDateTime><tt:Time><tt:Hour>'' @ show_nat h @
     ''</tt:Hour><tt:Minute>'' @ show_nat mi @ ''</tt:Minute><tt:Second>'' @ show_nat s @
     ''</tt:Second></tt:Time><tt:Date><tt:Year>'' @ show_nat y @ ''</tt:Year><tt:Month>'' @ show_nat mo @
     ''</tt:Month><tt:Day>'' @ show_nat d @
     ''</tt:Day></tt:Date></tds:UTCDateTime></tds:SetSystemDateAndTime></s:Body></s:Envelope>''"

lemma set_time_request_split: "set_time_request mode zone y mo d h mi s = ''<s:Envelope>'' @ set_time_body mode zone y mo d h mi s"
  by (simp add: set_time_request_def set_time_body_def)

lemma set_time_body_action: "contains (set_time_body mode zone y mo d h mi s) ''SetSystemDateAndTime''"
proof -
  have "set_time_body mode zone y mo d h mi s =
      ''<s:Body><tds:'' @ ''SetSystemDateAndTime'' @ drop 33 (set_time_body mode zone y mo d h mi s)"
    by (simp add: set_time_body_def)
  then show ?thesis by (metis contains_mid)
qed

text \<open>The parser looks for four names from the start of the body; two texts in which it finds the same
  are parsed alike.\<close>

lemma set_request_cong:
  assumes "\<And>l. l \<in> {''TimeZone'', ''UTCDateTime''} \<Longrightarrow> elem_scope b l = elem_scope b' l"
    and "\<And>l. l \<in> {''DateTimeType'', ''TZ''} \<Longrightarrow> leaf_text b 0 l = leaf_text b' 0 l"
  shows "onvif_time_parse_set_request (Some b) = onvif_time_parse_set_request (Some b')"
  unfolding onvif_time_parse_set_request_def time_zone_part_def
  by (simp only: assms insert_iff simp_thms option.case)

end
