(* ===== verification/Service.thy ===== *)
theory Service
  imports Port_Base Soap_Messages Time_Request Wsse Sha1_Vectors
begin

text \<open>
  \<open>esp_idf/onvif_c_service.c\<close>: responses, the authentication gate, the three dispatchers and their
  HTTP handlers.  A handler returns the error code and the effects in order; the nonce cache, the
  only state of the file besides the configuration, is passed along.
\<close>

type_synonym config = "onvif_c_time_req onvif_c_config"
type_synonym svc = "onvif_c_time_req outcome"

section \<open>Responses\<close>

definition send_fault :: "env \<Rightarrow> svc" where
  "send_fault env =
     (if \<not> env_mem_fault env then (ESP_FAIL, [])
      else (let (len, buf) = onvif_xml_fault_action_not_supported ONVIF_C_RESP_MAX
            in (ESP_OK, [Send 200 (if 0 < len then len else 0) buf])))"

definition send_built :: "env \<Rightarrow> (nat \<Rightarrow> int \<times> string) \<Rightarrow> svc" where
  "send_built env build =
     (if \<not> env_mem_resp env then (ESP_FAIL, [])
      else (let (len, buf) = build ONVIF_C_RESP_MAX in
            if len \<le> 0 \<or> int ONVIF_C_RESP_MAX \<le> len then send_fault env
            else (ESP_OK, [Send 200 len buf])))"

text \<open>Effects that come before the rest of a handler.\<close>

definition after :: "onvif_c_time_req effect list \<Rightarrow> svc \<Rightarrow> svc" where
  "after es r = (fst r, es @ snd r)"


section \<open>Device service\<close>

definition handle_get_system_date_and_time :: "env \<Rightarrow> config \<Rightarrow> svc" where
  "handle_get_system_date_and_time env cfg =
     (let utc = gmtime (env_now env);
          ntp_active = (case cfg_time_ntp_active cfg of Some b \<Rightarrow> b | None \<Rightarrow> False);
          zone = (case cfg_time_tz cfg of Some z \<Rightarrow> z | None \<Rightarrow> None)
      in send_built env (\<lambda>n. onvif_xml_system_date_and_time n utc ntp_active zone))"

definition apply_failed :: "env \<Rightarrow> string \<Rightarrow> esp_err \<Rightarrow> svc" where
  "apply_failed env what err =
     (let why = snd (snprintf 96 (what @ env_err_name env err))
      in send_built env (\<lambda>n. onvif_xml_fault_invalid n (Some ''ter:InvalidArgVal'') (Some why)))"

definition handle_set_system_date_and_time :: "env \<Rightarrow> config \<Rightarrow> string \<Rightarrow> svc" where
  "handle_set_system_date_and_time env cfg body =
     (case cfg_time_apply cfg of
        None \<Rightarrow> send_built env onvif_xml_fault_action_not_supported
      | Some time_apply \<Rightarrow>
          (let (ok, tr) = onvif_time_parse_set_request (Some body) in
           if \<not> ok then send_built env
             (\<lambda>n. onvif_xml_fault_invalid n (Some ''ter:InvalidArgVal'') (Some ''malformed UTCDateTime''))
           else (let err = time_apply tr in
             after [Time_Apply tr]
               (if err \<noteq> ESP_OK then apply_failed env ''time apply failed: '' err
                else send_built env onvif_xml_set_system_date_and_time_ack))))"

definition handle_set_ntp :: "env \<Rightarrow> config \<Rightarrow> string \<Rightarrow> svc" where
  "handle_set_ntp env cfg body =
     (case cfg_ntp_set cfg of
        None \<Rightarrow> send_built env onvif_xml_fault_action_not_supported
      | Some ntp_set \<Rightarrow>
          (let srv = onvif_time_parse_set_ntp (Some body) 8; err = ntp_set srv in
           after [Ntp_Set srv]
             (if err \<noteq> ESP_OK then apply_failed env ''ntp apply failed: '' err
              else send_built env onvif_xml_set_ntp_response)))"

definition handle_get_device_information :: "env \<Rightarrow> config \<Rightarrow> svc" where
  "handle_get_device_information env cfg =
     send_built env (\<lambda>n. onvif_xml_device_information n (c_text (cfg_manufacturer cfg)) (c_text (cfg_model cfg))
       (c_text (cfg_firmware_version cfg)) (c_text (cfg_serial cfg)) (c_text (cfg_hardware_id cfg)))"

definition handle_get_capabilities :: "env \<Rightarrow> config \<Rightarrow> svc" where
  "handle_get_capabilities env cfg =
     send_built env (\<lambda>n. onvif_xml_capabilities n (onvif_c_cfg_ip cfg) (cfg_port cfg) (onvif_c_cfg_has_events cfg))"

text \<open>\<open>log_unsupported\<close>: at most 63 characters of the first tag after the body tag.\<close>

definition log_unsupported :: "string \<Rightarrow> onvif_c_time_req effect list" where
  "log_unsupported body =
     (case strstr body '':Body>'' of
        None \<Rightarrow> []
      | Some s \<Rightarrow>
          (case strchr (drop 6 s) (CHR ''<'') of
             None \<Rightarrow> []
           | Some t \<Rightarrow>
               (let start = tl t;
                    ends = (case strchr start (CHR '' '') of
                              None \<Rightarrow> strchr start (CHR ''>'') | Some e \<Rightarrow> Some e)
                in case ends of
                     None \<Rightarrow> []
                   | Some e \<Rightarrow>
                       (let len = length start - length e
                        in [Log_Unsupported (take (if 63 < len then 63 else len) start)]))))"

definition dispatch_device_action :: "env \<Rightarrow> config \<Rightarrow> string option \<Rightarrow> svc" where
  "dispatch_device_action env cfg body0 =
     (case body0 of
        None \<Rightarrow> send_fault env
      | Some body \<Rightarrow>
          if contains body ''GetSystemDateAndTime'' then handle_get_system_date_and_time env cfg
          else if contains body ''GetDeviceInformation'' then handle_get_device_information env cfg
          else if contains body ''GetCapabilities'' then handle_get_capabilities env cfg
          else if contains body ''GetServices'' then
            send_built env (\<lambda>n. onvif_xml_services n (onvif_c_cfg_ip cfg) (cfg_port cfg) (onvif_c_cfg_has_events cfg))
          else if contains body ''GetScopes'' then send_built env (\<lambda>n. onvif_xml_get_scopes n (cfg_scopes cfg))
          else if contains body ''SystemReboot'' then send_built env onvif_xml_system_reboot
          else if contains body ''SetNTP'' then handle_set_ntp env cfg body
          else if contains body ''SetSystemDateAndTime'' then handle_set_system_date_and_time env cfg body
          else if contains body ''GetServiceCapabilities'' then send_built env onvif_xml_device_service_capabilities
          else after (log_unsupported body) (send_fault env))"


section \<open>Media services\<close>

definition cfg_fps :: "config \<Rightarrow> int" where
  "cfg_fps cfg = (case cfg_frame_rate cfg of Some f \<Rightarrow> uint f | None \<Rightarrow> 15)"

definition handle_get_profiles :: "env \<Rightarrow> config \<Rightarrow> svc" where
  "handle_get_profiles env cfg = send_built env (\<lambda>n. onvif_xml_profiles n (cfg_fps cfg))"

definition handle_get_stream_uri :: "env \<Rightarrow> config \<Rightarrow> svc" where
  "handle_get_stream_uri env cfg = send_built env (\<lambda>n. onvif_xml_stream_uri n (c_text (cfg_stream_uri cfg)))"

definition handle_get_snapshot :: "env \<Rightarrow> config \<Rightarrow> svc" where
  "handle_get_snapshot env cfg =
     (case cfg_snapshot_uri cfg of
        Some uri \<Rightarrow> send_built env (\<lambda>n. onvif_xml_snapshot_uri n uri)
      | None \<Rightarrow>
          (let uri = snd (snprintf 128 (''http://'' @ onvif_c_cfg_ip cfg @ '':'' @ show_nat (cfg_port cfg) @ ''/api/capture''))
           in send_built env (\<lambda>n. onvif_xml_snapshot_uri n uri)))"

definition keyframe_effect :: "config \<Rightarrow> onvif_c_time_req effect list" where
  "keyframe_effect cfg = (if cfg_on_keyframe cfg then [Keyframe] else [])"

definition dispatch_media_action :: "env \<Rightarrow> config \<Rightarrow> string option \<Rightarrow> svc" where
  "dispatch_media_action env cfg body0 =
     (case body0 of
        None \<Rightarrow> send_fault env
      | Some body \<Rightarrow>
          if contains body ''GetProfiles'' then handle_get_profiles env cfg
          else if contains body ''GetStreamUri'' then handle_get_stream_uri env cfg
          else if contains body ''GetSnapshotUri'' \<or> contains body ''GetSnapshot'' then handle_get_snapshot env cfg
          else if contains body ''GetVideoSources'' then
            send_built env (\<lambda>n. onvif_xml_video_sources n ''VideoSource_1'' 640 480 (cfg_fps cfg))
          else if contains body ''GetVideoEncoderConfigurationOptions'' then
            send_built env (\<lambda>n. onvif_xml_video_encoder_configuration_options n 640 480 (cfg_fps cfg))
          else if contains body ''GetVideoEncoderConfigurations'' then
            send_built env (\<lambda>n. onvif_xml_video_encoder_configurations n ''VideoEncoder_1'' 640 480 (cfg_fps cfg) 4096)
          else if contains body ''GetVideoEncoderConfiguration'' then
            send_built env (\<lambda>n. onvif_xml_video_encoder_configuration n ''VideoEncoder_1'' 640 480 (cfg_fps cfg) 4096)
          else if contains body ''SetVideoEncoderConfiguration'' then
            send_built env onvif_xml_set_video_encoder_configuration_ack
          else if contains body ''GetGuaranteedNumberOfVideoEncoderInstances'' then
            send_built env onvif_xml_guaranteed_encoder_instances
          else if contains body ''SetSynchronizationPoint'' then
            after (keyframe_effect cfg) (send_built env onvif_xml_set_synchronization_point_ack)
          else if contains body ''GetServiceCapabilities'' then send_built env onvif_xml_media_service_capabilities
          else after (log_unsupported body) (send_fault env))"

definition dispatch_media2_action :: "env \<Rightarrow> config \<Rightarrow> string option \<Rightarrow> svc" where
  "dispatch_media2_action env cfg body0 =
     (case body0 of
        None \<Rightarrow> send_fault env
      | Some body \<Rightarrow>
          if contains body ''GetProfiles'' then send_built env (\<lambda>n. onvif_xml_media2_profiles n (cfg_fps cfg))
          else if contains body ''GetStreamUri'' then
            send_built env (\<lambda>n. onvif_xml_media2_stream_uri n (c_text (cfg_stream_uri cfg)))
          else if contains body ''SetSynchronizationPoint'' then
            after (keyframe_effect cfg) (send_built env onvif_xml_media2_sync_point_ack)
          else after (log_unsupported body) (send_fault env))"


section \<open>Authentication gate and handlers\<close>

definition onvif_c_auth_gate ::
  "env \<Rightarrow> config \<Rightarrow> nonce_cache \<Rightarrow> string option \<Rightarrow> bool \<times> nonce_cache \<times> onvif_c_time_req effect list" where
  "onvif_c_auth_gate env cfg cache body =
     (case cfg_auth_password cfg of
        None \<Rightarrow> (True, cache, [])
      | Some password \<Rightarrow>
          if (case body of Some b \<Rightarrow> contains b ''GetSystemDateAndTime'' | None \<Rightarrow> False) then (True, cache, [])
          else (let username = (case cfg_auth_username cfg of Some u \<Rightarrow> u | None \<Rightarrow> ''admin'');
                    (st, cache') = onvif_wsse_verify (Some (case body of Some b \<Rightarrow> b | None \<Rightarrow> []))
                      (Some username) password (env_now env) (uint (cfg_auth_window_secs cfg))
                      (cfg_auth_allow_password_text cfg) (Some cache);
                    cache'' = (case cache' of Some c \<Rightarrow> c | None \<Rightarrow> cache)
                in if st = WSSE_OK then (True, cache'', [])
                   else if \<not> env_mem_deny env then (False, cache'', [])
                   else (let (len, buf) = onvif_xml_fault_not_authorized ONVIF_C_RESP_MAX
                         in (False, cache'', [Send 401 (if 0 < len then len else 0) buf]))))"

definition service_handler ::
  "(env \<Rightarrow> config \<Rightarrow> string option \<Rightarrow> svc) \<Rightarrow> env \<Rightarrow> config \<Rightarrow> nonce_cache \<Rightarrow> request \<Rightarrow> svc \<times> nonce_cache" where
  "service_handler dispatch env cfg cache req =
     (let body = read_body req; (ok, cache', es) = onvif_c_auth_gate env cfg cache body
      in if \<not> ok then ((ESP_OK, es), cache') else (after es (dispatch env cfg body), cache'))"

definition device_service_handler :: "env \<Rightarrow> config \<Rightarrow> nonce_cache \<Rightarrow> request \<Rightarrow> svc \<times> nonce_cache" where
  "device_service_handler = service_handler dispatch_device_action"

definition media_service_handler :: "env \<Rightarrow> config \<Rightarrow> nonce_cache \<Rightarrow> request \<Rightarrow> svc \<times> nonce_cache" where
  "media_service_handler = service_handler dispatch_media_action"

definition media2_service_handler :: "env \<Rightarrow> config \<Rightarrow> nonce_cache \<Rightarrow> request \<Rightarrow> svc \<times> nonce_cache" where
  "media2_service_handler = service_handler dispatch_media2_action"


section \<open>What a handler's result promises\<close>

lemma render_doc_pos: "0 < length (render_doc enc d)"
  by (simp add: render_doc_def)

lemma send_fault_eq:
  "send_fault env =
     (if env_mem_fault env
      then (ESP_OK, [Send 200 (int (length (render_doc ''utf-8'' fault_action_not_supported_doc)))
        (render_doc ''utf-8'' fault_action_not_supported_doc)])
      else (ESP_FAIL, []))"
proof -
  have "onvif_xml_fault_action_not_supported ONVIF_C_RESP_MAX =
      (int (length (render_doc ''utf-8'' fault_action_not_supported_doc)), render_doc ''utf-8'' fault_action_not_supported_doc)"
    using fault_action_not_supported_renders [of ONVIF_C_RESP_MAX] fault_action_not_supported_length
    by (simp add: renders_def ONVIF_C_RESP_MAX_def)
  then show ?thesis
    using render_doc_pos [of "''utf-8''" fault_action_not_supported_doc] by (simp add: send_fault_def)
qed

lemma send_built_eq:
  assumes "\<And>n. renders n (build n) (render_doc enc d)"
  shows "send_built env build =
    (if \<not> env_mem_resp env then (ESP_FAIL, [])
     else if length (render_doc enc d) < 4096
     then (ESP_OK, [Send 200 (int (length (render_doc enc d))) (render_doc enc d)])
     else send_fault env)"
proof -
  have r: "renders 4096 (build 4096) (render_doc enc d)" by (rule assms)
  obtain len buf where b: "build 4096 = (len, buf)" by fastforce
  show ?thesis
    using r render_doc_pos [of enc d] by (auto simp: send_built_def ONVIF_C_RESP_MAX_def b renders_def)
qed

text \<open>Sends stay in bounds; with memory there is exactly one, and the handler succeeds.\<close>

definition answered :: "env \<Rightarrow> svc \<Rightarrow> bool" where
  "answered env r \<longleftrightarrow> list_all send_in_bounds (snd r) \<and> length (filter is_send (snd r)) \<le> 1 \<and>
     (env_mem_resp env \<and> env_mem_fault env \<longrightarrow> fst r = ESP_OK \<and> length (filter is_send (snd r)) = 1)"

lemma answered_fault: "answered env (send_fault env)"
  using render_doc_pos by (simp add: answered_def send_fault_eq)

lemma answered_built:
  assumes "\<And>n. renders n (build n) (render_doc enc d)"
  shows "answered env (send_built env build)"
  unfolding send_built_eq [OF assms]
  using render_doc_pos [of enc d] answered_fault [of env] by (auto simp: answered_def)

lemma answered_after:
  "answered env r \<Longrightarrow> \<forall>e\<in>set es. \<not> is_send e \<Longrightarrow> answered env (after es r)"
proof -
  have "list_all send_in_bounds es" if "\<forall>e\<in>set es. \<not> is_send e" for es :: "onvif_c_time_req effect list"
    using that by (induction es) (auto elim!: is_send.elims)
  moreover assume "answered env r" "\<forall>e\<in>set es. \<not> is_send e"
  ultimately show ?thesis by (simp add: answered_def after_def filter_empty_conv)
qed

lemma log_no_send: "e \<in> set (log_unsupported body) \<Longrightarrow> \<not> is_send e"
  by (auto simp: log_unsupported_def Let_def simp del: strchr_None_iff split: option.splits)

lemma keyframe_no_send: "e \<in> set (keyframe_effect cfg) \<Longrightarrow> \<not> is_send e"
  by (simp add: keyframe_effect_def split: if_splits)

lemmas answered_builders = builders_render [THEN answered_built]

lemma answered_apply_failed: "answered env (apply_failed env what err)"
  by (simp add: apply_failed_def Let_def answered_builders)

lemma answered_set_ntp: "answered env (handle_set_ntp env cfg body)"
  by (auto simp: handle_set_ntp_def Let_def answered_builders answered_apply_failed
      intro!: answered_after split: option.split)

lemma answered_set_time: "answered env (handle_set_system_date_and_time env cfg body)"
  by (auto simp: handle_set_system_date_and_time_def Let_def answered_builders answered_apply_failed
      intro!: answered_after split: option.split prod.split)

lemma answered_snapshot: "answered env (handle_get_snapshot env cfg)"
  by (simp add: handle_get_snapshot_def Let_def answered_builders split: option.split)

lemma answered_device: "answered env (dispatch_device_action env cfg body)"
  by (simp add: dispatch_device_action_def handle_get_system_date_and_time_def Let_def answered_builders
      handle_get_device_information_def handle_get_capabilities_def answered_set_ntp answered_set_time
      answered_fault answered_after log_no_send split: option.split)

lemma answered_media: "answered env (dispatch_media_action env cfg body)"
  by (simp add: dispatch_media_action_def handle_get_profiles_def handle_get_stream_uri_def answered_snapshot
      answered_builders answered_fault answered_after log_no_send keyframe_no_send split: option.split)

lemma answered_media2: "answered env (dispatch_media2_action env cfg body)"
  by (simp add: dispatch_media2_action_def answered_builders answered_fault answered_after
      log_no_send keyframe_no_send split: option.split)


section \<open>The handlers, from the dispatchers' contract\<close>

lemma verify_rejected:
  "onvif_wsse_verify env user pw now w at cache = (st, c') \<Longrightarrow> st \<noteq> WSSE_OK \<Longrightarrow> c' = cache"
proof -
  assume a: "onvif_wsse_verify env user pw now w at cache = (st, c')" "st \<noteq> WSSE_OK"
  show ?thesis
  proof (cases "env = None \<or> pw = None")
    case True
    then show ?thesis using a by (auto simp: verify_fail_closed)
  next
    case False
    then show ?thesis using a verify_other_keeps by auto
  qed
qed

locale soap_dispatcher =
  fixes dispatch :: "env \<Rightarrow> config \<Rightarrow> string option \<Rightarrow> svc"
  assumes dispatch_answered: "answered env (dispatch env cfg body)"
begin

lemma gate_cases:
  obtains (allow) "fst (onvif_c_auth_gate env cfg cache body)" "snd (snd (onvif_c_auth_gate env cfg cache body)) = []"
  | (deny) "\<not> fst (onvif_c_auth_gate env cfg cache body)"
      "snd (onvif_c_auth_gate env cfg cache body) =
        (cache, if env_mem_deny env then [Send 401 (int (length (render_doc ''utf-8'' fault_not_authorized_doc)))
                  (render_doc ''utf-8'' fault_not_authorized_doc)] else [])"
proof -
  have T: "onvif_xml_fault_not_authorized ONVIF_C_RESP_MAX =
      (int (length (render_doc ''utf-8'' fault_not_authorized_doc)), render_doc ''utf-8'' fault_not_authorized_doc)"
    using fault_not_authorized_renders [of ONVIF_C_RESP_MAX] fault_not_authorized_length
    by (simp add: renders_def ONVIF_C_RESP_MAX_def)
  show ?thesis
  proof (cases "cfg_auth_password cfg = None \<or> (case body of Some b \<Rightarrow> contains b ''GetSystemDateAndTime'' | None \<Rightarrow> False)")
    case True
    then show ?thesis by (intro allow) (auto simp: onvif_c_auth_gate_def split: option.split)
  next
    case False
    then obtain pw where pw: "cfg_auth_password cfg = Some pw" by auto
    let ?u = "Some (case cfg_auth_username cfg of Some u \<Rightarrow> u | None \<Rightarrow> ''admin'')"
    obtain st c' where v: "onvif_wsse_verify (Some (case body of Some b \<Rightarrow> b | None \<Rightarrow> [])) ?u pw (env_now env)
        (uint (cfg_auth_window_secs cfg)) (cfg_auth_allow_password_text cfg) (Some cache) = (st, c')" by fastforce
    show ?thesis
    proof (cases "st = WSSE_OK")
      case True
      then show ?thesis using False by (intro allow) (simp_all add: onvif_c_auth_gate_def pw v)
    next
      case st: False
      then have "c' = Some cache" using verify_rejected [OF v] by simp
      then show ?thesis using False st T render_doc_pos [of "''utf-8''" fault_not_authorized_doc]
        by (intro deny) (simp_all add: onvif_c_auth_gate_def pw v)
    qed
  qed
qed

lemma handler_answered:
  "(let r = fst (service_handler dispatch env cfg cache req) in
     list_all send_in_bounds (snd r) \<and> length (filter is_send (snd r)) \<le> 1 \<and>
     (env_mem_resp env \<and> env_mem_fault env \<and> env_mem_deny env \<longrightarrow>
        fst r = ESP_OK \<and> length (filter is_send (snd r)) = 1))"
proof (cases rule: gate_cases [of env cfg cache "read_body req"])
  case allow
  then show ?thesis
    using dispatch_answered [of env cfg "read_body req"]
    by (auto simp: service_handler_def Let_def after_def answered_def split: prod.splits)
next
  case deny
  then show ?thesis
    using render_doc_pos [of "''utf-8''" fault_not_authorized_doc]
    by (auto simp: service_handler_def Let_def split: prod.splits)
qed

lemma handler_denied:
  assumes "cfg_auth_password cfg = Some pw"
    and "\<not> contains (case read_body req of Some b \<Rightarrow> b | None \<Rightarrow> []) ''GetSystemDateAndTime''"
    and "fst (onvif_wsse_verify (Some (case read_body req of Some b \<Rightarrow> b | None \<Rightarrow> []))
           (Some (case cfg_auth_username cfg of Some u \<Rightarrow> u | None \<Rightarrow> ''admin'')) pw (env_now env)
           (uint (cfg_auth_window_secs cfg)) (cfg_auth_allow_password_text cfg) (Some cache)) \<noteq> WSSE_OK"
  shows "service_handler dispatch env cfg cache req =
    ((ESP_OK, if env_mem_deny env then [Send 401 (int (length (render_doc ''utf-8'' fault_not_authorized_doc)))
        (render_doc ''utf-8'' fault_not_authorized_doc)] else []), cache)"
proof (cases rule: gate_cases [of env cfg cache "read_body req"])
  case allow
  obtain st c' where v: "onvif_wsse_verify (Some (case read_body req of Some b \<Rightarrow> b | None \<Rightarrow> []))
      (Some (case cfg_auth_username cfg of Some u \<Rightarrow> u | None \<Rightarrow> ''admin'')) pw (env_now env)
      (uint (cfg_auth_window_secs cfg)) (cfg_auth_allow_password_text cfg) (Some cache) = (st, c')" by fastforce
  have "\<not> (case read_body req of Some b \<Rightarrow> contains b ''GetSystemDateAndTime'' | None \<Rightarrow> False)"
    using assms(2) by (simp split: option.splits)
  then have "\<not> fst (onvif_c_auth_gate env cfg cache (read_body req))"
    using assms(3) by (simp add: onvif_c_auth_gate_def assms(1) v Let_def split: prod.split)
  with allow show ?thesis by simp
next
  case deny
  then show ?thesis by (auto simp: service_handler_def Let_def split: prod.splits)
qed

lemma handler_open:
  assumes "read_body req = Some b" and "contains b ''GetSystemDateAndTime''"
  shows "service_handler dispatch env cfg cache req = (dispatch env cfg (Some b), cache)"
proof -
  have "onvif_c_auth_gate env cfg cache (Some b) = (True, cache, [])"
    using assms(2) by (cases "cfg_auth_password cfg") (simp_all add: onvif_c_auth_gate_def)
  then show ?thesis by (simp add: service_handler_def assms(1) after_def)
qed

end

interpretation device: soap_dispatcher dispatch_device_action
  by unfold_locales (rule answered_device)

interpretation media: soap_dispatcher dispatch_media_action
  by unfold_locales (rule answered_media)

interpretation media2: soap_dispatcher dispatch_media2_action
  by unfold_locales (rule answered_media2)


section \<open>Applying the time\<close>

definition reply :: "xml \<Rightarrow> svc" where
  "reply d = (ESP_OK, [Send 200 (int (length (render_doc ''utf-8'' d))) (render_doc ''utf-8'' d)])"

lemma send_built_reply:
  assumes "\<And>n. renders n (build n) (render_doc ''utf-8'' d)" and "env_mem_resp env"
    and "length (render_doc ''utf-8'' d) < 4096"
  shows "send_built env build = reply d"
  using assms(2,3) by (simp add: send_built_eq [OF assms(1)] reply_def)

lemma apply_failed_reply:
  assumes "env_mem_resp env"
  shows "apply_failed env what err =
    reply (fault_invalid_doc (Some ''ter:InvalidArgVal'') (Some (take 95 (what @ env_err_name env err))))"
proof -
  let ?why = "take 95 (what @ env_err_name env err)"
  have "length ?why \<le> 95" by simp
  then show ?thesis
    unfolding apply_failed_def Let_def snprintf_sel
    by (intro send_built_reply) (simp_all add: fault_invalid_renders fault_invalid_length assms)
qed


section \<open>A client's request in a signed envelope\<close>

text \<open>A header is a sequence of tags, each followed by text without a tag; none of them opens the element
  that is looked for.\<close>

lemma tags_skipped:
  assumes "list_all (\<lambda>(name, tx). CHR ''<'' \<notin> set name \<and> CHR ''<'' \<notin> set tx \<and> (\<forall>q. open_tag (name @ q) l = None)) ts"
  shows "elem_scope (concat (map (\<lambda>(name, tx). ''<'' @ name @ tx) ts) @ p) l = elem_scope p l \<and>
    leaf_text (concat (map (\<lambda>(name, tx). ''<'' @ name @ tx) ts) @ p) 0 l = leaf_text p 0 l"
  using assms
proof (induction ts)
  case (Cons t ts)
  obtain name tx where t: "t = (name, tx)" by (cases t)
  with Cons.prems have n: "CHR ''<'' \<notin> set (name @ tx)" "open_tag (name @ tx @ q) l = None" for q by auto
  have "elem_scope (name @ tx @ q) l = elem_scope q l" "leaf_text (name @ tx @ q) 0 l = leaf_text q 0 l" for q
    using elem_scope_chunk [OF n(1), of q l] leaf_text_chunk [OF n(1), of q 0 l] by simp_all
  with Cons t n(2) show ?case by (simp add: elem_scope_Cons leaf_text_Cons)
qed simp

definition envelope_tags :: "string \<Rightarrow> string \<Rightarrow> string \<Rightarrow> string \<Rightarrow> (string \<times> string) list" where
  "envelope_tags u d nb cr =
     [(''s:Envelope>'', []), (''s:Header>'', []), (''wsse:Security>'', []), (''wsse:UsernameToken>'', []),
      (''wsse:Username>'', u), (''/wsse:Username>'', []), (''wsse:Password Type=\"profile-1.0#PasswordDigest\">'', d),
      (''/wsse:Password>'', []), (''wsse:Nonce>'', nb), (''/wsse:Nonce>'', []), (''wsu:Created>'', cr),
      (''/wsu:Created>'', []), (''/wsse:UsernameToken>'', []), (''/wsse:Security>'', []), (''/s:Header>'', [])]"

lemma client_envelope_tags:
  "client_envelope u d nb cr rest = concat (map (\<lambda>(name, tx). ''<'' @ name @ tx) (envelope_tags u d nb cr)) @ rest"
  by (simp add: client_envelope_def envelope_tags_def)

lemma space_class: "\<not> ident_char (CHR '' '')"
  by (simp add: ident_char_def c_isalnum_def c_isalpha_def c_isdigit_def)

lemma envelope_tags_other:
  assumes "l \<in> {''TimeZone'', ''UTCDateTime'', ''DateTimeType'', ''TZ''}"
    and "CHR ''<'' \<notin> set u" "CHR ''<'' \<notin> set d" "CHR ''<'' \<notin> set nb" "CHR ''<'' \<notin> set cr"
  shows "list_all (\<lambda>(name, tx). CHR ''<'' \<notin> set name \<and> CHR ''<'' \<notin> set tx \<and> (\<forall>q. open_tag (name @ q) l = None))
    (envelope_tags u d nb cr)"
  using assms(1)
  by (elim insertE emptyE) (simp_all add: envelope_tags_def assms(2-) open_tag_def tag_is_eq split_name_def scan_ident_def
      class_facts space_class Let_def)

lemma envelope_skipped:
  assumes "CHR ''<'' \<notin> set u" "CHR ''<'' \<notin> set d" "CHR ''<'' \<notin> set nb" "CHR ''<'' \<notin> set cr"
  shows "l \<in> {''TimeZone'', ''UTCDateTime''} \<Longrightarrow> elem_scope (client_envelope u d nb cr rest) l = elem_scope rest l"
    and "l \<in> {''DateTimeType'', ''TZ''} \<Longrightarrow> leaf_text (client_envelope u d nb cr rest) 0 l = leaf_text rest 0 l"
  unfolding client_envelope_tags
  by (intro tags_skipped [THEN conjunct1] tags_skipped [THEN conjunct2] envelope_tags_other assms; blast)+

lemma bare_skipped:
  "l \<in> {''TimeZone'', ''UTCDateTime''} \<Longrightarrow> elem_scope (''<s:Envelope>'' @ rest) l = elem_scope rest l"
  "l \<in> {''DateTimeType'', ''TZ''} \<Longrightarrow> leaf_text (''<s:Envelope>'' @ rest) 0 l = leaf_text rest 0 l"
  by (auto simp: request_eval)

text \<open>The token does not change what is parsed.\<close>

lemma signed_request_parsed:
  assumes "CHR ''<'' \<notin> set u" "CHR ''<'' \<notin> set cr" "CHR ''<'' \<notin> set mode" "CHR ''<'' \<notin> set zone"
    and "1970 \<le> y" "y \<le> 9999" "1 \<le> mo" "mo \<le> 12" "1 \<le> d" "d \<le> 31" "h \<le> 23" "mi \<le> 59" "s \<le> 60"
  shows "onvif_time_parse_set_request
      (Some (client_envelope u (b64_text dg) (b64_text nonce) cr (set_time_body mode zone y mo d h mi s))) =
    (True, \<lparr>ntp_mode = (mode = ''NTP''), has_utc = True,
            utc_epoch = civil_seconds (int y) (int mo) (int d) (int h) (int mi) (int s),
            has_tz = True, tz = take 47 zone\<rparr>)"
  unfolding set_request_parsed [OF assms(3-), unfolded set_time_request_split, symmetric]
  by (intro set_request_cong)
    (simp_all only: envelope_skipped [OF assms(1) b64_text_clean(1) b64_text_clean(1) assms(2)] bare_skipped)

text \<open>The dispatch of such a request, once it is admitted.\<close>

lemma set_time_dispatched:
  assumes "cfg_time_apply cfg = Some f" and "env_mem_resp env"
    and "contains b ''SetSystemDateAndTime''" and "onvif_time_parse_set_request (Some b) = (True, tr)"
    and "\<forall>k\<in>{''GetSystemDateAndTime'', ''GetDeviceInformation'', ''GetCapabilities'', ''GetServices'', ''GetScopes'',
           ''SystemReboot'', ''SetNTP''}. \<not> contains b k"
  shows "dispatch_device_action env cfg (Some b) =
    after [Time_Apply tr]
      (reply (if f tr = ESP_OK then set_system_date_and_time_ack_doc
              else fault_invalid_doc (Some ''ter:InvalidArgVal'')
                     (Some (take 95 (''time apply failed: '' @ env_err_name env (f tr))))))"
proof -
  have "send_built env onvif_xml_set_system_date_and_time_ack = reply set_system_date_and_time_ack_doc"
    by (intro send_built_reply set_system_date_and_time_ack_renders assms(2))
      (simp add: set_system_date_and_time_ack_length)
  then have "handle_set_system_date_and_time env cfg b =
      after [Time_Apply tr] (reply (if f tr = ESP_OK then set_system_date_and_time_ack_doc
              else fault_invalid_doc (Some ''ter:InvalidArgVal'')
                     (Some (take 95 (''time apply failed: '' @ env_err_name env (f tr))))))"
    by (simp add: handle_set_system_date_and_time_def assms(1,4) Let_def apply_failed_reply [OF assms(2)])
  then show ?thesis
    using assms(3,5) by (simp add: dispatch_device_action_def)
qed

lemma client_envelope_keeps: "contains rest k \<Longrightarrow> contains (client_envelope u d nb cr rest) k"
  by (simp add: client_envelope_tags contains_append_right)

text \<open>What is free of a NUL and of a hash, so that the handler sees the whole body and a digest token.\<close>

lemma show_nat_no_mark: "NUL \<notin> set (show_nat n)" "CHR ''#'' \<notin> set (show_nat n)"
  using show_nat_set [of n] by auto

lemma no_char: "list_all (\<lambda>c. c \<noteq> x) s \<longleftrightarrow> x \<notin> set s"
  by (auto simp: list_all_iff)

lemma signed_request_plain:
  assumes "NUL \<notin> set u \<union> set cr \<union> set mode \<union> set zone"
  shows "list_all (\<lambda>c. c \<noteq> NUL) (client_envelope u (b64_text dg) (b64_text nonce) cr (set_time_body mode zone y mo d h mi s))"
  using assms by (simp add: no_char client_envelope_def set_time_body_def show_nat_no_mark b64_text_no_nul [unfolded no_char])

lemma set_time_body_digest:
  assumes "CHR ''#'' \<notin> set mode \<union> set zone"
  shows "\<not> contains (set_time_body mode zone y mo d h mi s) ''#PasswordText''"
  using assms
  by (simp add: set_time_body_def contains_Cons contains_chunk show_nat_no_mark) (simp add: contains_def)

text \<open>A body that arrives in pieces is read whole.\<close>

lemma read_body_delivered:
  assumes "req_mem req" and "[] \<notin> set (req_pieces req)" and "concat (req_pieces req) = b" and "req_len req = length b"
    and "b \<noteq> []" and "length b \<le> 4096" and "list_all (\<lambda>c. c \<noteq> NUL) b"
  shows "read_body req = Some b"
  using assms
  by (simp add: read_body_def ONVIF_C_BODY_MAX_def recv_loop_pieces c_str_def takeWhile_eq_all_conv list_all_iff)

text \<open>The gate with a token that verifies.\<close>

lemma handler_verified:
  assumes "cfg_auth_password cfg = Some (Some pw)" and "read_body req = Some b"
    and "\<not> contains b ''GetSystemDateAndTime''"
    and "(case cfg_auth_username cfg of Some x \<Rightarrow> x | None \<Rightarrow> ''admin'') = user"
    and "onvif_wsse_verify (Some b) (Some user) (Some pw) (env_now env) (uint (cfg_auth_window_secs cfg))
           (cfg_auth_allow_password_text cfg) (Some cache) = (WSSE_OK, Some cache')"
  shows "service_handler dispatch env cfg cache req = (dispatch env cfg (Some b), cache')"
  using assms by (simp add: service_handler_def onvif_c_auth_gate_def after_def)


section \<open>Properties\<close>

text \<open>
  C21: No handler of the device, media and media2 services ever hands more bytes to the transport
  than its buffer's text has, whatever the configuration, the request and the state are, and none
  sends twice; when memory is available every request is answered by exactly one non-empty
  response and the handler returns \<open>ESP_OK\<close>.
\<close>

theorem services_answer_in_bounds:
  "h \<in> {device_service_handler, media_service_handler, media2_service_handler} \<Longrightarrow>
   (let r = fst (h env cfg cache req) in
     list_all send_in_bounds (snd r) \<and> length (filter is_send (snd r)) \<le> 1 \<and>
     (env_mem_resp env \<and> env_mem_fault env \<and> env_mem_deny env \<longrightarrow>
        fst r = ESP_OK \<and> length (filter is_send (snd r)) = 1))"
  using device.handler_answered media.handler_answered media2.handler_answered
  by (auto simp: device_service_handler_def media_service_handler_def media2_service_handler_def)

definition env_plain :: env where
  "env_plain = \<lparr>env_now = 1704067300, env_mem_resp = True, env_mem_fault = True, env_mem_deny = True,
     env_send_ret = 0, env_err_name = (\<lambda>_. ''ERROR'')\<rparr>"

definition request_of :: "string \<Rightarrow> request" where
  "request_of b = \<lparr>req_len = length b, req_pieces = [b], req_mem = True\<rparr>"

lemma read_request_of:
  "b \<noteq> [] \<Longrightarrow> length b \<le> 4096 \<Longrightarrow> list_all (\<lambda>c. c \<noteq> NUL) b \<Longrightarrow> read_body (request_of b) = Some b"
  by (simp add: read_body_def request_of_def ONVIF_C_BODY_MAX_def c_str_def takeWhile_eq_all_conv list_all_iff)

theorem services_answer_in_bounds_witness:
  "length (filter is_send (snd (fst (device_service_handler env_plain cfg_minimal zero_cache (request_of ''<x/>''))))) = 1"
  using services_answer_in_bounds [of device_service_handler env_plain cfg_minimal zero_cache "request_of ''<x/>''"]
  by (simp add: env_plain_def Let_def)

text \<open>
  C6: With a password configured, a request whose body does not mention \<open>GetSystemDateAndTime\<close> and
  whose token does not verify reaches no action of any of the three services: the only effect is
  the 401 fault (or nothing, when there is no memory for it), and the nonce cache is unchanged.
\<close>

theorem unauthorized_requests_do_nothing:
  assumes "h \<in> {device_service_handler, media_service_handler, media2_service_handler}"
    and "cfg_auth_password cfg = Some pw"
    and "\<not> contains (case read_body req of Some b \<Rightarrow> b | None \<Rightarrow> []) ''GetSystemDateAndTime''"
    and "fst (onvif_wsse_verify (Some (case read_body req of Some b \<Rightarrow> b | None \<Rightarrow> []))
           (Some (case cfg_auth_username cfg of Some u \<Rightarrow> u | None \<Rightarrow> ''admin'')) pw (env_now env)
           (uint (cfg_auth_window_secs cfg)) (cfg_auth_allow_password_text cfg) (Some cache)) \<noteq> WSSE_OK"
  shows "h env cfg cache req =
    ((ESP_OK, if env_mem_deny env then [Send 401 (int (length (render_doc ''utf-8'' fault_not_authorized_doc)))
        (render_doc ''utf-8'' fault_not_authorized_doc)] else []), cache)"
  using assms(1) device.handler_denied [OF assms(2-4)] media.handler_denied [OF assms(2-4)]
    media2.handler_denied [OF assms(2-4)]
  by (auto simp: device_service_handler_def media_service_handler_def media2_service_handler_def)

theorem unauthorized_requests_do_nothing_witness:
  "media_service_handler env_plain (cfg_minimal\<lparr>cfg_auth_password := Some (Some ''secret'')\<rparr>) zero_cache
     (request_of ''<a>SetSynchronizationPoint</a>'') =
   ((ESP_OK, [Send 401 (int (length (render_doc ''utf-8'' fault_not_authorized_doc)))
      (render_doc ''utf-8'' fault_not_authorized_doc)]), zero_cache)"
proof -
  have b: "read_body (request_of ''<a>SetSynchronizationPoint</a>'') = Some ''<a>SetSynchronizationPoint</a>''"
    by (rule read_request_of) simp_all
  have "\<not> contains ''<a>SetSynchronizationPoint</a>'' ''UsernameToken''"
    by (simp add: contains_Cons) (simp add: contains_def)
  then have v: "fst (onvif_wsse_verify (Some ''<a>SetSynchronizationPoint</a>'') u (Some ''secret'') t w p c) \<noteq> WSSE_OK" for u t w p c
    by (simp add: onvif_wsse_verify_def)
  have "\<not> contains ''<a>SetSynchronizationPoint</a>'' ''GetSystemDateAndTime''"
    by (simp add: contains_Cons) (simp add: contains_def)
  then show ?thesis
    using unauthorized_requests_do_nothing [of media_service_handler "cfg_minimal\<lparr>cfg_auth_password := Some (Some ''secret'')\<rparr>"
        "Some ''secret''" "request_of ''<a>SetSynchronizationPoint</a>''" env_plain zero_cache] b v
    by (simp add: env_plain_def)
qed

text \<open>
  What a caller without credentials can do to the device service by naming
  \<open>GetSystemDateAndTime\<close>: nothing but read the clock.  The response depends on the body no further,
  and neither the time nor the NTP servers can be set this way.
\<close>

theorem device_preauth_reads_clock:
  assumes "read_body req = Some b" and "contains b ''GetSystemDateAndTime''"
  shows "device_service_handler env cfg cache req = (handle_get_system_date_and_time env cfg, cache) \<and>
    list_all is_send (snd (handle_get_system_date_and_time env cfg))"
proof -
  have "list_all is_send (snd (send_built env build))" for build
    by (simp add: send_built_def send_fault_def split: prod.split)
  then show ?thesis
    using device.handler_open [OF assms, of env cfg cache] assms(2)
    by (simp add: device_service_handler_def dispatch_device_action_def handle_get_system_date_and_time_def Let_def)
qed

theorem device_preauth_reads_clock_witness:
  "snd (device_service_handler env_plain (cfg_minimal\<lparr>cfg_auth_password := Some None\<rparr>) zero_cache
     (request_of ''GetSystemDateAndTime SetNTP'')) = zero_cache"
proof -
  have b: "read_body (request_of ''GetSystemDateAndTime SetNTP'') = Some ''GetSystemDateAndTime SetNTP''"
    by (rule read_request_of) simp_all
  have "contains ''GetSystemDateAndTime SetNTP'' ''GetSystemDateAndTime''" by (simp add: contains_def)
  from device_preauth_reads_clock [OF b this, of env_plain "cfg_minimal\<lparr>cfg_auth_password := Some None\<rparr>" zero_cache]
  show ?thesis by simp
qed

text \<open>
  C38: The same words open the other services completely: a media or media2 request that contains
  \<open>GetSystemDateAndTime\<close> anywhere (a comment is enough) is dispatched without any credential
  check, whatever password is configured.
\<close>

theorem media_preauth_opens_service:
  assumes "read_body req = Some b" and "contains b ''GetSystemDateAndTime''"
  shows "media_service_handler env cfg cache req = (dispatch_media_action env cfg (Some b), cache) \<and>
    media2_service_handler env cfg cache req = (dispatch_media2_action env cfg (Some b), cache)"
  using media.handler_open [OF assms] media2.handler_open [OF assms]
  by (simp add: media_service_handler_def media2_service_handler_def)

theorem media_preauth_opens_service_witness:
  "Keyframe \<in> set (snd (fst (media_service_handler env_plain (cfg_minimal\<lparr>cfg_auth_password := Some (Some ''secret'')\<rparr>)
     zero_cache (request_of ''<SetSynchronizationPoint/><!--GetSystemDateAndTime-->''))))"
proof -
  let ?b = "''<SetSynchronizationPoint/><!--GetSystemDateAndTime-->''"
  have b: "read_body (request_of ?b) = Some ?b"
    by (rule read_request_of) simp_all
  have c: "contains ?b ''GetSystemDateAndTime''" by (simp add: contains_def)
  have "Keyframe \<in> set (snd (dispatch_media_action env (cfg_minimal\<lparr>cfg_auth_password := Some (Some ''secret'')\<rparr>) (Some ?b)))" for env
    by (simp add: dispatch_media_action_def contains_def after_def keyframe_effect_def cfg_minimal_def)
  with media_preauth_opens_service [OF b c, of env_plain "cfg_minimal\<lparr>cfg_auth_password := Some (Some ''secret'')\<rparr>" zero_cache]
  show ?thesis by simp
qed

text \<open>
  C12: \<open>SetSystemDateAndTime\<close> end to end, on a device with a non-empty password and memory for the
  response: an honest client's signed request in the template \<open>client_envelope\<close> and \<open>set_time_body\<close> (user name of
  at most 63 characters, creation time inside the window, nonce not among the remembered ones, at most
  119 bytes of nonce, creation time and password; fields without NUL, \<open><\<close> and \<open>#\<close>; a date from 1970
  to 9999 with its fields in range), at most 4096 bytes long, with no name of an earlier action anywhere
  in it, and delivered by the transport in any pieces, passes the gate and makes the device apply, once,
  the client's mode, the first 47 characters of its zone, and its civil time.  The reply is the
  acknowledgement iff the integrator's callback returns \<open>ESP_OK\<close>, otherwise a fault with the error's
  name (cut at 95 characters); the nonce is recorded.
\<close>

theorem set_time_end_to_end:
  assumes conf: "cfg_time_apply cfg = Some f" "env_mem_resp env" "cfg_auth_password cfg = Some (Some pw)" "pw \<noteq> []"
      "(case cfg_auth_username cfg of Some x \<Rightarrow> x | None \<Rightarrow> ''admin'') = user"
    and fields: "1970 \<le> y" "y \<le> 9999" "1 \<le> mo" "mo \<le> 12" "1 \<le> d" "d \<le> 31" "h \<le> 23" "mi \<le> 59" "s \<le> 60"
    and chars: "{NUL, CHR ''<'', CHR ''#''} \<inter> (set user \<union> set cr \<union> set mode \<union> set zone) = {}"
    and token: "length user < 64" "length cr < 40" "onvif_wsse_parse_created cr = Some t"
      "\<bar>env_now env - t\<bar> \<le> wsse_window (uint (cfg_auth_window_secs cfg))" "length nonce + length cr + length pw \<le> 119"
      "\<not> cache_seen cache (fips_sha1 nonce)"
    and body: "b = client_envelope user (b64_text (fips_sha1 (nonce @ bytes_of cr @ bytes_of pw))) (b64_text nonce) cr
        (set_time_body mode zone y mo d h mi s)"
    and names: "\<forall>k\<in>{''GetSystemDateAndTime'', ''GetDeviceInformation'', ''GetCapabilities'', ''GetServices'', ''GetScopes'',
           ''SystemReboot'', ''SetNTP''}. \<not> contains b k"
    and sent: "req_mem req" "[] \<notin> set (req_pieces req)" "concat (req_pieces req) = b" "req_len req = length b" "length b \<le> 4096"
    and tr: "tr = \<lparr>ntp_mode = (mode = ''NTP''), has_utc = True,
            utc_epoch = civil_seconds (int y) (int mo) (int d) (int h) (int mi) (int s), has_tz = True, tz = take 47 zone\<rparr>"
  shows "device_service_handler env cfg cache req =
    (after [Time_Apply tr]
      (reply (if f tr = ESP_OK then set_system_date_and_time_ack_doc
              else fault_invalid_doc (Some ''ter:InvalidArgVal'')
                     (Some (take 95 (''time apply failed: '' @ env_err_name env (f tr)))))),
     cache_store cache (fips_sha1 nonce) t)"
proof -
  have sha: "onvif_sha1 nonce = fips_sha1 nonce"
    "fips_sha1 (nonce @ bytes_of cr @ bytes_of pw) = onvif_sha1 (nonce @ bytes_of cr @ bytes_of pw)"
    using token(5) by (simp_all add: sha1_short)
  have "b \<noteq> []" by (simp add: body client_envelope_def)
  moreover have "list_all (\<lambda>c. c \<noteq> NUL) b" unfolding body by (rule signed_request_plain) (use chars in blast)
  ultimately have read: "read_body req = Some b" by (intro read_body_delivered sent)
  have "\<not> contains (set_time_body mode zone y mo d h mi s) ''#PasswordText''"
    by (rule set_time_body_digest) (use chars in blast)
  moreover have "CHR ''<'' \<notin> set user \<union> set cr" "CHR ''#'' \<notin> set user \<union> set cr" using chars by blast+
  ultimately have "onvif_wsse_verify (Some b) (Some user) (Some pw) (env_now env) (uint (cfg_auth_window_secs cfg)) at
      (Some cache) = wsse_replay_guard (Some cache) nonce t" for at
    unfolding body
    using client_verify(1) [OF _ _ _ token(1,2) _ _ conf(4) token(3,4) _ sha(2)] token(5) by (simp add: user_ok_def)
  then have "device_service_handler env cfg cache req =
      (dispatch_device_action env cfg (Some b), cache_store cache (fips_sha1 nonce) t)"
    using token(6) names
    by (simp add: device_service_handler_def handler_verified [OF conf(3) read _ conf(5)] wsse_replay_guard_def sha(1))
  moreover have "onvif_time_parse_set_request (Some b) = (True, tr)"
    unfolding body tr by (intro signed_request_parsed fields) (use chars in blast)+
  moreover have "contains b ''SetSystemDateAndTime''"
    unfolding body by (intro client_envelope_keeps set_time_body_action)
  ultimately show ?thesis by (simp add: set_time_dispatched [OF conf(1,2) _ _ names])
qed


lemma show_nat_no_letters: "CHR ''G'' \<notin> set (show_nat n)" "CHR ''S'' \<notin> set (show_nat n)"
  using show_nat_set [of n] by auto

definition cfg_clock :: config where
  "cfg_clock = cfg_minimal\<lparr>cfg_time_apply := Some (\<lambda>_. 0), cfg_auth_password := Some (Some ''secret'')\<rparr>"

definition signed_set_time :: string where
  "signed_set_time = client_envelope ''admin'' ''SjjgW+uUnFskT6ZQfro1Q9u6CmY='' ''AQID'' ''2024-01-01T00:00:00Z''
     (set_time_body ''NTP'' ''CET-1'' 2026 9 20 7 42 13)"

lemma signed_set_time_eq:
  "signed_set_time = client_envelope ''admin''
     (b64_text (fips_sha1 ([1, 2, 3] @ bytes_of ''2024-01-01T00:00:00Z'' @ bytes_of ''secret''))) (b64_text [1, 2, 3])
     ''2024-01-01T00:00:00Z'' (set_time_body ''NTP'' ''CET-1'' 2026 9 20 7 42 13)"
proof -
  have "[1, 2, 3] @ bytes_of ''2024-01-01T00:00:00Z'' @ bytes_of ''secret'' = token_msg"
    by (simp add: bytes_of_def token_msg_def)
  moreover have "fips_sha1 token_msg = onvif_sha1 token_msg" by (simp add: sha1_short token_msg_length)
  ultimately show ?thesis
    by (simp add: signed_set_time_def onvif_sha1_token b64_char_def b64_tbl_def)
qed

lemma signed_set_time_names:
  assumes "k \<in> {''GetSystemDateAndTime'', ''GetDeviceInformation'', ''GetCapabilities'', ''GetServices'', ''GetScopes'',
     ''SystemReboot'', ''SetNTP''}"
  shows "\<not> contains signed_set_time k"
  using assms
  by (elim insertE emptyE) (simp_all add: signed_set_time_def client_envelope_def set_time_body_def contains_Cons
      contains_chunk show_nat_no_letters, simp_all add: contains_def)

theorem set_time_end_to_end_witness:
  "fst (device_service_handler env_plain cfg_clock zero_cache
     \<lparr>req_len = length signed_set_time, req_pieces = [take 100 signed_set_time, drop 100 signed_set_time], req_mem = True\<rparr>) =
   after [Time_Apply \<lparr>ntp_mode = True, has_utc = True, utc_epoch = civil_seconds 2026 9 20 7 42 13,
            has_tz = True, tz = ''CET-1''\<rparr>] (reply set_system_date_and_time_ack_doc)"
proof -
  have names: "\<forall>k\<in>{''GetSystemDateAndTime'', ''GetDeviceInformation'', ''GetCapabilities'', ''GetServices'', ''GetScopes'',
      ''SystemReboot'', ''SetNTP''}. \<not> contains signed_set_time k"
    using signed_set_time_names by blast
  have "\<not> cache_seen zero_cache (fips_sha1 [1, 2, 3])"
    using nonces.rel_seen [OF nonces.rel_empty onvif_sha1_length [of "[1, 2, 3]"]] by (simp add: sha1_short)
  moreover have "onvif_wsse_parse_created ''2024-01-01T00:00:00Z'' = Some 1704067200" using parse_2024 by simp
  moreover have "signed_set_time \<noteq> []" by (simp add: signed_set_time_def client_envelope_def)
  moreover have "100 < length signed_set_time" "length signed_set_time \<le> 4096"
    by (simp_all add: signed_set_time_def client_envelope_def set_time_body_def show_nat.simps)
  ultimately show ?thesis
    using set_time_end_to_end [where cfg = cfg_clock and env = env_plain and mode = "''NTP''" and zone = "''CET-1''"
        and y = 2026 and mo = 9 and d = 20 and h = 7 and mi = 42 and s = 13 and cache = zero_cache
        and f = "\<lambda>_. 0" and t = 1704067200 and req = "\<lparr>req_len = length signed_set_time,
          req_pieces = [take 100 signed_set_time, drop 100 signed_set_time], req_mem = True\<rparr>",
        OF _ _ _ _ _ _ _ _ _ _ _ _ _ _ _ _ _ _ _ _ _ signed_set_time_eq names _ _ _ _ _ refl]
    by (auto simp: cfg_clock_def env_plain_def ESP_OK_def wsse_window_def cfg_minimal_def)
qed

end
