(* ===== verification/Discovery.thy ===== *)
theory Discovery
  imports Probe Service
begin

text \<open>
  \<open>esp_idf/onvif_c_discovery.c\<close>: the WS-Discovery responder.  The task is a step function on the
  file's state, one step per turn of its two loops; each turn reads the shared handle
  \<open>s_disc_task\<close> once, at its beginning.  What lwIP, FreeRTOS and the heap answer is an argument of the
  turn.  A stop can come in the middle of a turn: the theory \<open>Discovery_Steps\<close> cuts the turns into the
  steps between which it can.
\<close>

section \<open>State and environment\<close>

definition PROBE_BUF_SIZE :: nat where "PROBE_BUF_SIZE = 4096"
definition RESP_BUF_SIZE :: nat where "RESP_BUF_SIZE = 2048"
definition ESP_ERR_NOT_SUPPORTED :: esp_err where "ESP_ERR_NOT_SUPPORTED = 0x106"

text \<open>Where the task is: not existing, created, at the head of the outer loop (with no socket but
  for the way out), or in the inner loop with its \<open>hello_counter\<close>.\<close>

datatype disc_pc = No_Task | Entry | Outer | Listen nat

record disc =
  disc_task :: bool      \<comment> \<open>\<open>s_disc_task\<close> is not NULL\<close>
  disc_watched :: bool   \<comment> \<open>\<open>s_disc_wdt_watched\<close>\<close>
  disc_pc :: disc_pc
  disc_uuid :: string    \<comment> \<open>\<open>device_uuid\<close>\<close>
  disc_sock :: bool      \<comment> \<open>the task's \<open>sock\<close> is open\<close>
  disc_bufs :: nat       \<comment> \<open>receive buffers allocated\<close>
  disc_socks :: nat      \<comment> \<open>sockets open\<close>
  disc_subs :: nat       \<comment> \<open>subscriptions to the task watchdog\<close>
  disc_subscribed :: bool      \<comment> \<open>one of them is the task's own\<close>
  disc_timeout :: "int option" \<comment> \<open>\<open>SO_RCVTIMEO\<close> of the open socket in milliseconds; \<open>None\<close>: it blocks for ever\<close>

definition disc_zero :: disc where
  "disc_zero = \<lparr>disc_task = False, disc_watched = False, disc_pc = No_Task, disc_uuid = [],
     disc_sock = False, disc_bufs = 0, disc_socks = 0, disc_subs = 0, disc_subscribed = False, disc_timeout = None\<rparr>"

text \<open>What the platform answers in one step: whether the watchdog subscription (if built in), the
  allocation of the receive buffer, \<open>socket\<close>, \<open>bind\<close> and joining the group succeed, and the
  datagram received (empty for a timeout, an error, or nothing).  Socket options take effect.\<close>

record disc_env =
  de_wdt :: bool
  de_mem :: bool
  de_socket :: bool
  de_bind :: bool
  de_join :: bool
  de_recv :: string

datatype disc_effect =
    Delay int
  | Receive "int option"   \<comment> \<open>\<open>recvfrom\<close>, which blocks at most that long\<close>
  | Wdt_Add | Wdt_Reset | Wdt_Delete
  | Multicast int string
  | Unicast int string
  | Task_Ends
  | Task_Killed
  | Dangling_Delete
  | Mdns_Up string string nat
  | Mdns_Down


section \<open>The task\<close>

function disc_sleep :: "bool \<Rightarrow> int \<Rightarrow> disc_effect list" where
  "disc_sleep watched ms =
     (if 0 < ms then
        (let chunk = (if 1000 < ms then 1000 else ms)
         in Delay chunk # (if watched then [Wdt_Reset] else []) @ disc_sleep watched (ms - chunk))
      else [])"
  by pat_completeness auto
termination
  by (relation "measure (\<lambda>(w, ms). nat ms)") (auto simp: Let_def)

declare disc_sleep.simps [simp del]

definition disc_hello :: "config \<Rightarrow> string \<Rightarrow> disc_effect list" where
  "disc_hello cfg uuid =
     (let (hl, hello_buf) = onvif_probe_build_hello RESP_BUF_SIZE uuid (onvif_c_cfg_ip cfg) (cfg_port cfg)
        (c_text (cfg_scopes cfg))
      in if hl \<le> 0 \<or> int RESP_BUF_SIZE \<le> hl then [] else [Multicast hl hello_buf])"

text \<open>One datagram: what is answered to it.\<close>

definition disc_datagram :: "config \<Rightarrow> string \<Rightarrow> string \<Rightarrow> disc_effect list" where
  "disc_datagram cfg uuid data =
     (let recv_buf = c_str (take (PROBE_BUF_SIZE - 1) data);
          is_resolve = (onvif_probe_is_resolve recv_buf \<and> contains recv_buf uuid)
      in if \<not> onvif_probe_is_probe recv_buf \<and> \<not> is_resolve then []
         else (let ip_str = onvif_c_cfg_ip cfg in
               if ip_str = ''0.0.0.0'' then []
               else (let relates_to = (case onvif_probe_message_id recv_buf 128 of
                            Some r \<Rightarrow> r | None \<Rightarrow> ''urn:uuid:unknown'');
                         (rl, resp_buf) =
                           (if is_resolve
                            then onvif_probe_build_resolve_matches RESP_BUF_SIZE (Some relates_to) uuid ip_str (cfg_port cfg)
                            else onvif_probe_build_matches RESP_BUF_SIZE (Some relates_to) uuid ip_str (cfg_port cfg)
                              (cfg_scopes cfg))
                     in if rl \<le> 0 \<or> int RESP_BUF_SIZE \<le> rl then [] else [Unicast rl resp_buf])))"

definition disc_fed :: "disc \<Rightarrow> disc_effect list" where
  "disc_fed d = (if disc_watched d then [Wdt_Reset] else [])"

definition disc_close :: "disc \<Rightarrow> disc" where
  "disc_close d = (if disc_sock d then d\<lparr>disc_sock := False, disc_socks := disc_socks d - 1, disc_timeout := None\<rparr> else d)"

text \<open>Before the loops: the identity, the watchdog, the buffer.\<close>

definition disc_entry :: "disc_env \<Rightarrow> config \<Rightarrow> disc \<Rightarrow> disc \<times> disc_effect list" where
  "disc_entry env cfg d =
     (let d1 = d\<lparr>disc_uuid := c_text (cfg_uuid cfg), disc_sock := False, disc_timeout := None, disc_subscribed := False\<rparr>;
          (d2, es) = (if cfg_wdt_watch_discovery cfg \<and> de_wdt env
                      then (d1\<lparr>disc_watched := True, disc_subs := disc_subs d1 + 1, disc_subscribed := True\<rparr>, [Wdt_Add])
                      else (d1, []))
      in if \<not> de_mem env then (d2\<lparr>disc_pc := No_Task\<rparr>, es @ [Task_Ends])
         else (d2\<lparr>disc_pc := Outer, disc_bufs := disc_bufs d2 + 1\<rparr>, es))"

text \<open>Behind the loops: what the task gives back.\<close>

definition disc_exit :: "disc \<Rightarrow> disc \<times> disc_effect list" where
  "disc_exit d =
     (let d1 = disc_close (d\<lparr>disc_bufs := disc_bufs d - 1\<rparr>);
          (d2, es) = (if disc_watched d1
                      then (d1\<lparr>disc_watched := False, disc_subs := disc_subs d1 - of_bool (disc_subscribed d1),
                              disc_subscribed := False\<rparr>, [Wdt_Delete])
                      else (d1, []))
      in (d2\<lparr>disc_pc := No_Task\<rparr>, es @ [Task_Ends]))"

definition disc_outer :: "disc_env \<Rightarrow> config \<Rightarrow> disc \<Rightarrow> disc \<times> disc_effect list" where
  "disc_outer env cfg d =
     (if \<not> disc_task d then disc_exit d
      else (let d1 = disc_close d; retry = (d1, disc_fed d @ disc_sleep (disc_watched d) 10000)
            in if \<not> de_socket env then retry
               else if \<not> de_bind env then retry
               else if onvif_c_cfg_ip cfg = ''0.0.0.0'' then retry
               else if \<not> de_join env then retry
               else (d1\<lparr>disc_sock := True, disc_socks := disc_socks d1 + 1, disc_timeout := Some 5000, disc_pc := Listen 0\<rparr>,
                     disc_fed d @ disc_hello cfg (disc_uuid d))))"

definition disc_listen :: "disc_env \<Rightarrow> config \<Rightarrow> nat \<Rightarrow> disc \<Rightarrow> disc \<times> disc_effect list" where
  "disc_listen env cfg hello_counter d =
     (if \<not> disc_task d then (d\<lparr>disc_pc := Outer\<rparr>, [])
      else let (d', es) =
        (if de_recv env = [] then
           (if 6 \<le> hello_counter + 1
            then (d\<lparr>disc_pc := Listen 0\<rparr>,
                  if onvif_c_cfg_ip cfg \<noteq> ''0.0.0.0'' then disc_hello cfg (disc_uuid d) else [])
            else (d\<lparr>disc_pc := Listen (hello_counter + 1)\<rparr>, []))
         else (d, disc_datagram cfg (disc_uuid d) (de_recv env)))
      in (d', disc_fed d @ Receive (disc_timeout d) # es))"

definition onvif_c_discovery_task :: "disc_env \<Rightarrow> config \<Rightarrow> disc \<Rightarrow> disc \<times> disc_effect list" where
  "onvif_c_discovery_task env cfg d =
     (case disc_pc d of
        No_Task \<Rightarrow> (d, [])
      | Entry \<Rightarrow> disc_entry env cfg d
      | Outer \<Rightarrow> disc_outer env cfg d
      | Listen k \<Rightarrow> disc_listen env cfg k d)"


section \<open>Start and stop\<close>

text \<open>\<open>have\<close>: mDNS is in the build; \<open>init\<close>: what \<open>mdns_init\<close> returns.\<close>

definition init_mdns :: "bool \<Rightarrow> esp_err \<Rightarrow> config \<Rightarrow> esp_err \<times> disc_effect list" where
  "init_mdns have init cfg =
     (case cfg_mdns_hostname cfg of
        None \<Rightarrow> (ESP_OK, [])
      | Some host \<Rightarrow>
          (if \<not> have then (ESP_ERR_NOT_SUPPORTED, [])
           else if init \<noteq> ESP_OK then (init, [])
           else (ESP_OK, [Mdns_Up host (case cfg_mdns_instance cfg of Some i \<Rightarrow> i | None \<Rightarrow> c_text (cfg_model cfg))
                   (cfg_port cfg)])))"

definition onvif_c_discovery_start ::
  "bool \<Rightarrow> esp_err \<Rightarrow> bool \<Rightarrow> config \<Rightarrow> disc \<Rightarrow> esp_err \<times> disc \<times> disc_effect list" where
  "onvif_c_discovery_start have init created cfg d =
     (let (ret, es) = init_mdns have init cfg in
      if disc_task d then (ESP_OK, d, es)
      else if \<not> created then (ESP_FAIL, d\<lparr>disc_task := False\<rparr>, es)
      else (ESP_OK, d\<lparr>disc_task := True, disc_pc := Entry\<rparr>, es))"

text \<open>\<open>sock\<close>: whether the socket can be opened.\<close>

definition send_bye :: "bool \<Rightarrow> config \<Rightarrow> disc_effect list" where
  "send_bye sock cfg =
     (case cfg_uuid cfg of
        None \<Rightarrow> []
      | Some uuid \<Rightarrow>
          (if onvif_c_cfg_ip cfg = ''0.0.0.0'' then []
           else if \<not> sock then []
           else (let (bl, bye) = onvif_probe_build_bye 1536 uuid
                 in [Multicast (if 0 < bl then bl else 0) bye])))"

text \<open>The two accesses of \<open>onvif_c_discovery_stop\<close> that the task can come between: taking and
  clearing the handle, and \<open>vTaskDelete\<close> of the handle taken.\<close>

definition stop_clear :: "disc \<Rightarrow> bool \<times> disc" where
  "stop_clear d = (disc_task d, d\<lparr>disc_task := False\<rparr>)"

definition stop_kill :: "bool \<Rightarrow> disc \<Rightarrow> disc \<times> disc_effect list" where
  "stop_kill task d =
     (if task then (d\<lparr>disc_pc := No_Task\<rparr>, [if disc_pc d = No_Task then Dangling_Delete else Task_Killed])
      else (d, []))"

definition onvif_c_discovery_stop :: "bool \<Rightarrow> bool \<Rightarrow> config \<Rightarrow> disc \<Rightarrow> esp_err \<times> disc \<times> disc_effect list" where
  "onvif_c_discovery_stop have sock cfg d =
     (let bye = send_bye sock cfg; (task, d1) = stop_clear d; (d2, es) = stop_kill task d1
      in (ESP_OK, d2, bye @ es @ (if have then [Mdns_Down] else [])))"


section \<open>What the task sends\<close>

fun sent_ok :: "disc_effect \<Rightarrow> bool" where
  "sent_ok (Multicast len buf) \<longleftrightarrow> 0 < len \<and> len = int (length buf) \<and> length buf < RESP_BUF_SIZE"
| "sent_ok (Unicast len buf) \<longleftrightarrow> 0 < len \<and> len = int (length buf) \<and> length buf < RESP_BUF_SIZE"
| "sent_ok _ \<longleftrightarrow> True"

fun disc_sends :: "disc_effect \<Rightarrow> string option" where
  "disc_sends (Multicast len buf) = Some buf"
| "disc_sends (Unicast len buf) = Some buf"
| "disc_sends _ = None"

lemma renders_sent:
  assumes "renders n (len, buf) (render_doc enc d)" and "\<not> (len \<le> 0 \<or> int n \<le> len)"
  shows "buf = render_doc enc d \<and> len = int (length (render_doc enc d)) \<and> length (render_doc enc d) < n"
  using renders_snd [OF assms(1)] assms(2) by auto

lemma disc_hello_eq:
  "disc_hello cfg uuid =
     (let s = render_doc ''utf-8'' (hello_doc uuid (onvif_c_cfg_ip cfg) (cfg_port cfg) (c_text (cfg_scopes cfg)))
      in if length s < RESP_BUF_SIZE then [Multicast (int (length s)) s] else [])"
proof -
  let ?s = "render_doc ''utf-8'' (hello_doc uuid (onvif_c_cfg_ip cfg) (cfg_port cfg) (c_text (cfg_scopes cfg)))"
  obtain hl b where b: "onvif_probe_build_hello RESP_BUF_SIZE uuid (onvif_c_cfg_ip cfg) (cfg_port cfg)
    (c_text (cfg_scopes cfg)) = (hl, b)" by fastforce
  have r: "renders RESP_BUF_SIZE (hl, b) ?s" using hello_renders [of RESP_BUF_SIZE] by (metis b)
  show ?thesis
    using r render_doc_pos [of "''utf-8''"] by (auto simp: disc_hello_def b Let_def renders_def)
qed

text \<open>The answer to a datagram: which document, and whether at all.\<close>

definition disc_reply_doc :: "config \<Rightarrow> string \<Rightarrow> string \<Rightarrow> xml option" where
  "disc_reply_doc cfg uuid body =
     (let rel = (case onvif_probe_message_id body 128 of Some r \<Rightarrow> r | None \<Rightarrow> ''urn:uuid:unknown'');
          ip = onvif_c_cfg_ip cfg
      in if ip = ''0.0.0.0'' then None
         else if onvif_probe_is_resolve body \<and> contains body uuid
         then Some (matches_doc ''ResolveMatches'' ''ResolveMatch'' rel uuid ip (cfg_port cfg) [])
         else if onvif_probe_is_probe body
         then Some (matches_doc ''ProbeMatches'' ''ProbeMatch'' rel uuid ip (cfg_port cfg) (c_text (cfg_scopes cfg)))
         else None)"

lemma disc_datagram_eq:
  "disc_datagram cfg uuid data =
     (case disc_reply_doc cfg uuid (c_str (take 4095 data)) of
        None \<Rightarrow> []
      | Some d \<Rightarrow> (let s = render_doc ''utf-8'' d in
          if length s < RESP_BUF_SIZE then [Unicast (int (length s)) s] else []))"
proof -
  let ?b = "c_str (take 4095 data)" and ?ip = "onvif_c_cfg_ip cfg"
  let ?rel = "case onvif_probe_message_id ?b 128 of Some r \<Rightarrow> r | None \<Rightarrow> ''urn:uuid:unknown''"
  have sent: "(if rl \<le> 0 \<or> int RESP_BUF_SIZE \<le> rl then [] else [Unicast rl buf]) =
      (if length (render_doc ''utf-8'' d) < RESP_BUF_SIZE
       then [Unicast (int (length (render_doc ''utf-8'' d))) (render_doc ''utf-8'' d)] else [])"
    if "renders RESP_BUF_SIZE (rl, buf) (render_doc ''utf-8'' d)" for rl buf d
    using that render_doc_pos [of "''utf-8''" d] by (auto simp: renders_def)
  obtain r1 b1 where 1: "build_matches_family RESP_BUF_SIZE ''ProbeMatches'' ''ProbeMatch'' (Some ?rel) uuid ?ip
      (cfg_port cfg) (cfg_scopes cfg) = (r1, b1)" by fastforce
  obtain r2 b2 where 2: "build_matches_family RESP_BUF_SIZE ''ResolveMatches'' ''ResolveMatch'' (Some ?rel) uuid ?ip
      (cfg_port cfg) (Some []) = (r2, b2)" by fastforce
  have "renders RESP_BUF_SIZE (r1, b1) (render_doc ''utf-8''
      (matches_doc ''ProbeMatches'' ''ProbeMatch'' ?rel uuid ?ip (cfg_port cfg) (c_text (cfg_scopes cfg))))"
    using matches_renders [of RESP_BUF_SIZE "''ProbeMatches''" "''ProbeMatch''" "Some ?rel" uuid ?ip "cfg_port cfg" "cfg_scopes cfg"]
    by (simp add: 1 c_text_def)
  moreover have "renders RESP_BUF_SIZE (r2, b2) (render_doc ''utf-8''
      (matches_doc ''ResolveMatches'' ''ResolveMatch'' ?rel uuid ?ip (cfg_port cfg) []))"
    using matches_renders [of RESP_BUF_SIZE "''ResolveMatches''" "''ResolveMatch''" "Some ?rel" uuid ?ip "cfg_port cfg" "Some []"]
    by (simp add: 2)
  ultimately show ?thesis
    using sent [of r1 b1] sent [of r2 b2]
    by (simp add: disc_datagram_def disc_reply_doc_def Let_def PROBE_BUF_SIZE_def onvif_probe_build_matches_def
        onvif_probe_build_resolve_matches_def 1 2)
qed

lemma sleep_sends [simp]: "List.map_filter disc_sends (disc_sleep w ms) = []"
proof (induction w ms rule: disc_sleep.induct)
  case (1 w ms)
  note IH = "1.IH" [OF _ refl]
  show ?case using IH by (subst disc_sleep.simps) (cases w; auto simp: Let_def map_filter_simps split: if_splits)
qed

lemma sleep_sent_ok [simp]: "list_all sent_ok (disc_sleep w ms)"
proof (induction w ms rule: disc_sleep.induct)
  case (1 w ms)
  note IH = "1.IH" [OF _ refl]
  show ?case using IH by (subst disc_sleep.simps) (cases w; auto simp: Let_def split: if_splits)
qed

lemma fed_sends [simp]: "List.map_filter disc_sends (disc_fed d) = []" "list_all sent_ok (disc_fed d)"
  by (simp_all add: disc_fed_def map_filter_simps)

lemma map_filter_append [simp]: "List.map_filter f (xs @ ys) = List.map_filter f xs @ List.map_filter f ys"
  by (simp add: List.map_filter_def)

lemma hello_ok_sent: "list_all sent_ok (disc_hello cfg uuid)"
  using render_doc_pos by (simp add: disc_hello_eq Let_def)

lemma datagram_ok_sent: "list_all sent_ok (disc_datagram cfg uuid data)"
  using render_doc_pos by (simp add: disc_datagram_eq Let_def split: option.split)

text \<open>Both, as one predicate on the effects of a step.\<close>

definition step_sends :: "disc_effect list \<Rightarrow> bool" where
  "step_sends es \<longleftrightarrow> list_all sent_ok es \<and> length (List.map_filter disc_sends es) \<le> 1"

lemma step_sends_fed: "step_sends es \<Longrightarrow> step_sends (disc_fed d @ es)"
  by (simp add: step_sends_def)

lemma step_sends_receive [simp]: "step_sends (Receive t # es) = step_sends es"
  by (simp add: step_sends_def map_filter_simps)

lemma step_sends_quiet [simp]: "step_sends []" "step_sends (disc_fed d)" "step_sends (disc_fed d @ disc_sleep w ms)"
  by (simp_all add: step_sends_def map_filter_simps)

lemma step_sends_hello: "step_sends (disc_hello cfg uuid)"
  by (simp add: step_sends_def hello_ok_sent) (simp add: disc_hello_eq Let_def map_filter_simps)

lemma step_sends_datagram: "step_sends (disc_datagram cfg uuid data)"
  by (simp add: step_sends_def datagram_ok_sent)
    (simp add: disc_datagram_eq Let_def map_filter_simps split: option.split)

lemma step_sends_ends: "step_sends (snd (disc_entry env cfg d))" "step_sends (snd (disc_exit d))"
  by (simp_all add: disc_entry_def disc_exit_def Let_def step_sends_def map_filter_simps)

lemma step_sends_outer: "step_sends (snd (disc_outer env cfg d))"
  by (simp add: disc_outer_def Let_def step_sends_ends step_sends_fed step_sends_hello)

lemma step_sends_listen: "step_sends (snd (disc_listen env cfg k d))"
  by (simp add: disc_listen_def step_sends_fed step_sends_hello step_sends_datagram)

lemma task_step_sends: "step_sends (snd (onvif_c_discovery_task env cfg d))"
  by (cases "disc_pc d")
    (simp_all add: onvif_c_discovery_task_def step_sends_outer step_sends_listen step_sends_ends)

text \<open>What is sent reads as a document, when the configured texts have no \<open><\<close>.\<close>

lemma reply_doc_ok:
  assumes "disc_reply_doc cfg uuid body = Some d"
    and "text_ok uuid" "text_ok (onvif_c_cfg_ip cfg)" "text_ok (c_text (cfg_scopes cfg))"
  shows "read_doc (render_doc ''utf-8'' d) = Some d"
proof -
  have "text_ok (case onvif_probe_message_id body 128 of Some r \<Rightarrow> r | None \<Rightarrow> ''urn:uuid:unknown'')"
    using message_id_bounds [of body 128] by (simp split: option.split)
  then have "xml_ok d"
    using assms matches_ok(1) by (auto simp: disc_reply_doc_def Let_def split: if_splits)
  then show ?thesis by (rule read_render_doc) simp
qed

lemma task_reads:
  assumes "text_ok (disc_uuid d)" "text_ok (onvif_c_cfg_ip cfg)" "text_ok (c_text (cfg_scopes cfg))"
  shows "list_all (\<lambda>text. read_doc text \<noteq> None) (List.map_filter disc_sends (snd (onvif_c_discovery_task env cfg d)))"
proof -
  let ?ok = "\<lambda>es. list_all (\<lambda>text. read_doc text \<noteq> None) (List.map_filter disc_sends es)"
  have "read_doc (render_doc ''utf-8'' h) = Some h"
    if "h = hello_doc (disc_uuid d) (onvif_c_cfg_ip cfg) (cfg_port cfg) (c_text (cfg_scopes cfg))" for h
    unfolding that using hello_ok(1) [OF assms] by (rule read_render_doc) simp
  then have hello: "?ok (disc_hello cfg (disc_uuid d))"
    by (simp add: disc_hello_eq Let_def map_filter_simps)
  have data: "?ok (disc_datagram cfg (disc_uuid d) s)" for s
    using reply_doc_ok [OF _ assms] by (auto simp: disc_datagram_eq Let_def map_filter_simps split: option.split)
  have ends: "?ok (snd (disc_entry env cfg d))" "?ok (snd (disc_exit d))"
    by (simp_all add: disc_entry_def disc_exit_def Let_def map_filter_simps)
  show ?thesis
    using hello data ends
    by (cases "disc_pc d")
      (simp_all add: onvif_c_discovery_task_def disc_outer_def disc_listen_def Let_def map_filter_simps)
qed


section \<open>Properties\<close>




definition disc_listening :: disc where
  "disc_listening = disc_zero\<lparr>disc_task := True, disc_pc := Listen 3, disc_uuid := ''f472b01e-0000'', disc_sock := True,
     disc_bufs := 1, disc_socks := 1, disc_timeout := Some 5000\<rparr>"

definition disc_env_ok :: disc_env where
  "disc_env_ok = \<lparr>de_wdt = True, de_mem = True, de_socket = True, de_bind = True, de_join = True, de_recv = []\<rparr>"

lemma minimal_scopes: "text_ok (c_text (cfg_scopes (onvif_c_cfg_set cfg_minimal :: config)))"
    "length (c_text (cfg_scopes (onvif_c_cfg_set cfg_minimal :: config))) \<le> 255"
    "onvif_c_cfg_ip (onvif_c_cfg_set cfg_minimal :: config) = ''10.0.0.2''"
  by (simp_all add: onvif_c_cfg_set_def cfg_minimal_def default_to_def c_text_def default_scopes_text_def onvif_c_cfg_ip_def)


text \<open>
  C30: In every state and whatever is received, a step of the discovery task sends at most one
  datagram, never more bytes than the text in its 2048-byte buffer has, and (when the configured
  texts have no \<open><\<close>) one that reads as a document.
\<close>

theorem discovery_sends_in_bounds:
  "list_all sent_ok (snd (onvif_c_discovery_task env cfg d)) \<and>
   length (List.map_filter disc_sends (snd (onvif_c_discovery_task env cfg d))) \<le> 1 \<and>
   (text_ok (disc_uuid d) \<and> text_ok (onvif_c_cfg_ip cfg) \<and> text_ok (c_text (cfg_scopes cfg)) \<longrightarrow>
      list_all (\<lambda>text. read_doc text \<noteq> None) (List.map_filter disc_sends (snd (onvif_c_discovery_task env cfg d))))"
  using task_step_sends [of env cfg d] task_reads [of d cfg env] by (simp add: step_sends_def)

theorem discovery_sends_in_bounds_witness:
  "list_all (\<lambda>text. read_doc text \<noteq> None) (List.map_filter disc_sends
     (snd (onvif_c_discovery_task (disc_env_ok\<lparr>de_recv := ''<d:Probe/>''\<rparr>) (onvif_c_cfg_set cfg_minimal) disc_listening)))"
  using discovery_sends_in_bounds [of "disc_env_ok\<lparr>de_recv := ''<d:Probe/>''\<rparr>" "onvif_c_cfg_set cfg_minimal" disc_listening]
    minimal_scopes
  by (simp add: disc_listening_def)

text \<open>
  C37: The farewell has no such guard: \<open>send_bye\<close> hands \<open>sendto\<close> the length that the text would have,
  so with an identity of more than 456 characters it sends bytes from behind its 1536-byte buffer.
\<close>

theorem bye_reads_past_buffer:
  assumes "cfg_uuid cfg = Some uuid" and "onvif_c_cfg_ip cfg \<noteq> ''0.0.0.0''"
  shows "\<exists>len buf. send_bye True cfg = [Multicast len buf] \<and> len = 623 + 2 * int (length uuid) \<and>
    (len \<le> int (length buf) \<longleftrightarrow> length uuid \<le> 456) \<and> (456 < length uuid \<longrightarrow> length buf = 1535)"
proof -
  obtain bl bye where b: "onvif_probe_build_bye 1536 uuid = (bl, bye)" by fastforce
  then have "bl = int (length (render_doc ''utf-8'' (bye_doc uuid)))" "bye = take 1535 (render_doc ''utf-8'' (bye_doc uuid))"
    by (auto simp: onvif_probe_build_bye_def snprintf_def discovery_docs render_doc_def)
  then have l: "bl = 623 + 2 * int (length uuid)" "length bye = min (623 + 2 * length uuid) 1535"
    by (simp_all add: discovery_lengths)
  then show ?thesis using assms b by (auto simp: send_bye_def)
qed

theorem bye_reads_past_buffer_witness:
  "\<exists>buf. send_bye True (cfg_minimal\<lparr>cfg_uuid := Some (replicate 500 (CHR ''a''))\<rparr>) = [Multicast 1623 buf] \<and> length buf = 1535"
  using bye_reads_past_buffer [of "cfg_minimal\<lparr>cfg_uuid := Some (replicate 500 (CHR ''a''))\<rparr>" "replicate 500 (CHR ''a'')"]
  by (auto simp: cfg_minimal_def onvif_c_cfg_ip_def)

text \<open>
  C36: A task that cannot allocate its buffer ends but leaves its handle behind: from then on
  \<open>onvif_c_discovery_start\<close> reports success and starts nothing.
\<close>

theorem failed_task_blocks_start:
  assumes "disc_pc d = Entry" and "disc_task d" and "\<not> de_mem env"
  shows "let d' = fst (onvif_c_discovery_task env cfg d) in
    disc_pc d' = No_Task \<and> disc_bufs d' = disc_bufs d \<and>
    onvif_c_discovery_start have init created cfg' d' = (ESP_OK, d', snd (init_mdns have init cfg')) \<and>
    onvif_c_discovery_task env' cfg' d' = (d', [])"
proof -
  let ?d = "fst (onvif_c_discovery_task env cfg d)"
  have "disc_pc ?d = No_Task" "disc_task ?d" "disc_bufs ?d = disc_bufs d"
    using assms by (simp_all add: onvif_c_discovery_task_def disc_entry_def Let_def)
  then show ?thesis
    by (simp add: Let_def onvif_c_discovery_start_def onvif_c_discovery_task_def case_prod_unfold)
qed

theorem failed_task_blocks_start_witness:
  "let d = fst (onvif_c_discovery_task (disc_env_ok\<lparr>de_mem := False\<rparr>) cfg_minimal
       (disc_zero\<lparr>disc_task := True, disc_pc := Entry\<rparr>))
   in fst (onvif_c_discovery_start True ESP_OK True cfg_minimal d) = ESP_OK \<and> disc_pc d = No_Task"
  using failed_task_blocks_start [of "disc_zero\<lparr>disc_task := True, disc_pc := Entry\<rparr>" "disc_env_ok\<lparr>de_mem := False\<rparr>"
      cfg_minimal True ESP_OK True cfg_minimal disc_env_ok]
  by (simp add: disc_env_ok_def Let_def)

end
