(* ===== verification/Discovery_Steps.thy ===== *)
theory Discovery_Steps
  imports Discovery
begin

text \<open>
  The responder task in the steps between which another task can run: each one reads the shared
  handle, or makes one call that changes what the task owns.  A turn of the task is a run of these
  steps, and a stop's \<open>vTaskDelete\<close> can come between any two of them.
\<close>

section \<open>Steps\<close>

text \<open>Where the task is inside its turn (whose kind is \<open>disc_pc\<close>): at its head, or before the call
  named.  The points from \<open>Freeing\<close> on are the way out of the task, behind its loops.\<close>

datatype disc_point =
    Head
  | Watching        \<comment> \<open>between \<open>esp_task_wdt_add\<close> and setting \<open>s_disc_wdt_watched\<close>\<close>
  | Allocating
  | Reopening       \<comment> \<open>before closing the socket of the turn before\<close>
  | Opening
  | Binding
  | Joining
  | Greeting
  | Retrying
  | Receiving
  | Freeing
  | Closing
  | Unwatching
  | Unsubscribing
  | Ending          \<comment> \<open>before \<open>vTaskDelete (NULL)\<close>\<close>

type_synonym disc_at = "disc_point \<times> disc"

fun disc_step :: "disc_env \<Rightarrow> config \<Rightarrow> disc_at \<Rightarrow> disc_at \<times> disc_effect list" where
  "disc_step env cfg (Head, d) =
     (case disc_pc d of
        No_Task \<Rightarrow> ((Head, d), [])
      | Entry \<Rightarrow>
          (let d1 = d\<lparr>disc_uuid := c_text (cfg_uuid cfg), disc_sock := False, disc_timeout := None, disc_subscribed := False\<rparr>
           in if cfg_wdt_watch_discovery cfg \<and> de_wdt env
              then ((Watching, d1\<lparr>disc_subs := disc_subs d1 + 1, disc_subscribed := True\<rparr>), [Wdt_Add])
              else ((Allocating, d1), []))
      | Outer \<Rightarrow> if \<not> disc_task d then ((Freeing, d), []) else ((Reopening, d), disc_fed d)
      | Listen k \<Rightarrow> if \<not> disc_task d then ((Head, d\<lparr>disc_pc := Outer\<rparr>), []) else ((Receiving, d), disc_fed d))"
| "disc_step env cfg (Watching, d) = ((Allocating, d\<lparr>disc_watched := True\<rparr>), [])"
| "disc_step env cfg (Allocating, d) =
     (if de_mem env then ((Head, d\<lparr>disc_pc := Outer, disc_bufs := disc_bufs d + 1\<rparr>), []) else ((Ending, d), []))"
| "disc_step env cfg (Reopening, d) = ((Opening, disc_close d), [])"
| "disc_step env cfg (Opening, d) =
     (if de_socket env then ((Binding, d\<lparr>disc_sock := True, disc_socks := disc_socks d + 1\<rparr>), []) else ((Retrying, d), []))"
| "disc_step env cfg (Binding, d) = (if de_bind env then ((Joining, d), []) else ((Retrying, disc_close d), []))"
| "disc_step env cfg (Joining, d) =
     (if onvif_c_cfg_ip cfg = ''0.0.0.0'' \<or> \<not> de_join env then ((Retrying, disc_close d), [])
      else ((Greeting, d\<lparr>disc_timeout := Some 5000\<rparr>), []))"
| "disc_step env cfg (Greeting, d) = ((Head, d\<lparr>disc_pc := Listen 0\<rparr>), disc_hello cfg (disc_uuid d))"
| "disc_step env cfg (Retrying, d) = ((Head, d), disc_sleep (disc_watched d) 10000)"
| "disc_step env cfg (Receiving, d) =
     (case disc_pc d of
        Listen hello_counter \<Rightarrow>
          (let (d', es) =
             (if de_recv env = [] then
                (if 6 \<le> hello_counter + 1
                 then (d\<lparr>disc_pc := Listen 0\<rparr>,
                       if onvif_c_cfg_ip cfg \<noteq> ''0.0.0.0'' then disc_hello cfg (disc_uuid d) else [])
                 else (d\<lparr>disc_pc := Listen (hello_counter + 1)\<rparr>, []))
              else (d, disc_datagram cfg (disc_uuid d) (de_recv env)))
           in ((Head, d'), Receive (disc_timeout d) # es))
      | _ \<Rightarrow> ((Head, d), []))"
| "disc_step env cfg (Freeing, d) = ((Closing, d\<lparr>disc_bufs := disc_bufs d - 1\<rparr>), [])"
| "disc_step env cfg (Closing, d) = ((Unwatching, disc_close d), [])"
| "disc_step env cfg (Unwatching, d) =
     (if disc_watched d then ((Unsubscribing, d\<lparr>disc_watched := False\<rparr>), []) else ((Ending, d), []))"
| "disc_step env cfg (Unsubscribing, d) =
     ((Ending, d\<lparr>disc_subs := disc_subs d - of_bool (disc_subscribed d), disc_subscribed := False\<rparr>), [Wdt_Delete])"
| "disc_step env cfg (Ending, d) = ((Head, d\<lparr>disc_pc := No_Task\<rparr>), [Task_Ends])"

text \<open>A run, with what the platform and the callbacks answer at each step.\<close>

fun step_run :: "(disc_env \<times> config) list \<Rightarrow> disc_at \<Rightarrow> disc_at \<times> disc_effect list" where
  "step_run [] x = (x, [])"
| "step_run ((env, cfg) # as) x =
     (let (y, es1) = disc_step env cfg x; (z, es2) = step_run as y in (z, es1 @ es2))"

lemma step_run_induct:
  assumes "P x" and "\<And>env cfg x. P x \<Longrightarrow> P (fst (disc_step env cfg x))"
  shows "P (fst (step_run as x))"
  using assms(1)
proof (induction as arbitrary: x)
  case (Cons a as)
  then show ?case using assms(2) [OF Cons.prems] by (cases a) (simp add: case_prod_unfold Let_def)
qed simp


section \<open>A turn is a run of steps\<close>

abbreviation same_answers :: "nat \<Rightarrow> disc_env \<Rightarrow> config \<Rightarrow> disc_at \<Rightarrow> disc_at \<times> disc_effect list" where
  "same_answers n env cfg \<equiv> step_run (replicate n (env, cfg))"

lemma same_answers_Suc:
  "same_answers (Suc n) env cfg x =
     (let (y, es1) = disc_step env cfg x; (z, es2) = same_answers n env cfg y in (z, es1 @ es2))"
  by simp

lemmas run_turn = same_answers_Suc Let_def numeral_eq_Suc

lemma close_again [simp]:
  "\<not> disc_sock (disc_close d)" "disc_close (disc_close d) = disc_close d" "disc_pc (disc_close d) = disc_pc d"
  "disc_task (disc_close d) = disc_task d" "disc_watched (disc_close d) = disc_watched d"
  "disc_uuid (disc_close d) = disc_uuid d" "disc_bufs (disc_close d) = disc_bufs d"
  "disc_subscribed (disc_close d) = disc_subscribed d"
  by (simp_all add: disc_close_def)

text \<open>An open socket has a receive timeout or none; no socket has none.\<close>

definition timeout_ok :: "disc \<Rightarrow> bool" where
  "timeout_ok d \<longleftrightarrow> (disc_timeout d \<noteq> None \<longrightarrow> disc_sock d)"

lemma reclose:
  "timeout_ok d \<Longrightarrow> disc_close (disc_close d\<lparr>disc_sock := True, disc_socks := Suc (disc_socks (disc_close d))\<rparr>) = disc_close d"
  by (auto simp: disc_close_def timeout_ok_def)

lemma entry_steps:
  "disc_pc d = Entry \<Longrightarrow>
     \<exists>n\<le>6. same_answers n env cfg (Head, d) = ((Head, fst (disc_entry env cfg d)), snd (disc_entry env cfg d))"
  by (cases "cfg_wdt_watch_discovery cfg \<and> de_wdt env"; cases "de_mem env")
    (rule exI [of _ 4] exI [of _ 3] exI [of _ 2], simp add: disc_entry_def run_turn)+

lemma exit_steps:
  assumes "disc_pc d = Outer" and "\<not> disc_task d"
  shows "\<exists>n\<le>6. same_answers n env cfg (Head, d) = ((Head, fst (disc_exit d)), snd (disc_exit d))"
proof (cases "disc_watched d")
  case True
  then show ?thesis using assms by (intro exI [of _ 6]) (simp add: disc_exit_def disc_close_def run_turn)
next
  case False
  then show ?thesis using assms by (intro exI [of _ 5]) (simp add: disc_exit_def disc_close_def run_turn)
qed

lemma outer_steps:
  assumes "disc_pc d = Outer" and "timeout_ok d"
  shows "\<exists>n\<le>6. same_answers n env cfg (Head, d) = ((Head, fst (disc_outer env cfg d)), snd (disc_outer env cfg d))"
proof -
  note o = disc_outer_def [of env cfg d] assms(1) reclose [OF assms(2)]
  consider "\<not> disc_task d" | "disc_task d" "\<not> de_socket env" | "disc_task d" "de_socket env" "\<not> de_bind env"
    | "disc_task d" "de_socket env" "de_bind env" "onvif_c_cfg_ip cfg = ''0.0.0.0'' \<or> \<not> de_join env"
    | "disc_task d" "de_socket env" "de_bind env" "onvif_c_cfg_ip cfg \<noteq> ''0.0.0.0''" "de_join env" by blast
  then show ?thesis
  proof cases
    case 1
    with exit_steps [OF assms(1) 1, of env cfg] show ?thesis by (simp add: disc_outer_def)
  next
    case 2
    then show ?thesis by (intro exI [of _ 4]) (simp add: o run_turn)
  next
    case 3
    then show ?thesis by (intro exI [of _ 5]) (simp add: o run_turn)
  next
    case 4
    then show ?thesis by (intro exI [of _ 6]) (auto simp: o run_turn)
  next
    case 5
    then show ?thesis by (intro exI [of _ 6]) (simp add: o run_turn)
  qed
qed

lemma listen_steps:
  assumes "disc_pc d = Listen k"
  shows "\<exists>n\<le>6. same_answers n env cfg (Head, d) = ((Head, fst (disc_listen env cfg k d)), snd (disc_listen env cfg k d))"
proof (cases "disc_task d")
  case True
  then show ?thesis using assms by (intro exI [of _ 2]) (simp add: disc_listen_def run_turn case_prod_unfold)
next
  case False
  then show ?thesis using assms by (intro exI [of _ 1]) (simp add: disc_listen_def run_turn)
qed

lemma turn_is_steps:
  assumes "timeout_ok d"
  shows "\<exists>n\<le>6. same_answers n env cfg (Head, d) =
    ((Head, fst (onvif_c_discovery_task env cfg d)), snd (onvif_c_discovery_task env cfg d))"
proof (cases "disc_pc d")
  case No_Task
  then show ?thesis by (intro exI [of _ 0]) (simp add: onvif_c_discovery_task_def)
qed (use assms entry_steps outer_steps listen_steps in \<open>simp_all add: onvif_c_discovery_task_def\<close>)

end
