(* ===== verification/Responder.thy ===== *)
theory Responder
  imports Discovery_Steps
begin

text \<open>
  The discovery responder over time: what it owns in every interleaving of starts, steps of the task
  and the two halves of a stop, what a stop leaves behind, how the task announces itself and how it
  feeds the watchdog.
\<close>

section \<open>What the responder owns\<close>

definition in_loops :: "disc \<Rightarrow> bool" where
  "in_loops d = (case disc_pc d of Outer \<Rightarrow> True | Listen k \<Rightarrow> True | _ \<Rightarrow> False)"

fun holds_buf :: "disc_at \<Rightarrow> bool" where
  "holds_buf (pt, d) \<longleftrightarrow> in_loops d \<and> pt \<notin> {Closing, Unwatching, Unsubscribing, Ending}"

fun holds_sock :: "disc_at \<Rightarrow> bool" where
  "holds_sock (pt, d) \<longleftrightarrow> in_loops d \<and> disc_sock d"

text \<open>All histories in which one thread starts and stops the responder: \<open>stopping\<close> is the handle that
  a stop has taken and not yet deleted, and \<open>bufs\<close> and \<open>socks\<close> count the receive buffers and sockets that a
  task held at the moment it was deleted.\<close>

inductive disc_reach :: "bool option \<Rightarrow> nat \<Rightarrow> nat \<Rightarrow> disc_at \<Rightarrow> bool" where
  boot: "disc_reach None 0 0 (Head, disc_zero)"
| start: "disc_reach None bufs socks (pt, d) \<Longrightarrow> onvif_c_discovery_start mdns init created cfg d = (ret, d', es) \<Longrightarrow>
    disc_reach None bufs socks (pt, d')"
| step: "disc_reach stopping bufs socks x \<Longrightarrow> disc_step env cfg x = (y, es) \<Longrightarrow> disc_reach stopping bufs socks y"
| clear: "disc_reach None bufs socks (pt, d) \<Longrightarrow> stop_clear d = (task, d') \<Longrightarrow>
    disc_reach (Some task) bufs socks (pt, d')"
| kill: "disc_reach (Some task) bufs socks (pt, d) \<Longrightarrow> stop_kill task d = (d', es) \<Longrightarrow>
    disc_reach None (bufs + of_bool (holds_buf (pt, d))) (socks + of_bool (holds_sock (pt, d))) (Head, d')"

text \<open>Which points belong to which kind of turn, and where the socket is open.\<close>

fun point_ok :: "disc_at \<Rightarrow> bool" where
  "point_ok (pt, d) \<longleftrightarrow>
     (case disc_pc d of
        No_Task \<Rightarrow> pt = Head
      | Entry \<Rightarrow> pt \<in> {Head, Watching, Allocating, Ending} \<and> (pt \<in> {Watching, Allocating} \<longrightarrow> \<not> disc_sock d)
      | Outer \<Rightarrow> pt \<notin> {Watching, Allocating, Receiving} \<and>
          (pt \<in> {Opening, Retrying, Unwatching, Unsubscribing, Ending} \<longrightarrow> \<not> disc_sock d) \<and>
          (pt \<in> {Binding, Joining, Greeting} \<longrightarrow> disc_sock d)
      | Listen k \<Rightarrow> pt \<in> {Head, Receiving} \<and> disc_sock d)"

fun way_out :: "disc_at \<Rightarrow> bool" where
  "way_out (pt, d) \<longleftrightarrow> pt \<in> {Freeing, Closing, Unwatching, Unsubscribing} \<or> pt = Ending \<and> disc_pc d = Outer"

fun handle_ok :: "bool option \<Rightarrow> disc_at \<Rightarrow> bool" where
  "handle_ok None (pt, d) \<longleftrightarrow> \<not> way_out (pt, d) \<and> (disc_pc d \<noteq> No_Task \<longrightarrow> disc_task d)"
| "handle_ok (Some task) (pt, d) \<longleftrightarrow> \<not> disc_task d \<and> (disc_pc d \<noteq> No_Task \<longrightarrow> task)"

fun disc_owns :: "nat \<Rightarrow> nat \<Rightarrow> disc_at \<Rightarrow> bool" where
  "disc_owns bufs socks (pt, d) \<longleftrightarrow>
     disc_bufs d = bufs + of_bool (holds_buf (pt, d)) \<and> disc_socks d = socks + of_bool (holds_sock (pt, d))"

lemmas owns_defs = in_loops_def disc_close_def Let_def

lemma step_point: "point_ok x \<Longrightarrow> point_ok (fst (disc_step env cfg x))"
  by (cases "(env, cfg, x)" rule: disc_step.cases)
    (auto simp: owns_defs split: disc_pc.splits)

lemma step_owns: "point_ok x \<Longrightarrow> disc_owns n m x \<Longrightarrow> disc_owns n m (fst (disc_step env cfg x))"
  by (cases "(env, cfg, x)" rule: disc_step.cases)
    (auto simp: owns_defs split: disc_pc.splits)

lemma step_handle: "point_ok x \<Longrightarrow> handle_ok p x \<Longrightarrow> handle_ok p (fst (disc_step env cfg x))"
  by (cases p; cases "(env, cfg, x)" rule: disc_step.cases)
    (auto simp: owns_defs split: disc_pc.splits)

lemma start_owns:
  assumes "point_ok (pt, d) \<and> disc_owns n m (pt, d) \<and> handle_ok None (pt, d)"
  shows "point_ok (pt, fst (snd (onvif_c_discovery_start mdns init created cfg d))) \<and>
    disc_owns n m (pt, fst (snd (onvif_c_discovery_start mdns init created cfg d))) \<and>
    handle_ok None (pt, fst (snd (onvif_c_discovery_start mdns init created cfg d)))"
proof (cases "disc_task d")
  case False
  with assms have "disc_pc d = No_Task" "pt = Head" by auto
  with assms False show ?thesis
    by (simp add: onvif_c_discovery_start_def owns_defs case_prod_unfold)
qed (use assms in \<open>simp add: onvif_c_discovery_start_def case_prod_unfold Let_def\<close>)

lemma clear_owns:
  "point_ok (pt, d) \<and> disc_owns n m (pt, d) \<and> handle_ok None (pt, d) \<Longrightarrow>
     point_ok (pt, snd (stop_clear d)) \<and> disc_owns n m (pt, snd (stop_clear d)) \<and>
     handle_ok (Some (fst (stop_clear d))) (pt, snd (stop_clear d))"
  by (cases "disc_pc d") (auto simp: stop_clear_def in_loops_def)

lemma kill_owns:
  assumes "point_ok (pt, d) \<and> disc_owns n m (pt, d) \<and> handle_ok (Some task) (pt, d)"
  shows "point_ok (Head, fst (stop_kill task d)) \<and>
    disc_owns (n + of_bool (holds_buf (pt, d))) (m + of_bool (holds_sock (pt, d))) (Head, fst (stop_kill task d)) \<and>
    handle_ok None (Head, fst (stop_kill task d))"
proof (cases task)
  case False
  with assms have "disc_pc d = No_Task" by auto
  with assms False show ?thesis by (simp add: stop_kill_def in_loops_def)
qed (use assms in \<open>simp add: stop_kill_def in_loops_def\<close>)

lemma disc_reach_owns: "disc_reach p n m x \<Longrightarrow> point_ok x \<and> disc_owns n m x \<and> handle_ok p x"
proof (induction rule: disc_reach.induct)
  case boot
  then show ?case by (simp add: disc_zero_def owns_defs)
next
  case (start n m pt d mdns init created cfg ret d' es)
  then show ?case using start_owns [of pt d n m mdns init created cfg] by simp
next
  case (step p n m x env cfg y es)
  then show ?case using step_point step_owns step_handle by (metis fst_conv)
next
  case (clear n m pt d task d')
  then show ?case using clear_owns [of pt d n m] by simp
next
  case (kill task n m pt d d' es)
  then show ?case using kill_owns [of pt d n m task] by simp
qed

text \<open>The task's own subscription, which stands behind a flag that may be left from a task before.\<close>

fun sub_ok :: "disc_at \<Rightarrow> bool" where
  "sub_ok (pt, d) \<longleftrightarrow>
     (case disc_pc d of
        No_Task \<Rightarrow> True
      | Entry \<Rightarrow> pt = Allocating \<longrightarrow> disc_subscribed d \<longrightarrow> disc_watched d
      | Outer \<Rightarrow> (disc_subscribed d \<longrightarrow> disc_watched d \<or> pt = Unsubscribing) \<and> (pt = Ending \<longrightarrow> \<not> disc_subscribed d)
      | Listen k \<Rightarrow> disc_subscribed d \<longrightarrow> disc_watched d)"

lemma step_sub: "point_ok x \<Longrightarrow> sub_ok x \<Longrightarrow> sub_ok (fst (disc_step env cfg x))"
  by (cases "(env, cfg, x)" rule: disc_step.cases)
    (auto simp: owns_defs split: disc_pc.splits)

lemma disc_reach_sub: "disc_reach p n m x \<Longrightarrow> sub_ok x"
proof (induction rule: disc_reach.induct)
  case (start n m pt d mdns init created cfg ret d' es)
  then have "disc_pc d \<noteq> No_Task \<longrightarrow> disc_task d" "disc_pc d = No_Task \<longrightarrow> pt = Head"
    using disc_reach_owns [OF start.hyps(1)] by auto
  with start.IH start.hyps(2) show ?case
    by (auto simp: onvif_c_discovery_start_def Let_def split: prod.splits if_splits)
next
  case (step p n m x env cfg y es)
  then show ?case using step_sub disc_reach_owns by (metis fst_conv)
next
  case (clear n m pt d task d')
  then show ?case by (cases "disc_pc d") (auto simp: stop_clear_def)
next
  case (kill task n m pt d d' es)
  then have "\<not> task \<Longrightarrow> disc_pc d = No_Task" using disc_reach_owns [OF kill.hyps(1)] by auto
  with kill show ?case by (cases task) (auto simp: stop_kill_def)
qed (simp add: disc_zero_def)

text \<open>Once the handle is cleared, a listening task finishes its turn and takes the way out.\<close>

fun leaving :: "disc_at \<Rightarrow> bool" where
  "leaving (pt, d) \<longleftrightarrow> \<not> disc_task d \<and>
     (case disc_pc d of
        No_Task \<Rightarrow> pt = Head
      | Entry \<Rightarrow> False
      | Outer \<Rightarrow> pt \<in> {Head, Freeing, Closing, Unwatching, Unsubscribing, Ending} \<and>
          (pt \<in> {Head, Freeing, Closing} \<longrightarrow> disc_sock d)
      | Listen k \<Rightarrow> pt \<in> {Head, Receiving} \<and> disc_sock d)"

lemma step_leaving: "leaving x \<Longrightarrow> leaving (fst (disc_step env cfg x))"
  by (cases "(env, cfg, x)" rule: disc_step.cases)
    (auto simp: owns_defs split: disc_pc.splits)

lemma step_run_reach: "disc_reach p n m x \<Longrightarrow> disc_reach p n m (fst (step_run as x))"
  by (rule step_run_induct) (auto intro: disc_reach.step simp: prod_eq_iff)


section \<open>Announcing\<close>

fun task_run :: "(disc_env \<times> config) list \<Rightarrow> disc \<Rightarrow> disc \<times> disc_effect list" where
  "task_run [] d = (d, [])"
| "task_run ((env, cfg) # as) d =
     (let (d1, es1) = onvif_c_discovery_task env cfg d; (d2, es2) = task_run as d1 in (d2, es1 @ es2))"

fun hello_sent :: "disc_effect \<Rightarrow> string option" where
  "hello_sent (Multicast len buf) = Some buf"
| "hello_sent _ = None"

abbreviation hellos :: "disc_effect list \<Rightarrow> string list" where
  "hellos es \<equiv> List.map_filter hello_sent es"






lemma fed_hellos [simp]: "hellos (disc_fed d) = []"
  by (simp add: disc_fed_def map_filter_simps)

lemma sleep_hellos [simp]: "hellos (disc_sleep w ms) = []"
proof (induction w ms rule: disc_sleep.induct)
  case (1 w ms)
  note IH = "1.IH" [OF _ refl]
  show ?case using IH by (subst disc_sleep.simps) (cases w; auto simp: Let_def map_filter_simps split: if_splits)
qed

lemma datagram_hellos [simp]: "hellos (disc_datagram cfg uuid data) = []"
  by (simp add: disc_datagram_eq Let_def map_filter_simps split: option.split)








section \<open>Feeding the watchdog\<close>

text \<open>The time spent asleep or in \<open>recvfrom\<close> since the last reset, and that it never exceeds \<open>lim\<close>.\<close>

fun elapsed :: "int \<Rightarrow> disc_effect list \<Rightarrow> int" where
  "elapsed t [] = t"
| "elapsed t (Delay ms # es) = elapsed (t + ms) es"
| "elapsed t (Receive (Some ms) # es) = elapsed (t + ms) es"
| "elapsed t (Wdt_Reset # es) = elapsed 0 es"
| "elapsed t (e # es) = elapsed t es"

fun fed_within :: "int \<Rightarrow> int \<Rightarrow> disc_effect list \<Rightarrow> bool" where
  "fed_within lim t [] \<longleftrightarrow> True"
| "fed_within lim t (Delay ms # es) \<longleftrightarrow> t + ms \<le> lim \<and> fed_within lim (t + ms) es"
| "fed_within lim t (Receive None # es) \<longleftrightarrow> False"
| "fed_within lim t (Receive (Some ms) # es) \<longleftrightarrow> t + ms \<le> lim \<and> fed_within lim (t + ms) es"
| "fed_within lim t (Wdt_Reset # es) \<longleftrightarrow> fed_within lim 0 es"
| "fed_within lim t (e # es) \<longleftrightarrow> fed_within lim t es"

lemma fed_append: "fed_within lim t (xs @ ys) \<longleftrightarrow> fed_within lim t xs \<and> fed_within lim (elapsed t xs) ys"
  by (induction lim t xs rule: fed_within.induct) auto

lemma sleep_feeds: "fed_within 5000 0 (disc_sleep True ms) \<and> elapsed 0 (disc_sleep True ms) = 0"
proof (induction True ms rule: disc_sleep.induct)
  case (1 ms)
  then show ?case by (subst (1 2) disc_sleep.simps) (auto simp: Let_def)
qed

lemma hello_feeds [simp]: "fed_within lim t (disc_hello cfg u)" "elapsed t (disc_hello cfg u) = t"
  by (simp_all add: disc_hello_eq Let_def)

lemma datagram_feeds [simp]: "fed_within lim t (disc_datagram cfg u s)" "elapsed t (disc_datagram cfg u s) = t"
  by (simp_all add: disc_datagram_eq Let_def split: option.split)

text \<open>A watched task in its loops.\<close>

definition on_watch :: "disc \<Rightarrow> bool" where
  "on_watch d \<longleftrightarrow> disc_watched d \<and> disc_task d \<and>
     (case disc_pc d of Outer \<Rightarrow> True | Listen k \<Rightarrow> disc_timeout d = Some 5000 | _ \<Rightarrow> False)"

lemma watched_turn:
  assumes "on_watch d"
  shows "on_watch (fst (onvif_c_discovery_task env cfg d)) \<and>
    fed_within 5000 t (snd (onvif_c_discovery_task env cfg d)) \<and>
    hd (snd (onvif_c_discovery_task env cfg d)) = Wdt_Reset"
proof (cases "disc_pc d")
  case Outer
  with assms sleep_feeds [of 10000] show ?thesis
    by (auto simp: on_watch_def onvif_c_discovery_task_def disc_outer_def disc_fed_def Let_def)
next
  case (Listen k)
  with assms show ?thesis
    by (auto simp: on_watch_def onvif_c_discovery_task_def disc_listen_def disc_fed_def Let_def)
qed (use assms in \<open>simp_all add: on_watch_def\<close>)

lemma watched_run: "on_watch d \<Longrightarrow> fed_within 5000 t (snd (task_run as d))"
proof (induction as arbitrary: d t)
  case (Cons a as)
  obtain env cfg where a: "a = (env, cfg)" by fastforce
  with Cons watched_turn [of d env cfg t] show ?case
    by (simp add: fed_append case_prod_unfold Let_def)
qed simp


section \<open>Properties\<close>

text \<open>
  C31: What the responder owns is accounted for in every interleaving of starts, steps of the task (one
  for each call that changes what it owns and each look at its handle) and the two halves of a stop:
  the receive buffers and sockets allocated are those that the task holds at that point and those that
  tasks held when a stop deleted them; and unless a stop is under way, no step gives a buffer back.
\<close>

theorem responder_accounts:
  assumes "disc_reach stopping bufs socks (pt, d)"
  shows "disc_bufs d = bufs + of_bool (holds_buf (pt, d)) \<and>
    disc_socks d = socks + of_bool (holds_sock (pt, d)) \<and>
    (stopping = None \<longrightarrow> disc_bufs d \<le> disc_bufs (snd (fst (disc_step env cfg (pt, d)))))"
proof -
  note o = disc_reach_owns [OF assms]
  have "disc_bufs d \<le> disc_bufs (snd (fst (disc_step env cfg (pt, d))))" if "stopping = None"
  proof -
    have "pt \<noteq> Freeing" using o that by auto
    then show ?thesis
      by (cases "(env, cfg, (pt, d))" rule: disc_step.cases) (simp_all add: Let_def case_prod_unfold split: disc_pc.split)
  qed
  with o show ?thesis by simp
qed

text \<open>Started, listening, stopped: and again.\<close>

definition disc_cycle :: "disc \<Rightarrow> disc" where
  "disc_cycle d =
     (let d1 = fst (snd (onvif_c_discovery_start True ESP_OK True cfg_minimal d));
          d2 = snd (fst (step_run (replicate 8 (disc_env_ok, cfg_minimal)) (Head, d1)))
      in fst (snd (onvif_c_discovery_stop True True cfg_minimal d2)))"

lemma cycle_leaks:
  assumes "disc_reach None n m (Head, d)" and "\<not> disc_task d"
  shows "disc_reach None (n + 1) (m + 1) (Head, disc_cycle d)" and "\<not> disc_task (disc_cycle d)"
proof -
  let ?s = "fst (snd (onvif_c_discovery_start True ESP_OK True cfg_minimal d))"
  let ?x = "fst (step_run (replicate 8 (disc_env_ok, cfg_minimal)) (Head, ?s))"
  have s: "disc_reach None n m (Head, ?s)" "disc_pc ?s = Entry" "disc_task ?s"
    using disc_reach.start [OF assms(1), of True ESP_OK True cfg_minimal] assms(2)
    by (simp_all add: onvif_c_discovery_start_def case_prod_unfold Let_def)
  have t: "disc_reach None n m ?x" by (rule step_run_reach [OF s(1)])
  have run: "fst ?x = Head" "disc_task (snd ?x)" "in_loops (snd ?x)" "disc_sock (snd ?x)"
    using s(2,3) by (simp_all add: numeral_eq_Suc disc_env_ok_def cfg_minimal_def onvif_c_cfg_ip_def in_loops_def Let_def)
  have x: "?x = (Head, snd ?x)" using run(1) by (simp add: prod_eq_iff)
  have "disc_reach (Some True) n m (Head, snd (stop_clear (snd ?x)))"
    using disc_reach.clear [of n m Head "snd ?x"] t run(2) x by (simp add: stop_clear_def)
  then have "disc_reach None (n + 1) (m + 1) (Head, fst (stop_kill True (snd (stop_clear (snd ?x)))))"
    using disc_reach.kill [of True n m Head "snd (stop_clear (snd ?x))"] run(3,4)
    by (simp add: prod_eq_iff stop_clear_def in_loops_def)
  moreover have "disc_cycle d = fst (stop_kill True (snd (stop_clear (snd ?x))))"
    using run(2) by (simp only: disc_cycle_def onvif_c_discovery_stop_def stop_clear_def case_prod_unfold Let_def fst_conv snd_conv)
  ultimately show "disc_reach None (n + 1) (m + 1) (Head, disc_cycle d)" "\<not> disc_task (disc_cycle d)"
    by (simp_all add: stop_clear_def stop_kill_def)
qed

lemma cycles_leak:
  "disc_reach None n n (Head, (disc_cycle ^^ n) disc_zero) \<and> \<not> disc_task ((disc_cycle ^^ n) disc_zero)"
proof (induction n)
  case 0
  then show ?case using disc_reach.boot by (simp add: disc_zero_def)
next
  case (Suc n)
  with cycle_leaks [of n n "(disc_cycle ^^ n) disc_zero"] show ?case by simp
qed

theorem responder_accounts_witness:
  "disc_bufs ((disc_cycle ^^ 100) disc_zero) \<ge> 100 \<and> disc_socks ((disc_cycle ^^ 100) disc_zero) \<ge> 100"
proof -
  define x where "x = (disc_cycle ^^ 100) disc_zero"
  have "disc_reach None 100 100 (Head, x)" using cycles_leak [of 100] by (simp add: x_def)
  from responder_accounts [OF this, of disc_env_ok cfg_minimal] show ?thesis unfolding x_def [symmetric] by simp
qed

text \<open>
  C32: What stopping a listening responder comes to depends on where the task is when the stop, having
  cleared the handle, deletes it: it is clean (the task deleted once, its buffer, socket and watchdog
  subscription given back) exactly in the window behind the task's own clean-up and before its own
  \<open>vTaskDelete (NULL)\<close>; before that window something stays behind, and after it the handle is deleted a
  second time.
\<close>

theorem stop_clean_window:
  assumes "disc_reach None bufs socks (pt, d)" and "disc_pc d = Listen k"
  shows "case fst (step_run as (pt, snd (stop_clear d))) of (pt', d') \<Rightarrow>
    (case stop_kill (fst (stop_clear d)) d' of (d'', es) \<Rightarrow>
      disc_pc d'' = No_Task \<and>
      (es = [Task_Killed] \<and> disc_bufs d'' = bufs \<and> disc_socks d'' = socks \<and> \<not> disc_subscribed d'' \<longleftrightarrow>
         pt' = Ending \<or> pt' \<in> {Unwatching, Unsubscribing} \<and> \<not> disc_subscribed d') \<and>
      (es = [Dangling_Delete] \<longleftrightarrow> disc_pc d' = No_Task))"
proof -
  have task: "disc_task d" using disc_reach_owns [OF assms(1)] assms(2) by simp
  obtain pt' d' where x: "fst (step_run as (pt, snd (stop_clear d))) = (pt', d')" by fastforce
  have "disc_reach (Some True) bufs socks (pt, snd (stop_clear d))"
    using disc_reach.clear [OF assms(1)] task by (simp add: stop_clear_def)
  then have r: "disc_reach (Some True) bufs socks (pt', d')" using step_run_reach by (metis x)
  have "leaving (pt, snd (stop_clear d))"
    using disc_reach_owns [OF assms(1)] assms(2) by (auto simp: stop_clear_def)
  then have l: "leaving (pt', d')" using step_run_induct [of leaving] step_leaving by (metis x)
  have own: "point_ok (pt', d')" "disc_bufs d' = bufs + of_bool (holds_buf (pt', d'))"
    "disc_socks d' = socks + of_bool (holds_sock (pt', d'))" and sub: "sub_ok (pt', d')"
    using disc_reach_owns [OF r] disc_reach_sub [OF r] by simp_all
  have clean: "(disc_pc d' \<noteq> No_Task \<and> disc_bufs d' = bufs \<and> disc_socks d' = socks \<and> \<not> disc_subscribed d') \<longleftrightarrow>
      (pt' = Ending \<or> pt' \<in> {Unwatching, Unsubscribing} \<and> \<not> disc_subscribed d')"
  proof (cases "disc_pc d'")
    case Outer
    with l own sub show ?thesis by (cases pt') (simp_all add: in_loops_def)
  qed (use l own in \<open>auto simp: in_loops_def\<close>)
  have "stop_kill (fst (stop_clear d)) d' =
      (d'\<lparr>disc_pc := No_Task\<rparr>, [if disc_pc d' = No_Task then Dangling_Delete else Task_Killed])"
    using task by (simp add: stop_clear_def stop_kill_def)
  with clean show ?thesis by (auto simp: x)
qed

lemma listening_reach: "\<exists>d. disc_reach None 0 0 (Head, d) \<and> disc_pc d = Listen 0 \<and> disc_task d \<and> \<not> disc_watched d \<and> disc_sock d"
proof -
  let ?s = "disc_zero\<lparr>disc_task := True, disc_pc := Entry\<rparr>"
  have "disc_reach None 0 0 (Head, ?s)"
    using disc_reach.start [OF disc_reach.boot, of False ESP_OK True cfg_minimal]
    by (simp add: onvif_c_discovery_start_def init_mdns_def cfg_minimal_def disc_zero_def)
  then have "disc_reach None 0 0 (fst (step_run (replicate 8 (disc_env_ok, cfg_minimal)) (Head, ?s)))"
    by (rule step_run_reach)
  then show ?thesis
    by (intro exI [of _ "snd (fst (step_run (replicate 8 (disc_env_ok, cfg_minimal)) (Head, ?s)))"])
      (simp add: numeral_eq_Suc disc_env_ok_def cfg_minimal_def onvif_c_cfg_ip_def Let_def disc_zero_def disc_close_def)
qed

theorem stop_clean_window_witness:
  "\<exists>d. disc_reach None 0 0 (Head, d) \<and> disc_pc d = Listen 0 \<and>
     snd (stop_kill True (snd (fst (step_run (replicate 5 (disc_env_ok, cfg_minimal)) (Head, snd (stop_clear d)))))) = [Task_Killed] \<and>
     disc_bufs (snd (fst (step_run (replicate 5 (disc_env_ok, cfg_minimal)) (Head, snd (stop_clear d))))) = 0 \<and>
     snd (stop_kill True (snd (fst (step_run (replicate 6 (disc_env_ok, cfg_minimal)) (Head, snd (stop_clear d)))))) = [Dangling_Delete]"
proof -
  obtain d where d: "disc_reach None 0 0 (Head, d)" "disc_pc d = Listen 0" "disc_task d" "\<not> disc_watched d" "disc_sock d"
    using listening_reach by blast
  let ?x = "\<lambda>n. fst (step_run (replicate n (disc_env_ok, cfg_minimal)) (Head, snd (stop_clear d)))"
  have five: "fst (?x 5) = Ending" and six: "disc_pc (snd (?x 6)) = No_Task"
    using d by (simp_all add: numeral_eq_Suc stop_clear_def disc_close_def Let_def)
  from stop_clean_window [OF d(1,2), of "replicate 5 (disc_env_ok, cfg_minimal)"] five d(3)
  have "snd (stop_kill True (snd (?x 5))) = [Task_Killed]" "disc_bufs (snd (?x 5)) = 0"
    by (simp_all add: case_prod_unfold stop_kill_def stop_clear_def)
  moreover from stop_clean_window [OF d(1,2), of "replicate 6 (disc_env_ok, cfg_minimal)"] six d(3)
  have "snd (stop_kill True (snd (?x 6))) = [Dangling_Delete]"
    by (simp add: case_prod_unfold stop_clear_def)
  ultimately show ?thesis using d by blast
qed



text \<open>
  C35: A watched task keeps the watchdog fed: if a started task (its handle set, its buffer allocated)
  could subscribe, then whatever the network does and however long it runs, it never spends more than
  five seconds asleep or blocked in \<open>recvfrom\<close> without a reset in between, although a retry sleeps
  ten seconds in all.
\<close>

theorem watched_task_feeds:
  assumes "disc_pc d = Entry" and "disc_task d" and "cfg_wdt_watch_discovery cfg0" and "de_wdt env0" and "de_mem env0"
  shows "fed_within 5000 0 (snd (task_run ((env0, cfg0) # as) d))"
proof -
  let ?e = "onvif_c_discovery_task env0 cfg0 d"
  have "snd ?e = [Wdt_Add]" "on_watch (fst ?e)"
    using assms by (simp_all add: onvif_c_discovery_task_def disc_entry_def Let_def on_watch_def)
  with watched_run [of "fst ?e" 0 as] show ?thesis by (simp add: case_prod_unfold Let_def)
qed

theorem watched_task_feeds_witness:
  "fed_within 5000 0 (snd (task_run ((disc_env_ok, cfg_minimal\<lparr>cfg_wdt_watch_discovery := True\<rparr>) #
     replicate 30 (disc_env_ok\<lparr>de_join := False\<rparr>, cfg_minimal)) (disc_zero\<lparr>disc_task := True, disc_pc := Entry\<rparr>)))"
  by (rule watched_task_feeds) (simp_all add: disc_env_ok_def)

end
