(* ===== verification/Queue_Interface.thy ===== *)
theory Queue_Interface
  imports Main
begin

text \<open>
  The interface through which the events service uses its motion queue: a bounded first-in
  first-out queue that drops its oldest element to make room.  \<open>abs\<close> reads a queue as the list
  of its elements, oldest first; \<open>inv\<close> is what every operation keeps.
\<close>

locale drop_oldest_queue =
  fixes reset :: "'q \<Rightarrow> 'q"
    and push :: "'a \<Rightarrow> 'q \<Rightarrow> 'q"
    and pop :: "'q \<Rightarrow> ('a \<times> 'q) option"
    and abs :: "'q \<Rightarrow> 'a list"
    and inv :: "'q \<Rightarrow> bool"
    and cap :: nat
  assumes cap_pos: "0 < cap"
    and abs_bound: "inv q \<Longrightarrow> length (abs q) \<le> cap"
    and inv_reset: "inv q \<Longrightarrow> inv (reset q)"
    and abs_reset: "abs (reset q) = []"
    and inv_push: "inv q \<Longrightarrow> inv (push a q)"
    and abs_push: "inv q \<Longrightarrow>
      abs (push a q) = (if length (abs q) = cap then tl (abs q) else abs q) @ [a]"
    and pop_None: "inv q \<Longrightarrow> pop q = None \<longleftrightarrow> abs q = []"
    and pop_Some: "inv q \<Longrightarrow> pop q = Some (a, q') \<Longrightarrow> abs q = a # abs q' \<and> inv q'"
begin

text \<open>Pushing keeps the last \<open>cap\<close> elements of what was there followed by what came.\<close>

lemma abs_push_drop:
  "inv q \<Longrightarrow> abs (push a q) = drop (Suc (length (abs q)) - cap) (abs q @ [a])"
  using abs_bound [of q] cap_pos
  by (cases "abs q") (auto simp: abs_push le_Suc_eq)

lemma inv_push_all: "inv q \<Longrightarrow> inv (fold push xs q)"
  by (induction xs arbitrary: q) (auto simp: inv_push)

lemma abs_push_all:
  "inv q \<Longrightarrow> abs (fold push xs q) = drop (length (abs q) + length xs - cap) (abs q @ xs)"
proof (induction xs arbitrary: q)
  case Nil
  then show ?case using abs_bound [of q] by simp
next
  case (Cons x xs)
  let ?n = "length (abs q)"
  have le: "?n \<le> cap" using Cons.prems by (rule abs_bound)
  have "abs (fold push (x # xs) q) =
      drop (length (abs (push x q)) + length xs - cap) (abs (push x q) @ xs)"
    using Cons.IH [OF inv_push [OF Cons.prems]] by simp
  also have "\<dots> = drop (?n + length (x # xs) - cap) (abs q @ x # xs)"
  proof (cases "?n = cap")
    case True
    then show ?thesis using Cons.prems cap_pos by (cases "abs q") (auto simp: abs_push)
  next
    case False
    then show ?thesis using Cons.prems le by (simp add: abs_push)
  qed
  finally show ?case .
qed

text \<open>A pop takes the head; the queue that is left is the tail.\<close>

lemma pop_cases:
  assumes "inv q"
  obtains "pop q = None" "abs q = []"
    | a q' where "pop q = Some (a, q')" "abs q = a # abs q'" "inv q'"
  using assms pop_None [of q] pop_Some [of q] by (cases "pop q") auto

end

end
