(* ===== verification/Event_Ring.thy ===== *)
theory Event_Ring
  imports Onvif_Prelude Queue_Interface
begin

text \<open>
  \<open>core/onvif_events_ring.c\<close>: the fixed-depth ring of motion events.  \<open>head\<close> is the oldest slot,
  \<open>count\<close> the number of queued events, \<open>generated\<close> the cumulative (wrapping) diagnostic counter.
  The two indices never leave \<open>0 .. 12\<close> and are naturals here.
\<close>

section \<open>The code\<close>

definition ONVIF_C_EVENT_QUEUE_MAX :: nat where
  "ONVIF_C_EVENT_QUEUE_MAX = 12"

record onvif_c_event =
  ev_active :: bool
  ev_score :: byte
  ev_utc :: int

record onvif_c_event_ring =
  ring_q :: "onvif_c_event list"
  ring_head :: nat
  ring_count :: nat
  ring_generated :: u32

definition ring_reset :: "onvif_c_event_ring \<Rightarrow> onvif_c_event_ring" where
  "ring_reset r = r\<lparr>ring_head := 0, ring_count := 0, ring_generated := 0\<rparr>"

definition ring_make_room :: "onvif_c_event_ring \<Rightarrow> onvif_c_event_ring" where
  "ring_make_room r =
     (if ring_count r = ONVIF_C_EVENT_QUEUE_MAX
      then r\<lparr>ring_head := (ring_head r + 1) mod ONVIF_C_EVENT_QUEUE_MAX, ring_count := ring_count r - 1\<rparr>
      else r)"

definition ring_push :: "onvif_c_event \<Rightarrow> onvif_c_event_ring \<Rightarrow> onvif_c_event_ring" where
  "ring_push e r0 =
     (let r = ring_make_room r0 in
      r\<lparr>ring_q := (ring_q r)[(ring_head r + ring_count r) mod ONVIF_C_EVENT_QUEUE_MAX := e],
        ring_count := ring_count r + 1,
        ring_generated := ring_generated r + 1\<rparr>)"

definition ring_pop :: "onvif_c_event_ring \<Rightarrow> (onvif_c_event \<times> onvif_c_event_ring) option" where
  "ring_pop r =
     (if ring_count r = 0 then None
      else Some (ring_q r ! ring_head r,
             r\<lparr>ring_head := (ring_head r + 1) mod ONVIF_C_EVENT_QUEUE_MAX,
               ring_count := ring_count r - 1\<rparr>))"


section \<open>Invariant and abstraction\<close>

definition ring_inv :: "onvif_c_event_ring \<Rightarrow> bool" where
  "ring_inv r \<longleftrightarrow> length (ring_q r) = ONVIF_C_EVENT_QUEUE_MAX \<and>
     ring_head r < ONVIF_C_EVENT_QUEUE_MAX \<and> ring_count r \<le> ONVIF_C_EVENT_QUEUE_MAX"

definition ring_abs :: "onvif_c_event_ring \<Rightarrow> onvif_c_event list" where
  "ring_abs r =
     map (\<lambda>i. ring_q r ! ((ring_head r + i) mod ONVIF_C_EVENT_QUEUE_MAX)) [0..<ring_count r]"

lemmas ring_defs = ring_reset_def ring_make_room_def ring_push_def ring_pop_def ring_inv_def
  ring_abs_def ONVIF_C_EVENT_QUEUE_MAX_def

lemma ring_abs_length [simp]: "length (ring_abs r) = ring_count r"
  by (simp add: ring_abs_def)

lemma ring_abs_tl:
  assumes "ring_inv r" and "0 < ring_count r"
  shows "ring_abs r = ring_q r ! ring_head r #
    ring_abs (r\<lparr>ring_head := (ring_head r + 1) mod ONVIF_C_EVENT_QUEUE_MAX,
                ring_count := ring_count r - 1\<rparr>)"
proof -
  obtain n where n: "ring_count r = Suc n" using assms(2) by (cases "ring_count r") auto
  have "(ring_head r + Suc i) mod 12 = ((ring_head r + 1) mod 12 + i) mod 12" for i
    by (simp add: mod_simps)
  then show ?thesis
    using assms(1) by (simp add: ring_abs_def n map_upt_Suc ring_inv_def ONVIF_C_EVENT_QUEUE_MAX_def
        del: upt_Suc)
qed

lemma ring_make_room_props:
  assumes "ring_inv r"
  shows "ring_inv (ring_make_room r)"
    and "ring_count (ring_make_room r) < ONVIF_C_EVENT_QUEUE_MAX"
    and "ring_abs (ring_make_room r) =
      (if length (ring_abs r) = ONVIF_C_EVENT_QUEUE_MAX then tl (ring_abs r) else ring_abs r)"
proof -
  show "ring_inv (ring_make_room r)" "ring_count (ring_make_room r) < ONVIF_C_EVENT_QUEUE_MAX"
    using assms by (auto simp: ring_make_room_def ring_inv_def ONVIF_C_EVENT_QUEUE_MAX_def)
  have "0 < ONVIF_C_EVENT_QUEUE_MAX" by (simp add: ONVIF_C_EVENT_QUEUE_MAX_def)
  then show "ring_abs (ring_make_room r) =
      (if length (ring_abs r) = ONVIF_C_EVENT_QUEUE_MAX then tl (ring_abs r) else ring_abs r)"
    using ring_abs_tl [OF assms] by (auto simp: ring_make_room_def)
qed

lemma ring_store_abs:
  assumes "ring_inv r" and "ring_count r < ONVIF_C_EVENT_QUEUE_MAX"
  shows "ring_abs (r\<lparr>ring_q := (ring_q r)[(ring_head r + ring_count r) mod ONVIF_C_EVENT_QUEUE_MAX := e],
      ring_count := ring_count r + 1, ring_generated := g\<rparr>) = ring_abs r @ [e]"
proof -
  have ne: "(ring_head r + ring_count r) mod 12 \<noteq> (ring_head r + i) mod 12" if i: "i < ring_count r" for i
  proof
    assume "(ring_head r + ring_count r) mod 12 = (ring_head r + i) mod 12"
    then obtain k where "ring_head r + ring_count r = ring_head r + i + 12 * k"
      by (rule mod_eq_nat1E) (use i in simp)
    with i assms(2) show False by (cases k) (simp_all add: ONVIF_C_EVENT_QUEUE_MAX_def)
  qed
  then show ?thesis
    using assms by (auto simp: ring_abs_def ring_inv_def ONVIF_C_EVENT_QUEUE_MAX_def)
qed

interpretation rq: drop_oldest_queue ring_reset ring_push ring_pop ring_abs ring_inv
    ONVIF_C_EVENT_QUEUE_MAX
proof unfold_locales
  show "0 < ONVIF_C_EVENT_QUEUE_MAX" by (simp add: ONVIF_C_EVENT_QUEUE_MAX_def)
next
  fix q assume "ring_inv q" then show "length (ring_abs q) \<le> ONVIF_C_EVENT_QUEUE_MAX"
    by (simp add: ring_inv_def)
next
  fix q assume "ring_inv q" then show "ring_inv (ring_reset q)"
    by (simp add: ring_inv_def ring_reset_def ONVIF_C_EVENT_QUEUE_MAX_def)
next
  fix q show "ring_abs (ring_reset q) = []" by (simp add: ring_abs_def ring_reset_def)
next
  fix q a assume "ring_inv q"
  from ring_make_room_props [OF this] show "ring_inv (ring_push a q)"
    by (simp add: ring_push_def Let_def ring_inv_def)
next
  fix q a assume "ring_inv q"
  from ring_make_room_props [OF this]
  show "ring_abs (ring_push a q) =
      (if length (ring_abs q) = ONVIF_C_EVENT_QUEUE_MAX then tl (ring_abs q) else ring_abs q) @ [a]"
    unfolding ring_push_def Let_def by (subst ring_store_abs) simp_all
next
  fix q assume "ring_inv q" then show "(ring_pop q = None) = (ring_abs q = [])"
    by (simp add: ring_pop_def ring_abs_def)
next
  fix q q' a assume "ring_inv q" "ring_pop q = Some (a, q')"
  then show "ring_abs q = a # ring_abs q' \<and> ring_inv q'"
    using ring_abs_tl [of q]
    by (auto simp: ring_pop_def ring_inv_def ONVIF_C_EVENT_QUEUE_MAX_def split: if_splits)
qed


section \<open>Properties\<close>

text \<open>A zeroed ring, the state of a static \<open>onvif_c_event_ring_t\<close>.\<close>

definition ring_zero :: onvif_c_event_ring where
  "ring_zero = \<lparr>ring_q = replicate ONVIF_C_EVENT_QUEUE_MAX \<lparr>ev_active = False, ev_score = 0, ev_utc = 0\<rparr>,
     ring_head = 0, ring_count = 0, ring_generated = 0\<rparr>"

lemma ring_inv_zero: "ring_inv ring_zero"
  by (simp add: ring_zero_def ring_inv_def ONVIF_C_EVENT_QUEUE_MAX_def)

lemma ring_generated_push: "ring_generated (ring_push e r) = ring_generated r + 1"
  by (simp add: ring_push_def Let_def ring_make_room_def)

lemma ring_generated_push_all:
  "ring_generated (fold ring_push es r) = ring_generated r + of_nat (length es)"
  by (induction es arbitrary: r) (simp_all add: ring_generated_push add.assoc)

text \<open>
  C23: The ring refines a bounded queue that drops its oldest element: after any sequence of
  pushes on a well-formed ring it holds exactly the most recent twelve events, oldest first,
  it is still well formed, and the diagnostic counter has advanced by the number of pushes
  (modulo \<open>2 ^ 32\<close>), dropped events included.
\<close>

theorem ring_push_keeps_latest:
  assumes "ring_inv r"
  shows "ring_inv (fold ring_push es r)
    \<and> ring_abs (fold ring_push es r) = drop (length (ring_abs r) + length es - 12) (ring_abs r @ es)
    \<and> ring_generated (fold ring_push es r) = ring_generated r + of_nat (length es)"
  using rq.inv_push_all [OF assms] rq.abs_push_all [OF assms] ring_generated_push_all
  by (simp add: ONVIF_C_EVENT_QUEUE_MAX_def)

theorem ring_push_keeps_latest_witness:
  "ring_inv ring_zero \<and>
   ring_abs (fold ring_push [\<lparr>ev_active = True, ev_score = 87, ev_utc = 5\<rparr>] ring_zero) =
     [\<lparr>ev_active = True, ev_score = 87, ev_utc = 5\<rparr>]"
  using ring_push_keeps_latest [OF ring_inv_zero, of "[\<lparr>ev_active = True, ev_score = 87, ev_utc = 5\<rparr>]"]
    ring_inv_zero
  by (simp add: ring_zero_def ring_abs_def)

text \<open>
  A pop on a well-formed ring returns nothing exactly when no event is queued, and otherwise
  the oldest queued event, leaving the rest in order on a well-formed ring.
\<close>

theorem ring_pop_oldest:
  assumes "ring_inv r"
  shows "case ring_pop r of None \<Rightarrow> ring_abs r = []
         | Some (e, r') \<Rightarrow> ring_abs r = e # ring_abs r' \<and> ring_inv r'"
  by (rule rq.pop_cases [OF assms]) simp_all

theorem ring_pop_oldest_witness:
  "ring_inv (ring_push \<lparr>ev_active = True, ev_score = 3, ev_utc = 9\<rparr> ring_zero) \<and>
   (case ring_pop (ring_push \<lparr>ev_active = True, ev_score = 3, ev_utc = 9\<rparr> ring_zero) of
      None \<Rightarrow> False | Some (e, r') \<Rightarrow> ev_score e = 3 \<and> ring_abs r' = [])"
proof -
  let ?r = "ring_push \<lparr>ev_active = True, ev_score = 3, ev_utc = 9\<rparr> ring_zero"
  have inv: "ring_inv ?r" by (rule rq.inv_push [OF ring_inv_zero])
  have "ring_abs ?r = [\<lparr>ev_active = True, ev_score = 3, ev_utc = 9\<rparr>]"
    using rq.abs_push [OF ring_inv_zero] by (simp add: ring_abs_def ring_zero_def ONVIF_C_EVENT_QUEUE_MAX_def)
  with inv ring_pop_oldest [OF inv] show ?thesis
    by (auto split: option.splits)
qed

end
