(* ===== verification/Events.thy ===== *)
theory Events
  imports Service Event_Ring
begin

text \<open>
  \<open>esp_idf/onvif_c_events.c\<close>: the Pull-Point service, one subscription at a time.  The file's state
  \<open>s_ev\<close> is a record that each operation maps to a new one; every access to it in the source is
  within the mutex, so the operations are the atomic steps.
\<close>

section \<open>State and constants\<close>

definition EV_RESP_MAX :: nat where "EV_RESP_MAX = 2048"
definition ONVIF_EV_BODY_MAX :: nat where "ONVIF_EV_BODY_MAX = 4096"
definition ONVIF_EV_RESP_MAX :: nat where "ONVIF_EV_RESP_MAX = 4096"
definition ONVIF_EV_PULL_MAX :: int where "ONVIF_EV_PULL_MAX = 6"
definition SUB_LIFETIME_S :: int where "SUB_LIFETIME_S = 3600"
definition SUB_IDLE_TIMEOUT_S :: int where "SUB_IDLE_TIMEOUT_S = 120"

lemmas ev_constants = EV_RESP_MAX_def ONVIF_EV_BODY_MAX_def ONVIF_EV_RESP_MAX_def ONVIF_EV_PULL_MAX_def
  SUB_LIFETIME_S_def SUB_IDLE_TIMEOUT_S_def

record ev_state =
  ev_mtx :: bool   \<comment> \<open>the mutex exists\<close>
  sub_valid :: bool
  sub_termination :: int
  sub_last_pull :: int
  ev_ring :: onvif_c_event_ring

definition ev_zero :: ev_state where
  "ev_zero = \<lparr>ev_mtx = False, sub_valid = False, sub_termination = 0, sub_last_pull = 0, ev_ring = ring_zero\<rparr>"


section \<open>Helpers\<close>

definition ev_read_body :: "request \<Rightarrow> string option" where
  "ev_read_body req =
     (if req_len req = 0 \<or> ONVIF_EV_BODY_MAX < req_len req then None
      else if \<not> req_mem req then None
      else map_option c_str (recv_loop (req_len req) [] (req_pieces req)))"

definition ev_send :: "env \<Rightarrow> string \<Rightarrow> svc" where
  "ev_send env xml = (env_send_ret env, [Send 200 (int (length xml)) xml])"

definition ev_fault :: "env \<Rightarrow> string \<Rightarrow> string \<Rightarrow> svc" where
  "ev_fault env subcode text =
     (let (len, resp) = onvif_xml_events_fault 768 subcode text in
      if len \<le> 0 \<or> 768 \<le> len then (ESP_FAIL, []) else ev_send env resp)"

definition sub_alive :: "int \<Rightarrow> ev_state \<Rightarrow> bool \<times> ev_state" where
  "sub_alive now s =
     (if \<not> sub_valid s then (False, s)
      else if sub_termination s < now \<or> SUB_IDLE_TIMEOUT_S < now - sub_last_pull s
      then (False, s\<lparr>sub_valid := False\<rparr>)
      else (True, s))"

definition ev_resp :: "env \<Rightarrow> (nat \<Rightarrow> int \<times> string) \<Rightarrow> svc" where
  "ev_resp env build =
     (if \<not> env_mem_resp env then (ESP_FAIL, [])
      else (let (len, resp) = build EV_RESP_MAX
            in (env_send_ret env, [Send 200 (if 0 < len then len else 0) resp])))"


section \<open>Actions\<close>

definition handle_create_pull_point :: "env \<Rightarrow> config \<Rightarrow> ev_state \<Rightarrow> svc \<times> ev_state" where
  "handle_create_pull_point env cfg s =
     (let now = env_now env;
          s' = s\<lparr>sub_valid := True, sub_termination := now + SUB_LIFETIME_S, sub_last_pull := now,
                 ev_ring := ring_reset (ev_ring s)\<rparr>;
          now_s = iso8601 now 24;
          term_s = iso8601 (now + SUB_LIFETIME_S) 24;
          (len, resp) = onvif_xml_create_pull_point_response 1024 (onvif_c_cfg_ip cfg) (cfg_port cfg) now_s term_s
      in (if len \<le> 0 \<or> 1024 \<le> len then ev_fault env ''ter:ActionNotSupported'' ''response overflow''
          else ev_send env resp, s'))"

text \<open>\<open>atoi\<close>; a number beyond \<open>int\<close> stays large here, as the saturated value is on the 32-bit target.\<close>

definition message_limit :: "string \<Rightarrow> int" where
  "message_limit body =
     (case strstr body ''MessageLimit'' of
        None \<Rightarrow> ONVIF_EV_PULL_MAX
      | Some ml \<Rightarrow>
          (let v = (case strchr ml (CHR ''>'') of Some gt \<Rightarrow> fst (strtol (tl gt)) | None \<Rightarrow> 0)
           in if 0 < v \<and> v < ONVIF_EV_PULL_MAX then v else ONVIF_EV_PULL_MAX))"

text \<open>The loop: \<open>k\<close> is \<open>limit - delivered\<close>, \<open>off\<close> is the length of what is in the buffer.  The result
  has the buffer, the ring and the flag \<open>truncated\<close>.\<close>

fun pull_loop :: "nat \<Rightarrow> onvif_c_event_ring \<Rightarrow> string \<Rightarrow> string \<times> onvif_c_event_ring \<times> bool" where
  "pull_loop 0 ring buf = (buf, ring, False)"
| "pull_loop (Suc k) ring buf =
     (case ring_pop ring of
        None \<Rightarrow> (buf, ring, False)
      | Some (e, ring') \<Rightarrow>
          (let ts = iso8601 (ev_utc e) 24;
               room = ONVIF_EV_RESP_MAX - length buf;
               (w, frag) = onvif_xml_pull_event room ts (ev_active e) (unat (ev_score e))
           in if w \<le> 0 \<or> int room \<le> w then (buf @ frag, ring', True)
              else pull_loop k ring' (buf @ frag)))"

definition handle_pull_messages :: "env \<Rightarrow> string \<Rightarrow> ev_state \<Rightarrow> svc \<times> ev_state" where
  "handle_pull_messages env body s =
     (let limit = message_limit body;
          now = env_now env;
          now_s = iso8601 now 24
      in if \<not> env_mem_resp env then (ev_fault env ''ter:ActionNotSupported'' ''oom'', s)
         else (let (off, resp) = onvif_xml_pull_open ONVIF_EV_RESP_MAX;
                   truncated = (off \<le> 0 \<or> int ONVIF_EV_RESP_MAX \<le> off);
                   (alive, s1) = sub_alive now s
               in if \<not> alive then
                    (ev_fault env ''ter:SubscriptionReferenceDereferenced'' ''no active subscription (expired)'', s1)
                  else (let s2 = s1\<lparr>sub_last_pull := now\<rparr>;
                            term_s = iso8601 (sub_termination s2) 24;
                            (resp, ring, truncated) =
                              (if truncated then (resp, ev_ring s2, True)
                               else pull_loop (nat limit) (ev_ring s2) resp);
                            s3 = s2\<lparr>ev_ring := ring\<rparr>
                        in if truncated then (ev_fault env ''ter:ActionNotSupported'' ''response overflow'', s3)
                           else (let room = ONVIF_EV_RESP_MAX - length resp;
                                     (wc, tail) = onvif_xml_pull_close room now_s term_s
                                 in if wc \<le> 0 \<or> int room \<le> wc
                                    then (ev_fault env ''ter:ActionNotSupported'' ''response overflow'', s3)
                                    else (ev_send env (resp @ tail), s3)))))"

definition handle_renew :: "env \<Rightarrow> ev_state \<Rightarrow> svc \<times> ev_state" where
  "handle_renew env s =
     (let now = env_now env; (alive, s1) = sub_alive now s
      in if \<not> alive then
           (ev_fault env ''ter:SubscriptionReferenceDereferenced'' ''no active subscription (expired)'', s1)
         else (let s2 = s1\<lparr>sub_termination := now + SUB_LIFETIME_S\<rparr>;
                   (len, resp) = onvif_xml_renew_response 512 (iso8601 (now + SUB_LIFETIME_S) 24)
               in (if len \<le> 0 \<or> 512 \<le> len then (ESP_FAIL, []) else ev_send env resp, s2)))"

definition handle_unsubscribe :: "env \<Rightarrow> ev_state \<Rightarrow> svc \<times> ev_state" where
  "handle_unsubscribe env s = (ev_send env onvif_xml_unsubscribe_response, s\<lparr>sub_valid := False\<rparr>)"


section \<open>HTTP handler\<close>

definition dispatch_events :: "env \<Rightarrow> config \<Rightarrow> string \<Rightarrow> ev_state \<Rightarrow> svc \<times> ev_state" where
  "dispatch_events env cfg body s =
     (if contains body ''CreatePullPointSubscription'' then handle_create_pull_point env cfg s
      else if contains body ''PullMessages'' then handle_pull_messages env body s
      else if contains body ''Renew'' then handle_renew env s
      else if contains body ''Unsubscribe'' then handle_unsubscribe env s
      else if contains body ''GetEventProperties'' then (ev_resp env onvif_xml_event_properties, s)
      else if contains body ''GetServiceCapabilities'' then (ev_resp env onvif_xml_events_service_capabilities, s)
      else if contains body ''SetSynchronizationPoint'' then
        (after (keyframe_effect cfg) (ev_resp env onvif_xml_events_sync_point_ack), s)
      else (ev_fault env ''ter:ActionNotSupported'' ''Action not supported'', s))"

definition events_service_handler ::
  "env \<Rightarrow> config \<Rightarrow> nonce_cache \<Rightarrow> request \<Rightarrow> ev_state \<Rightarrow> svc \<times> nonce_cache \<times> ev_state" where
  "events_service_handler env cfg cache req s =
     (case ev_read_body req of
        None \<Rightarrow> (ev_fault env ''ter:ActionNotSupported'' ''empty/oversized body'', cache, s)
      | Some body \<Rightarrow>
          (let (ok, cache', es) = onvif_c_auth_gate env cfg cache (Some body) in
           if \<not> ok then ((ESP_OK, es), cache', s)
           else (let (r, s') = dispatch_events env cfg body s in (after es r, cache', s'))))"


section \<open>Producer, diagnostics, registration\<close>

text \<open>\<open>lock\<close>: whether the try-lock succeeds.\<close>

definition onvif_c_motion :: "config \<Rightarrow> int \<Rightarrow> bool \<Rightarrow> bool \<Rightarrow> byte \<Rightarrow> ev_state \<Rightarrow> ev_state" where
  "onvif_c_motion cfg now lock active score s =
     (if \<not> ev_mtx s then s
      else if (case cfg_events_enabled cfg of Some b \<Rightarrow> \<not> b | None \<Rightarrow> False) then s
      else if \<not> lock then s
      else if sub_valid s
      then s\<lparr>ev_ring := ring_push \<lparr>ev_active = active, ev_score = score, ev_utc = now\<rparr> (ev_ring s)\<rparr>
      else s)"

definition onvif_c_events_subscribed :: "ev_state \<Rightarrow> bool" where
  "onvif_c_events_subscribed s \<longleftrightarrow> ev_mtx s \<and> sub_valid s"

text \<open>\<open>mem\<close>: whether the mutex can be created; \<open>reg\<close>: the result of \<open>httpd_register_uri_handler\<close> per URI.\<close>

definition onvif_c_events_register ::
  "bool \<Rightarrow> bool \<Rightarrow> (string \<Rightarrow> esp_err) \<Rightarrow> ev_state \<Rightarrow> esp_err \<times> string list \<times> ev_state" where
  "onvif_c_events_register server mem reg s =
     (if \<not> server then (ESP_ERR_INVALID_ARG, [], s)
      else if \<not> ev_mtx s \<and> \<not> mem then (ESP_ERR_NO_MEM, [], s)
      else (let s' = s\<lparr>ev_mtx := True\<rparr>; ret = reg ''/onvif/events_service'' in
            if ret \<noteq> ESP_OK \<and> ret \<noteq> ESP_ERR_HTTPD_HANDLER_EXISTS then (ret, [], s')
            else (ESP_OK, [''/onvif/events_service''], s')))"


section \<open>Time stamps in messages\<close>

lemma iso8601_short: "length (iso8601 t 24) < 24"
  by (simp add: iso8601_def Let_def)

definition plain_char :: "char \<Rightarrow> bool" where
  "plain_char c \<longleftrightarrow> c \<noteq> CHR ''<'' \<and> c \<noteq> CHR 0x22"

lemma show_nat_plain [simp]: "list_all plain_char (show_nat n)"
  using show_text_ok(1) [of n] show_no_quote(1) [of n] by (auto simp: list_all_iff plain_char_def text_ok_def)

lemma show_int_plain [simp]: "list_all plain_char (show_int i)"
  using show_text_ok(2) [of i] show_no_quote(2) [of i] by (auto simp: list_all_iff plain_char_def text_ok_def)

lemma zero_pad_plain [simp]: "list_all plain_char (zero_pad w s) \<longleftrightarrow> list_all plain_char s"
proof -
  have "list_all plain_char (replicate k (CHR ''0''))" for k by (induction k) (simp_all add: plain_char_def)
  then show ?thesis by (simp add: zero_pad_def)
qed

lemma iso8601_plain: "list_all plain_char (iso8601 t 24)"
  by (simp add: iso8601_def Let_def iso8601_text_def plain_char_def)

lemma iso8601_clean: "text_ok (iso8601 t 24)" "CHR 0x22 \<notin> set (iso8601 t 24)"
  using iso8601_plain [of t] by (auto simp: list_all_iff plain_char_def text_ok_def)

section \<open>The pull loop delivers\<close>

definition event_triple :: "onvif_c_event \<Rightarrow> string \<times> bool \<times> nat" where
  "event_triple e = (iso8601 (ev_utc e) 24, ev_active e, unat (ev_score e))"

definition event_text :: "onvif_c_event \<Rightarrow> string" where
  "event_text e = pull_event_text (iso8601 (ev_utc e) 24) (ev_active e) (unat (ev_score e))"

lemma score_length: "length (show_nat (unat (b :: byte))) \<le> 3"
  using show_nat_length [of "unat b" 3] unsigned_less [of b, where ?'a = nat] by simp

lemma event_text_length: "length (event_text e) \<le> 440"
  using iso8601_short [of "ev_utc e"] score_length [of "ev_score e"]
  by (simp add: event_text_def pull_event_length)

lemma event_text_pos: "event_text e \<noteq> []"
  by (simp add: event_text_def pull_event_text_def)

lemma written:
  assumes "t \<noteq> []" and "length t < room"
  shows "(int (length t) \<le> 0 \<or> int room \<le> int (length t)) = False"
  using assms by simp

text \<open>While the buffer has room for as many events as may still come, the loop delivers the oldest
  ones, in order, and takes exactly those off the queue.\<close>

lemma pull_loop_delivers:
  assumes "ring_inv r" and "length buf + 440 * k < 4096"
  shows "\<exists>r'. pull_loop k r buf = (buf @ concat (map event_text (take k (ring_abs r))), r', False) \<and>
    ring_abs r' = drop k (ring_abs r) \<and> ring_inv r'"
  using assms
proof (induction k arbitrary: r buf)
  case 0
  then show ?case by simp
next
  case (Suc k)
  show ?case
  proof (cases rule: rq.pop_cases [OF Suc.prems(1)])
    case 1
    then show ?thesis using Suc.prems(1) by simp
  next
    case (2 e r')
    let ?room = "ONVIF_EV_RESP_MAX - length buf"
    have fits: "length (event_text e) < ?room"
      using Suc.prems(2) event_text_length [of e] by (simp add: ONVIF_EV_RESP_MAX_def)
    then have built: "onvif_xml_pull_event ?room (iso8601 (ev_utc e) 24) (ev_active e) (unat (ev_score e)) =
        (int (length (event_text e)), event_text e)"
      by (simp add: onvif_xml_pull_event_def event_text_def snprintf_fits)
    have "pull_loop (Suc k) r buf = pull_loop k r' (buf @ event_text e)"
      unfolding pull_loop.simps 2(1) option.case prod.case Let_def built written [OF event_text_pos fits] if_False
      by (rule refl)
    moreover have "length (buf @ event_text e) + 440 * k < 4096"
      using Suc.prems(2) event_text_length [of e] by simp
    from Suc.IH [OF 2(3) this] obtain r'' where
      "pull_loop k r' (buf @ event_text e) = ((buf @ event_text e) @ concat (map event_text (take k (ring_abs r'))), r'', False)"
      "ring_abs r'' = drop k (ring_abs r')" "ring_inv r''" by blast
    ultimately show ?thesis by (simp add: 2(2))
  qed
qed

lemma message_limit_range: "0 < message_limit body \<and> message_limit body \<le> 6"
  by (simp add: message_limit_def ONVIF_EV_PULL_MAX_def Let_def split: option.split)

text \<open>The whole response.\<close>

definition pull_reply :: "onvif_c_event list \<Rightarrow> int \<Rightarrow> int \<Rightarrow> string" where
  "pull_reply es now termination =
     render_doc ''UTF-8'' (pull_messages_doc (map event_triple es) (iso8601 now 24) (iso8601 termination 24))"

lemma pull_reply_parts:
  "pull_reply es now t = pull_open_text @ concat (map event_text es) @ pull_close_text (iso8601 now 24) (iso8601 t 24)"
proof -
  have "(\<lambda>(utc, active, score). pull_event_text utc active score) \<circ> event_triple = event_text"
    by (simp add: fun_eq_iff event_triple_def event_text_def)
  then show ?thesis unfolding pull_reply_def pull_messages_render [symmetric] map_map by simp
qed

lemma pull_reply_reads:
  "read_doc (pull_reply es now t) =
     Some (pull_messages_doc (map event_triple es) (iso8601 now 24) (iso8601 t 24))"
  unfolding pull_reply_def
  by (intro read_render_doc pull_messages_ok iso8601_clean)
    (auto simp: list_all_iff event_triple_def iso8601_clean)

lemma pull_open_eq: "onvif_xml_pull_open ONVIF_EV_RESP_MAX = (int (length pull_open_text), pull_open_text)"
  by (simp add: onvif_xml_pull_open_def snprintf_fits pull_open_length ONVIF_EV_RESP_MAX_def)

lemma handle_pull_alive:
  assumes "ring_inv (ev_ring s)" and "fst (sub_alive (env_now env) s)" and "env_mem_resp env"
  shows "\<exists>ring. handle_pull_messages env body s =
      (ev_send env (pull_reply (take (nat (message_limit body)) (ring_abs (ev_ring s))) (env_now env) (sub_termination s)),
       s\<lparr>sub_last_pull := env_now env, ev_ring := ring\<rparr>) \<and>
    ring_abs ring = drop (nat (message_limit body)) (ring_abs (ev_ring s)) \<and> ring_inv ring"
proof -
  let ?k = "nat (message_limit body)" and ?now = "env_now env"
  have k: "?k \<le> 6" using message_limit_range [of body] by linarith
  have s: "sub_alive ?now s = (True, s)"
    using assms(2) by (auto simp: sub_alive_def split: if_splits)
  have o: "0 < length pull_open_text" "length pull_open_text < 4096" by (simp_all add: pull_open_length)
  have "length pull_open_text + 440 * ?k < 4096" using k by (simp add: pull_open_length)
  from pull_loop_delivers [OF assms(1) this] obtain ring where
    l: "pull_loop ?k (ev_ring s) pull_open_text =
        (pull_open_text @ concat (map event_text (take ?k (ring_abs (ev_ring s)))), ring, False)"
      "ring_abs ring = drop ?k (ring_abs (ev_ring s))" "ring_inv ring" by blast
  let ?buf = "pull_open_text @ concat (map event_text (take ?k (ring_abs (ev_ring s))))"
  let ?tail = "pull_close_text (iso8601 ?now 24) (iso8601 (sub_termination s) 24)"
  have "length (concat (map event_text es)) \<le> 440 * length es" for es
    by (induction es) (use event_text_length in \<open>auto simp: add_mono\<close>)
  from this [of "take ?k (ring_abs (ev_ring s))"] k
  have "length ?buf \<le> length pull_open_text + 2640" by simp
  then have fits: "length ?tail < ONVIF_EV_RESP_MAX - length ?buf"
    using iso8601_short [of ?now] iso8601_short [of "sub_termination s"]
    by (simp add: pull_open_length pull_close_length ONVIF_EV_RESP_MAX_def)
  then have c: "onvif_xml_pull_close (ONVIF_EV_RESP_MAX - length ?buf) (iso8601 ?now 24) (iso8601 (sub_termination s) 24) =
      (int (length ?tail), ?tail)"
    by (simp add: onvif_xml_pull_close_def snprintf_fits)
  have t: "?tail \<noteq> []" by (simp add: pull_close_text_def)
  have "pull_open_text \<noteq> []" "length pull_open_text < ONVIF_EV_RESP_MAX"
    using o by (auto simp: ONVIF_EV_RESP_MAX_def)
  note opened = this(1) this(2) [folded not_le]
  have "handle_pull_messages env body s =
      (ev_send env (?buf @ ?tail), s\<lparr>sub_last_pull := ?now, ev_ring := ring\<rparr>)"
    using assms(3)
    by (simp add: handle_pull_messages_def Let_def pull_open_eq s l(1) opened c t fits [folded not_le]
        del: length_append of_nat_diff of_nat_diff_if not_le)
  with l(2,3) show ?thesis unfolding pull_reply_parts by (metis append_assoc)
qed

end
