(* ===== verification/Timed_Refinement.thy ===== *)
theory Timed_Refinement
  imports Main
begin

text \<open>
  The interface between a service that keeps state over time and its specification.  Both are
  stepped by operations at times; the specification's state may also change by time alone
  (\<open>tick\<close>), while the service's state waits for the next operation.
\<close>

primrec run :: "(int \<Rightarrow> 'op \<Rightarrow> 's \<Rightarrow> 'r \<times> 's) \<Rightarrow> (int \<times> 'op) list \<Rightarrow> 's \<Rightarrow> (int \<times> 'r) list \<times> 's" where
  "run step [] s = ([], s)"
| "run step (o1 # ops) s =
     (let (r, s') = step (fst o1) (snd o1) s; (rs, s'') = run step ops s' in ((fst o1, r) # rs, s''))"

text \<open>The clock does not go back during the sequence, which ends at the time \<open>run_end\<close>.\<close>

definition run_sorted :: "int \<Rightarrow> (int \<times> 'op) list \<Rightarrow> bool" where
  "run_sorted t ops \<longleftrightarrow> sorted (t # map fst ops)"

definition run_end :: "int \<Rightarrow> (int \<times> 'op) list \<Rightarrow> int" where
  "run_end t ops = last (t # map fst ops)"

locale timed_refinement =
  fixes step :: "int \<Rightarrow> 'op \<Rightarrow> 's \<Rightarrow> 'r \<times> 's"
    and spec :: "int \<Rightarrow> 'op \<Rightarrow> 'v \<Rightarrow> 'a \<times> 'v"
    and inv :: "'s \<Rightarrow> bool"
    and view :: "int \<Rightarrow> 's \<Rightarrow> 'v"
    and tick :: "int \<Rightarrow> 'v \<Rightarrow> 'v"
    and answer :: "int \<Rightarrow> 'a \<Rightarrow> 'r"
  assumes view_tick: "t \<le> t' \<Longrightarrow> view t' s = tick t' (view t s)"
    and step_refines: "inv s \<Longrightarrow> spec t op (view t s) = (a, v) \<Longrightarrow>
      \<exists>s'. step t op s = (answer t a, s') \<and> view t s' = v \<and> inv s'"
begin

lemma run_refines:
  assumes "inv s" and "run_sorted t ops"
    and "run (\<lambda>t op v. spec t op (tick t v)) ops (view t s) = (as, v)"
  shows "\<exists>s'. run step ops s = (map (\<lambda>(t, a). (t, answer t a)) as, s') \<and> view (run_end t ops) s' = v \<and> inv s'"
  using assms
proof (induction ops arbitrary: t s as)
  case Nil
  then show ?case by (simp add: run_end_def)
next
  case (Cons p ops)
  obtain t1 op where p: "p = (t1, op)" by fastforce
  have le: "t \<le> t1" and srt: "run_sorted t1 ops" using Cons.prems(2) by (auto simp: run_sorted_def p)
  obtain a v1 where 1: "spec t1 op (view t1 s) = (a, v1)" by fastforce
  from step_refines [OF Cons.prems(1) 1] obtain s1 where
    s1: "step t1 op s = (answer t1 a, s1)" "view t1 s1 = v1" "inv s1" by blast
  obtain as' v' where r: "run (\<lambda>t op v. spec t op (tick t v)) ops v1 = (as', v')" by fastforce
  have "as = (t1, a) # as'" "v' = v"
    using Cons.prems(3) view_tick [OF le, of s, symmetric] 1 r by (simp_all add: p)
  with Cons.IH [OF s1(3) srt] r s1 show ?case by (auto simp: p run_end_def)
qed

end

end
