(* ===== verification/Subscription.thy ===== *)
theory Subscription
  imports Events Timed_Refinement
begin

text \<open>
  What \<open>esp_idf/onvif_c_events.c\<close> promises: the file's state is one Pull-Point subscription or none.
  The specification is the subscription itself (when it ends, when it was last pulled, what is
  queued), stepped by the operations; expiry is a matter of the clock only.  The code, which keeps a
  flag and finds out about expiry later, refines it over any sequence of operations.
\<close>

section \<open>The specification\<close>

record subscription =
  ends :: int
  pulled :: int
  queue :: "onvif_c_event list"

datatype sub_op = Create | Pull string | Renew | Unsubscribe | Motion bool byte bool

datatype answer = Created int | Messages "onvif_c_event list" int | Renewed int | Closed | Unknown | Silent

definition sub_tick :: "int \<Rightarrow> subscription option \<Rightarrow> subscription option" where
  "sub_tick now v =
     (case v of None \<Rightarrow> None | Some b \<Rightarrow> if now \<le> ends b \<and> now - pulled b \<le> 120 then Some b else None)"

definition latest :: "nat \<Rightarrow> 'a list \<Rightarrow> 'a list" where
  "latest n xs = drop (length xs - n) xs"

fun spec_op :: "bool \<Rightarrow> int \<Rightarrow> sub_op \<Rightarrow> subscription option \<Rightarrow> answer \<times> subscription option" where
  "spec_op enabled now Create v =
     (Created (now + 3600), Some \<lparr>ends = now + 3600, pulled = now, queue = []\<rparr>)"
| "spec_op enabled now (Pull body) None = (Unknown, None)"
| "spec_op enabled now (Pull body) (Some b) =
     (let k = nat (message_limit body) in
       (Messages (take k (queue b)) (ends b), Some (b\<lparr>pulled := now, queue := drop k (queue b)\<rparr>)))"
| "spec_op enabled now Renew None = (Unknown, None)"
| "spec_op enabled now Renew (Some b) = (Renewed (now + 3600), Some (b\<lparr>ends := now + 3600\<rparr>))"
| "spec_op enabled now Unsubscribe v = (Closed, None)"
| "spec_op enabled now (Motion active score lock) v =
     (Silent, map_option (\<lambda>b. if enabled \<and> lock
        then b\<lparr>queue := latest 12 (queue b @ [\<lparr>ev_active = active, ev_score = score, ev_utc = now\<rparr>])\<rparr> else b) v)"

text \<open>One step of the specification: first time passes, then the operation happens.\<close>

abbreviation spec_ops where
  "spec_ops enabled \<equiv> run (\<lambda>t op v. spec_op enabled t op (sub_tick t v))"


section \<open>The code, operation by operation\<close>

fun run_op :: "env \<Rightarrow> config \<Rightarrow> sub_op \<Rightarrow> ev_state \<Rightarrow> svc \<times> ev_state" where
  "run_op env cfg Create s = handle_create_pull_point env cfg s"
| "run_op env cfg (Pull body) s = handle_pull_messages env body s"
| "run_op env cfg Renew s = handle_renew env s"
| "run_op env cfg Unsubscribe s = handle_unsubscribe env s"
| "run_op env cfg (Motion active score lock) s = ((ESP_OK, []), onvif_c_motion cfg (env_now env) lock active score s)"

abbreviation run_ops where
  "run_ops env cfg \<equiv> run (\<lambda>t. run_op (env\<lparr>env_now := t\<rparr>) cfg)"

text \<open>The subscription as a client sees it at a time, and the response that carries an answer.\<close>

definition sub_view :: "int \<Rightarrow> ev_state \<Rightarrow> subscription option" where
  "sub_view now s =
     (if sub_valid s
      then sub_tick now (Some \<lparr>ends = sub_termination s, pulled = sub_last_pull s, queue = ring_abs (ev_ring s)\<rparr>)
      else None)"

definition no_subscription :: xml where
  "no_subscription = events_fault_doc ''ter:SubscriptionReferenceDereferenced'' ''no active subscription (expired)''"

fun answer_text :: "config \<Rightarrow> int \<Rightarrow> answer \<Rightarrow> string" where
  "answer_text cfg now (Created t) = render_doc ''UTF-8''
     (create_pull_point_response_doc (onvif_c_cfg_ip cfg) (cfg_port cfg) (iso8601 now 24) (iso8601 t 24))"
| "answer_text cfg now (Messages es t) = pull_reply es now t"
| "answer_text cfg now (Renewed t) = render_doc ''UTF-8'' (renew_response_doc (iso8601 t 24))"
| "answer_text cfg now Closed = render_doc ''UTF-8'' unsubscribe_response_doc"
| "answer_text cfg now Unknown = render_doc ''UTF-8'' no_subscription"
| "answer_text cfg now Silent = []"

definition answer_response :: "env \<Rightarrow> config \<Rightarrow> int \<Rightarrow> answer \<Rightarrow> svc" where
  "answer_response env cfg now a = (if a = Silent then (ESP_OK, []) else ev_send env (answer_text cfg now a))"


section \<open>Each operation refines its specification\<close>

lemma sub_alive_view:
  "sub_alive now s = (sub_view now s \<noteq> None, s\<lparr>sub_valid := (sub_view now s \<noteq> None)\<rparr>)"
  by (auto simp: sub_alive_def sub_view_def sub_tick_def SUB_IDLE_TIMEOUT_S_def)

lemma view_Some:
  "sub_view now s = Some b \<longleftrightarrow> sub_valid s \<and> now \<le> sub_termination s \<and> now - sub_last_pull s \<le> 120 \<and>
     b = \<lparr>ends = sub_termination s, pulled = sub_last_pull s, queue = ring_abs (ev_ring s)\<rparr>"
  by (auto simp: sub_view_def sub_tick_def)

lemma view_invalid [simp]: "\<not> sub_valid s \<Longrightarrow> sub_view now s = None"
  by (simp add: sub_view_def)

lemma view_later: "t \<le> t' \<Longrightarrow> sub_view t' s = sub_tick t' (sub_view t s)"
  by (auto simp: sub_view_def sub_tick_def)

lemma ev_fault_eq:
  assumes "length subcode + length reason \<le> 400"
  shows "ev_fault env subcode reason = ev_send env (render_doc ''UTF-8'' (events_fault_doc subcode reason))"
  using events_fault_renders [of 768 subcode reason] assms render_doc_pos [of "''UTF-8''" "events_fault_doc subcode reason"]
  by (simp add: ev_fault_def renders_def events_fault_length)

lemmas ev_fault_eqs = ev_fault_eq [of "''ter:SubscriptionReferenceDereferenced''" "''no active subscription (expired)''"]
  ev_fault_eq [of "''ter:ActionNotSupported''" "''response overflow''"]
  ev_fault_eq [of "''ter:ActionNotSupported''" "''oom''"]
  ev_fault_eq [of "''ter:ActionNotSupported''" "''empty/oversized body''"]
  ev_fault_eq [of "''ter:ActionNotSupported''" "''Action not supported''"]

lemma port_length: "length (show_nat (cfg_port cfg)) \<le> 5"
  using show_nat_length [of "cfg_port cfg" 5] unsigned_less [of "cfg_http_port cfg", where ?'a = nat]
  by (simp add: cfg_port_def)

lemma refine_create:
  assumes "length (onvif_c_cfg_ip cfg) \<le> 400" and "ring_inv (ev_ring s)"
  shows "handle_create_pull_point env cfg s =
      (ev_send env (answer_text cfg (env_now env) (Created (env_now env + 3600))),
       s\<lparr>sub_valid := True, sub_termination := env_now env + 3600, sub_last_pull := env_now env,
         ev_ring := ring_reset (ev_ring s)\<rparr>)"
proof -
  let ?d = "create_pull_point_response_doc (onvif_c_cfg_ip cfg) (cfg_port cfg) (iso8601 (env_now env) 24)
    (iso8601 (env_now env + 3600) 24)"
  have "length (render_doc ''UTF-8'' ?d) < 1024"
    using assms(1) port_length [of cfg] iso8601_short [of "env_now env"] iso8601_short [of "env_now env + 3600"]
    by (simp add: create_pull_point_response_length)
  then have "onvif_xml_create_pull_point_response 1024 (onvif_c_cfg_ip cfg) (cfg_port cfg)
      (iso8601 (env_now env) 24) (iso8601 (env_now env + 3600) 24) = (int (length (render_doc ''UTF-8'' ?d)), render_doc ''UTF-8'' ?d)"
    using create_pull_point_response_renders [of 1024] by (simp add: renders_def)
  with \<open>length (render_doc ''UTF-8'' ?d) < 1024\<close> show ?thesis
    using render_doc_pos [of "''UTF-8''" ?d] by (simp add: handle_create_pull_point_def Let_def SUB_LIFETIME_S_def)
qed

lemma refine_renew:
  "handle_renew env s =
     (if sub_view (env_now env) s = None
      then (ev_send env (answer_text cfg (env_now env) Unknown), s\<lparr>sub_valid := False\<rparr>)
      else (ev_send env (answer_text cfg (env_now env) (Renewed (env_now env + 3600))),
            s\<lparr>sub_valid := True, sub_termination := env_now env + 3600\<rparr>))"
proof -
  let ?d = "renew_response_doc (iso8601 (env_now env + 3600) 24)"
  have l: "length (render_doc ''UTF-8'' ?d) < 512"
    using iso8601_short [of "env_now env + 3600"] by (simp add: renew_response_length)
  then have "onvif_xml_renew_response 512 (iso8601 (env_now env + 3600) 24) =
      (int (length (render_doc ''UTF-8'' ?d)), render_doc ''UTF-8'' ?d)"
    using renew_response_renders [of 512] by (simp add: renders_def)
  with l show ?thesis
    using render_doc_pos [of "''UTF-8''" ?d]
    by (auto simp: handle_renew_def Let_def SUB_LIFETIME_S_def sub_alive_view ev_fault_eqs no_subscription_def)
qed

lemma refine_unsubscribe:
  "handle_unsubscribe env s = (ev_send env (answer_text cfg now Closed), s\<lparr>sub_valid := False\<rparr>)"
  by (simp add: handle_unsubscribe_def unsubscribe_response_render)

lemma refine_pull_dead:
  assumes "sub_view (env_now env) s = None" and "env_mem_resp env"
  shows "handle_pull_messages env body s =
    (ev_send env (answer_text cfg (env_now env) Unknown), s\<lparr>sub_valid := False\<rparr>)"
  using assms
  by (simp add: handle_pull_messages_def Let_def pull_open_eq sub_alive_view ev_fault_eqs no_subscription_def)

lemma push_abs: "ring_inv r \<Longrightarrow> ring_abs (ring_push e r) = latest 12 (ring_abs r @ [e])"
  using ring_inv_def [of r] by (auto simp: rq.abs_push latest_def ONVIF_C_EVENT_QUEUE_MAX_def Suc_diff_le drop_Suc)

lemma refine_motion:
  assumes "ring_inv (ev_ring s)" and "ev_mtx s"
  shows "sub_view now (onvif_c_motion cfg now lock active score s) =
      snd (spec_op (cfg_events_enabled cfg \<noteq> Some False) now (Motion active score lock) (sub_view now s)) \<and>
    ring_inv (ev_ring (onvif_c_motion cfg now lock active score s)) \<and>
    ev_mtx (onvif_c_motion cfg now lock active score s)"
  using assms push_abs [OF assms(1)] rq.inv_push [OF assms(1)]
  by (auto simp: onvif_c_motion_def sub_view_def sub_tick_def split: option.split)

definition sub_inv :: "env \<Rightarrow> config \<Rightarrow> ev_state \<Rightarrow> bool" where
  "sub_inv env cfg s \<longleftrightarrow> ring_inv (ev_ring s) \<and> ev_mtx s \<and> env_mem_resp env \<and> length (onvif_c_cfg_ip cfg) \<le> 400"

lemma run_op_refines:
  assumes inv: "sub_inv env cfg s" and now: "env_now env = now"
    and spec: "spec_op (cfg_events_enabled cfg \<noteq> Some False) now op (sub_view now s) = (a, v)"
  shows "\<exists>s'. run_op env cfg op s = (answer_response env cfg now a, s') \<and> sub_view now s' = v \<and> sub_inv env cfg s'"
proof (cases op)
  case Create
  then show ?thesis
    using inv spec refine_create [of cfg s env] rq.inv_reset [of "ev_ring s"] rq.abs_reset [of "ev_ring s"]
    by (auto simp: sub_inv_def answer_response_def now view_Some)
next
  case (Pull body)
  show ?thesis
  proof (cases "sub_view now s")
    case None
    then show ?thesis
      using inv spec Pull refine_pull_dead [of env s body cfg]
      by (auto simp: sub_inv_def answer_response_def now)
  next
    case (Some b)
    then have b: "sub_valid s" "now \<le> sub_termination s" "now - sub_last_pull s \<le> 120"
      "b = \<lparr>ends = sub_termination s, pulled = sub_last_pull s, queue = ring_abs (ev_ring s)\<rparr>"
      by (simp_all add: view_Some)
    then have "fst (sub_alive (env_now env) s)" by (simp add: sub_alive_view now Some)
    with inv handle_pull_alive [of s env body] obtain ring where
      "handle_pull_messages env body s =
        (ev_send env (pull_reply (take (nat (message_limit body)) (ring_abs (ev_ring s))) now (sub_termination s)),
         s\<lparr>sub_last_pull := now, ev_ring := ring\<rparr>)"
      "ring_abs ring = drop (nat (message_limit body)) (ring_abs (ev_ring s))" "ring_inv ring"
      by (auto simp: sub_inv_def now)
    then show ?thesis
      using inv spec Pull Some b by (auto simp: sub_inv_def answer_response_def view_Some Let_def)
  qed
next
  case Renew
  then show ?thesis
    using inv spec refine_renew [of env s cfg] 
    by (cases "sub_view now s") (auto simp: sub_inv_def answer_response_def now view_Some)
next
  case Unsubscribe
  then show ?thesis
    using inv spec refine_unsubscribe [of env s cfg now] by (auto simp: sub_inv_def answer_response_def)
next
  case (Motion active score lock)
  then show ?thesis
    using inv spec refine_motion [of s now cfg lock active score] by (auto simp: sub_inv_def answer_response_def now)
qed


lemma ev_send_now [simp]: "ev_send (env\<lparr>env_now := t\<rparr>) = ev_send env"
  by (simp add: fun_eq_iff ev_send_def)

lemma answer_response_now [simp]: "answer_response (env\<lparr>env_now := t\<rparr>) = answer_response env"
  by (simp add: fun_eq_iff answer_response_def)

interpretation subs: timed_refinement "\<lambda>t. run_op (env\<lparr>env_now := t\<rparr>) cfg"
    "spec_op (cfg_events_enabled cfg \<noteq> Some False)" "sub_inv env cfg" sub_view sub_tick
    "answer_response env cfg" for env cfg
proof unfold_locales
  fix t t' :: int and s assume "t \<le> t'" then show "sub_view t' s = sub_tick t' (sub_view t s)" by (rule view_later)
next
  fix s t op a v
  assume "sub_inv env cfg s"
    and spec: "spec_op (cfg_events_enabled cfg \<noteq> Some False) t op (sub_view t s) = (a, v)"
  then have "sub_inv (env\<lparr>env_now := t\<rparr>) cfg s" by (simp add: sub_inv_def)
  from run_op_refines [OF this _ spec]
  show "\<exists>s'. run_op (env\<lparr>env_now := t\<rparr>) cfg op s = (answer_response env cfg t a, s') \<and>
      sub_view t s' = v \<and> sub_inv env cfg s'"
    by (simp add: sub_inv_def)
qed

section \<open>Reachable states\<close>

lemma pull_loop_inv: "ring_inv r \<Longrightarrow> ring_inv (fst (snd (pull_loop k r buf)))"
proof (induction k arbitrary: r buf)
  case (Suc k)
  show ?case
  proof (cases rule: rq.pop_cases [OF Suc.prems])
    case 1
    then show ?thesis using Suc.prems by simp
  next
    case (2 e r')
    then show ?thesis using Suc.IH [OF 2(3)] by (simp add: Let_def split: prod.split)
  qed
qed simp

text \<open>What \<open>PullMessages\<close> can do to the state, on every branch.\<close>

lemma pull_state:
  assumes "ring_inv (ev_ring s)"
  obtains "snd (handle_pull_messages env body s) = s"
    | "snd (handle_pull_messages env body s) = s\<lparr>sub_valid := False\<rparr>"
    | ring where "sub_view (env_now env) s \<noteq> None" "ring_inv ring"
        "snd (handle_pull_messages env body s) = s\<lparr>sub_last_pull := env_now env, ev_ring := ring\<rparr>"
proof -
  consider "\<not> env_mem_resp env" | "sub_view (env_now env) s = None" "env_mem_resp env"
    | "sub_view (env_now env) s \<noteq> None" "env_mem_resp env" by blast
  then show ?thesis
  proof cases
    case 1
    then show ?thesis by (intro that(1)) (simp add: handle_pull_messages_def Let_def)
  next
    case 2
    then show ?thesis using refine_pull_dead by (intro that(2)) fastforce
  next
    case 3
    then have "fst (sub_alive (env_now env) s)" by (simp add: sub_alive_view)
    from handle_pull_alive [OF assms this 3(2), of body] 3(1) show ?thesis by (auto intro: that(3))
  qed
qed

definition ev_ok :: "int \<Rightarrow> ev_state \<Rightarrow> bool" where
  "ev_ok t s \<longleftrightarrow> ring_inv (ev_ring s) \<and> ev_mtx s \<and>
     (sub_valid s \<longrightarrow> sub_last_pull s \<le> t \<and> sub_last_pull s \<le> sub_termination s \<and> sub_termination s \<le> t + 3600)"

lemma ev_ok_later: "ev_ok t s \<Longrightarrow> t \<le> t' \<Longrightarrow> ev_ok t' s"
  by (auto simp: ev_ok_def)

lemma ev_ok_dead: "ev_ok t s \<Longrightarrow> ev_ok t (s\<lparr>sub_valid := False\<rparr>)"
  by (simp add: ev_ok_def)

lemma create_ok: "ev_ok t s \<Longrightarrow> env_now env = t \<Longrightarrow> ev_ok t (snd (handle_create_pull_point env cfg s))"
  by (auto simp: handle_create_pull_point_def Let_def ev_ok_def SUB_LIFETIME_S_def rq.inv_reset split: prod.split)

lemma pull_ok: "ev_ok t s \<Longrightarrow> env_now env = t \<Longrightarrow> ev_ok t (snd (handle_pull_messages env body s))"
  using pull_state [of s env body] by (rule pull_state [of s env body]) (auto simp: ev_ok_def view_Some)

lemma renew_ok: "ev_ok t s \<Longrightarrow> env_now env = t \<Longrightarrow> ev_ok t (snd (handle_renew env s))"
  using refine_renew [of env s undefined] by (auto simp: ev_ok_def view_Some)

lemma motion_ok: "ev_ok t s \<Longrightarrow> ev_ok t (onvif_c_motion cfg now lock active score s)"
  by (auto simp: onvif_c_motion_def ev_ok_def rq.inv_push split: option.split)

lemma dispatch_ok: "ev_ok t s \<Longrightarrow> env_now env = t \<Longrightarrow> ev_ok t (snd (dispatch_events env cfg body s))"
  by (simp add: dispatch_events_def create_ok pull_ok renew_ok handle_unsubscribe_def ev_ok_dead)

lemma handler_ok:
  "ev_ok t s \<Longrightarrow> env_now env = t \<Longrightarrow> ev_ok t (snd (snd (events_service_handler env cfg cache req s)))"
  using dispatch_ok [of t s env cfg]
  by (auto simp: events_service_handler_def Let_def split: option.split prod.split)
    (metis snd_conv)

text \<open>The histories of the service: it is registered once, then requests and motions in the order of
  the clock.\<close>

inductive ev_reach :: "config \<Rightarrow> int \<Rightarrow> ev_state \<Rightarrow> bool" for cfg where
  registered: "ev_reach cfg t (snd (snd (onvif_c_events_register True True reg ev_zero)))"
| request: "ev_reach cfg t s \<Longrightarrow> t \<le> env_now env \<Longrightarrow>
    ev_reach cfg (env_now env) (snd (snd (events_service_handler env cfg cache req s)))"
| motion: "ev_reach cfg t s \<Longrightarrow> t \<le> now \<Longrightarrow>
    ev_reach cfg now (onvif_c_motion cfg now lock active score s)"

lemma ev_reach_ok: "ev_reach cfg t s \<Longrightarrow> ev_ok t s"
proof (induction rule: ev_reach.induct)
  case registered
  then show ?case by (simp add: onvif_c_events_register_def ev_zero_def ev_ok_def Let_def ring_inv_zero)
qed (auto intro: handler_ok motion_ok ev_ok_later)

lemma ev_ok_idle: "ev_ok t s \<Longrightarrow> t + 120 < now \<Longrightarrow> sub_view now s = None"
  by (auto simp: ev_ok_def sub_view_def sub_tick_def)


section \<open>Responses\<close>

definition ev_answered :: "svc \<Rightarrow> bool" where
  "ev_answered r \<longleftrightarrow> list_all send_in_bounds (snd r) \<and> length (filter is_send (snd r)) = 1"

lemma ev_answered_send [intro]: "xml \<noteq> [] \<Longrightarrow> ev_answered (ev_send env xml)"
  by (simp add: ev_send_def ev_answered_def)

lemma render_doc_ne: "render_doc enc d \<noteq> []"
  using render_doc_pos [of enc d] by auto

lemma answer_text_ne: "a \<noteq> Silent \<Longrightarrow> answer_text cfg now a \<noteq> []"
  by (cases a) (simp_all add: render_doc_ne pull_reply_def)

lemma ev_answered_response: "a \<noteq> Silent \<Longrightarrow> ev_answered (answer_response env cfg now a)"
  by (simp add: answer_response_def ev_answered_send answer_text_ne)

lemma ev_answered_resp:
  assumes "renders EV_RESP_MAX (build EV_RESP_MAX) (render_doc enc d)"
    and "length (render_doc enc d) < EV_RESP_MAX" and "env_mem_resp env"
  shows "ev_answered (ev_resp env build)"
  using assms render_doc_pos [of enc d] by (simp add: renders_def ev_resp_def ev_answered_def)

lemmas ev_static_lengths = event_properties_length events_service_capabilities_length events_sync_point_ack_length

lemma ev_answered_static:
  assumes "env_mem_resp env"
  shows "ev_answered (ev_resp env onvif_xml_event_properties)"
    and "ev_answered (ev_resp env onvif_xml_events_service_capabilities)"
    and "ev_answered (ev_resp env onvif_xml_events_sync_point_ack)"
  by (rule ev_answered_resp [OF _ _ assms], rule builders_render, simp add: ev_static_lengths EV_RESP_MAX_def)+

lemma ev_answered_after: "ev_answered r \<Longrightarrow> ev_answered (after (keyframe_effect cfg) r)"
  by (simp add: ev_answered_def after_def keyframe_effect_def)

lemma dispatch_answered:
  assumes "ring_inv (ev_ring s)" and "ev_mtx s" and "env_mem_resp env" and "length (onvif_c_cfg_ip cfg) \<le> 400"
  shows "ev_answered (fst (dispatch_events env cfg body s))"
proof -
  have inv: "sub_inv env cfg s" using assms by (simp add: sub_inv_def)
  have "ev_answered (fst (run_op env cfg op s))" if "\<And>a b c. op \<noteq> Motion a b c" for op
  proof -
    obtain a v where spec: "spec_op (cfg_events_enabled cfg \<noteq> Some False) (env_now env) op (sub_view (env_now env) s) = (a, v)"
      by fastforce
    then have "a \<noteq> Silent"
      using that by (cases op; cases "sub_view (env_now env) s") (auto simp: Let_def)
    with run_op_refines [OF inv refl spec] show ?thesis by (auto simp: ev_answered_response)
  qed
  from this [of Create] this [of "Pull body"] this [of Renew] this [of Unsubscribe]
  show ?thesis
    using assms(3) by (simp add: dispatch_events_def ev_answered_static ev_answered_after ev_fault_eqs
        ev_answered_send render_doc_ne)
qed

text \<open>Without memory, or with a configured address that does not fit, still nothing is sent beyond its text.\<close>

definition ev_bounded :: "svc \<Rightarrow> bool" where
  "ev_bounded r \<longleftrightarrow> list_all send_in_bounds (snd r) \<and> length (filter is_send (snd r)) \<le> 1"

lemma answered_bounded: "ev_answered r \<Longrightarrow> ev_bounded r"
  by (simp add: ev_answered_def ev_bounded_def)

lemma bounded_nothing [simp]: "ev_bounded (r, [])"
  by (simp add: ev_bounded_def)

lemma bounded_send: "xml \<noteq> [] \<Longrightarrow> ev_bounded (ev_send env xml)"
  by (simp add: answered_bounded ev_answered_send)

lemma bounded_static:
  "ev_bounded (ev_resp env onvif_xml_event_properties)"
  "ev_bounded (ev_resp env onvif_xml_events_service_capabilities)"
  "ev_bounded (after (keyframe_effect cfg) (ev_resp env onvif_xml_events_sync_point_ack))"
  using ev_answered_static [of env, THEN answered_bounded] ev_answered_after [of _ cfg, THEN answered_bounded]
    ev_answered_static(3) [of env]
  by (cases "env_mem_resp env"; simp add: ev_resp_def ev_bounded_def after_def keyframe_effect_def)+

lemma bounded_fault: "length subcode + length reason \<le> 400 \<Longrightarrow> ev_bounded (ev_fault env subcode reason)"
  by (simp add: ev_fault_eq bounded_send render_doc_ne)

lemma bounded_create: "ev_bounded (fst (handle_create_pull_point env cfg s))"
proof -
  let ?d = "create_pull_point_response_doc (onvif_c_cfg_ip cfg) (cfg_port cfg) (iso8601 (env_now env) 24)
    (iso8601 (env_now env + SUB_LIFETIME_S) 24)"
  obtain len buf where b: "onvif_xml_create_pull_point_response 1024 (onvif_c_cfg_ip cfg) (cfg_port cfg)
    (iso8601 (env_now env) 24) (iso8601 (env_now env + SUB_LIFETIME_S) 24) = (len, buf)" by fastforce
  then have "renders 1024 (len, buf) (render_doc ''UTF-8'' ?d)"
    using create_pull_point_response_renders [of 1024] by metis
  from renders_snd [OF this] have "buf \<noteq> []" if "len < 1024" using that render_doc_ne by simp
  then show ?thesis by (auto simp: handle_create_pull_point_def Let_def b bounded_fault bounded_send)
qed

lemma bounded_pull: "ev_bounded (fst (handle_pull_messages env body s))" if "ring_inv (ev_ring s)"
proof -
  show ?thesis
  proof (cases "env_mem_resp env")
    case False
    then show ?thesis by (simp add: handle_pull_messages_def Let_def bounded_fault)
  next
    case True
    then show ?thesis
      using handle_pull_alive [OF that _ True, of body] refine_pull_dead [of env s body cfg_minimal]
      by (cases "sub_view (env_now env) s")
        (auto simp: sub_alive_view bounded_send render_doc_ne pull_reply_def)
  qed
qed

lemma dispatch_bounded: "ring_inv (ev_ring s) \<Longrightarrow> ev_bounded (fst (dispatch_events env cfg body s))"
  using refine_renew [of env s cfg]
  by (simp add: dispatch_events_def bounded_create bounded_pull bounded_static bounded_fault
      refine_unsubscribe [of _ _ cfg 0] bounded_send render_doc_ne)


section \<open>Properties\<close>

text \<open>
  C5: The events service refines the abstract subscription: over any sequence of creations, pulls,
  renewals, unsubscriptions and motion reports at non-decreasing times, every response is the one
  the specification gives (the granted end, exactly the oldest queued events up to the limit, or the
  fault that there is no subscription), although the code finds out about expiry only when it is
  next used and keeps its queue in a ring.
\<close>

theorem events_refine_subscription:
  assumes "ring_inv (ev_ring s)" and "ev_mtx s" and "env_mem_resp env" and "length (onvif_c_cfg_ip cfg) \<le> 400"
    and "run_sorted t ops"
    and "spec_ops (cfg_events_enabled cfg \<noteq> Some False) ops (sub_view t s) = (as, v)"
  shows "\<exists>s'. run_ops env cfg ops s = (map (\<lambda>(t, a). (t, answer_response env cfg t a)) as, s') \<and>
    sub_view (run_end t ops) s' = v"
  using subs.run_refines [OF _ assms(5,6), of env] assms(1-4) by (auto simp: sub_inv_def)

definition ev_fresh :: ev_state where
  "ev_fresh = ev_zero\<lparr>ev_mtx := True\<rparr>"

lemma ev_fresh_ok: "ring_inv (ev_ring ev_fresh)" "ev_mtx ev_fresh" "sub_view t ev_fresh = None"
  by (simp_all add: ev_fresh_def ev_zero_def ring_inv_zero)

theorem events_refine_subscription_witness:
  "\<exists>s'. run_ops env_plain cfg_minimal
       [(1000, Create), (1001, Motion True 9 True), (1002, Pull ''<MessageLimit>5<''), (2000, Renew)] ev_fresh =
     ([(1000, ev_send env_plain (answer_text cfg_minimal 1000 (Created 4600))), (1001, (ESP_OK, [])),
       (1002, ev_send env_plain (pull_reply [\<lparr>ev_active = True, ev_score = 9, ev_utc = 1001\<rparr>] 1002 4600)),
       (2000, ev_send env_plain (answer_text cfg_minimal 2000 Unknown))], s')"
proof -
  let ?e = "\<lparr>ev_active = True, ev_score = 9, ev_utc = 1001\<rparr> :: onvif_c_event"
  have m: "message_limit ''<MessageLimit>5<'' = 5"
    by (simp add: message_limit_def ONVIF_EV_PULL_MAX_def strtol_def Let_def c_isspace_def
        scan_sign_def c_isdigit_def dec_val_def digit_val_def)
  have "\<exists>s'. run_ops env_plain cfg_minimal
       [(1000, Create), (1001, Motion True 9 True), (1002, Pull ''<MessageLimit>5<''), (2000, Renew)] ev_fresh =
     (map (\<lambda>(t, a). (t, answer_response env_plain cfg_minimal t a))
       [(1000, Created 4600), (1001, Silent), (1002, Messages [?e] 4600), (2000, Unknown)], s') \<and>
     sub_view (run_end 0 [(1000, Create), (1001, Motion True 9 True), (1002, Pull ''<MessageLimit>5<''), (2000, Renew)]) s' = None"
    by (rule events_refine_subscription)
      (simp_all add: ev_fresh_ok env_plain_def cfg_minimal_def onvif_c_cfg_ip_def run_sorted_def sub_tick_def latest_def m Let_def)
  then show ?thesis by (auto simp: answer_response_def)
qed

definition motion_event :: "int \<times> bool \<times> byte \<Rightarrow> onvif_c_event" where
  "motion_event m = \<lparr>ev_active = fst (snd m), ev_score = snd (snd m), ev_utc = fst m\<rparr>"

lemma motions_pushed:
  "ev_mtx s \<Longrightarrow> sub_valid s \<Longrightarrow> cfg_events_enabled cfg = Some True \<Longrightarrow>
   fold (\<lambda>(t, active, score). onvif_c_motion cfg t True active score) ms s =
     s\<lparr>ev_ring := fold ring_push (map motion_event ms) (ev_ring s)\<rparr>"
  by (induction ms arbitrary: s) (auto simp: onvif_c_motion_def motion_event_def)

lemma events_handler_open:
  assumes "ev_read_body req = Some b" and "fst (onvif_c_auth_gate env cfg cache (Some b))"
  shows "events_service_handler env cfg cache req s =
    (fst (dispatch_events env cfg b s), fst (snd (onvif_c_auth_gate env cfg cache (Some b))), snd (dispatch_events env cfg b s))"
  using assms
  by (cases rule: device.gate_cases [of env cfg cache "Some b"])
    (simp_all add: events_service_handler_def after_def case_prod_unfold Let_def)

text \<open>
  C13: Motion reaches the client, through the HTTP handlers: after a creation at \<open>t0\<close>, any motions
  (with the lock free and the runtime gate \<open>events_enabled\<close> returning true) and a pull at most 120
  seconds later, the response carries the oldest of the last twelve motions, up to the request's limit,
  in order, and reads as that document.  Both requests pass the authentication gate (no password is
  configured, or their tokens verify), memory is available, and the address has at most 400 characters.
\<close>

theorem motion_reaches_client:
  assumes "ring_inv (ev_ring s)" and "ev_mtx s" and "env_mem_resp env" and "length (onvif_c_cfg_ip cfg) \<le> 400"
    and "cfg_events_enabled cfg = Some True"
    and "ev_read_body req0 = Some b0" and "contains b0 ''CreatePullPointSubscription''"
    and "fst (onvif_c_auth_gate (env\<lparr>env_now := t0\<rparr>) cfg cache0 (Some b0))"
    and "ev_read_body req1 = Some b1" and "contains b1 ''PullMessages''"
    and "\<not> contains b1 ''CreatePullPointSubscription''"
    and "fst (onvif_c_auth_gate (env\<lparr>env_now := t1\<rparr>) cfg cache1 (Some b1))" and "t1 \<le> t0 + 120"
  shows "let s0 = snd (snd (events_service_handler (env\<lparr>env_now := t0\<rparr>) cfg cache0 req0 s));
      s1 = fold (\<lambda>(t, active, score). onvif_c_motion cfg t True active score) ms s0;
      es = take (nat (message_limit b1)) (latest 12 (map motion_event ms))
    in fst (events_service_handler (env\<lparr>env_now := t1\<rparr>) cfg cache1 req1 s1) = ev_send env (pull_reply es t1 (t0 + 3600)) \<and>
       read_doc (pull_reply es t1 (t0 + 3600)) =
         Some (pull_messages_doc (map event_triple es) (iso8601 t1 24) (iso8601 (t0 + 3600) 24))"
proof -
  let ?s0 = "s\<lparr>sub_valid := True, sub_termination := t0 + 3600, sub_last_pull := t0, ev_ring := ring_reset (ev_ring s)\<rparr>"
  let ?s1 = "?s0\<lparr>ev_ring := fold ring_push (map motion_event ms) (ring_reset (ev_ring s))\<rparr>"
  have s0: "snd (snd (events_service_handler (env\<lparr>env_now := t0\<rparr>) cfg cache0 req0 s)) = ?s0"
    using refine_create [OF assms(4,1), of "env\<lparr>env_now := t0\<rparr>"]
    by (simp add: events_handler_open [OF assms(6,8)] assms(7) dispatch_events_def)
  have s1: "fold (\<lambda>(t, active, score). onvif_c_motion cfg t True active score) ms ?s0 = ?s1"
    using motions_pushed [of ?s0 cfg ms] assms(2,5) by simp
  have inv: "ring_inv (ring_reset (ev_ring s))" by (rule rq.inv_reset [OF assms(1)])
  have abs: "ring_abs (ev_ring ?s1) = latest 12 (map motion_event ms)"
    using rq.abs_push_all [OF inv, of "map motion_event ms"] rq.abs_reset [of "ev_ring s"]
    by (simp add: latest_def ONVIF_C_EVENT_QUEUE_MAX_def)
  have alive: "fst (sub_alive t1 ?s1)"
    using assms(13) by (simp add: sub_alive_def SUB_IDLE_TIMEOUT_S_def)
  have "ring_inv (ev_ring ?s1)" using rq.inv_push_all [OF inv] by simp
  from handle_pull_alive [OF this, of "env\<lparr>env_now := t1\<rparr>" b1] alive assms(3)
  have "fst (handle_pull_messages (env\<lparr>env_now := t1\<rparr>) b1 ?s1) =
      ev_send env (pull_reply (take (nat (message_limit b1)) (latest 12 (map motion_event ms))) t1 (t0 + 3600))"
    unfolding abs by auto
  then show ?thesis
    unfolding Let_def s0 s1 pull_reply_reads
    by (simp add: events_handler_open [OF assms(9,12)] assms(10,11) dispatch_events_def)
qed

theorem motion_reaches_client_witness:
  "let s0 = snd (snd (events_service_handler (env_plain\<lparr>env_now := 1000\<rparr>) cfg_minimal zero_cache
         (request_of ''CreatePullPointSubscription'') ev_fresh));
       s1 = fold (\<lambda>(t, active, score). onvif_c_motion cfg_minimal t True active score) [(1003, True, 9), (1005, False, 0)] s0;
       es = [\<lparr>ev_active = True, ev_score = 9, ev_utc = 1003\<rparr>, \<lparr>ev_active = False, ev_score = 0, ev_utc = 1005\<rparr>]
   in fst (events_service_handler (env_plain\<lparr>env_now := 1010\<rparr>) cfg_minimal zero_cache (request_of ''PullMessages'') s1) =
      ev_send env_plain (pull_reply es 1010 4600)"
proof -
  have b: "ev_read_body (request_of ''CreatePullPointSubscription'') = Some ''CreatePullPointSubscription''"
    "ev_read_body (request_of ''PullMessages'') = Some ''PullMessages''"
    by (simp_all add: ev_read_body_def request_of_def ONVIF_EV_BODY_MAX_def c_str_def)
  have c: "contains ''CreatePullPointSubscription'' ''CreatePullPointSubscription''" "contains ''PullMessages'' ''PullMessages''"
    "\<not> contains ''PullMessages'' ''CreatePullPointSubscription''"
    by (simp_all add: contains_def)
  have "message_limit ''PullMessages'' = 6" by (simp add: message_limit_def ONVIF_EV_PULL_MAX_def)
  moreover have g: "fst (onvif_c_auth_gate e cfg_minimal zero_cache x)" for e x
    by (simp add: onvif_c_auth_gate_def cfg_minimal_def)
  ultimately show ?thesis
    using motion_reaches_client [OF ev_fresh_ok(1,2) _ _ _ b(1) c(1) g b(2) c(2,3) g, of env_plain 1010 1000
        "[(1003, True, 9), (1005, False, 0)]"]
    by (simp add: env_plain_def cfg_minimal_def onvif_c_cfg_ip_def Let_def latest_def motion_event_def)
qed

lemma gate_denied:
  assumes "cfg_auth_password cfg = Some pw" and "\<not> contains b ''GetSystemDateAndTime''"
    and "fst (onvif_wsse_verify (Some b) (Some (case cfg_auth_username cfg of Some u \<Rightarrow> u | None \<Rightarrow> ''admin'')) pw
           (env_now env) (uint (cfg_auth_window_secs cfg)) (cfg_auth_allow_password_text cfg) (Some cache)) \<noteq> WSSE_OK"
  shows "onvif_c_auth_gate env cfg cache (Some b) =
    (False, cache, if env_mem_deny env then [Send 401 (int (length (render_doc ''utf-8'' fault_not_authorized_doc)))
        (render_doc ''utf-8'' fault_not_authorized_doc)] else [])"
proof (cases rule: device.gate_cases [of env cfg cache "Some b"])
  case allow
  then show ?thesis using assms by (simp add: onvif_c_auth_gate_def Let_def case_prod_unfold split: if_splits)
next
  case deny
  then show ?thesis by (simp add: prod_eq_iff)
qed

text \<open>
  C7: With a password configured, a request to the events service whose body is read, does not contain
  the pre-authentication word \<open>GetSystemDateAndTime\<close> and carries no token that verifies can neither read
  nor disturb the service: no queued event is taken, no subscription created, renewed, closed or
  expired, and the nonce cache stays; the only effect is the 401 fault.
\<close>

theorem unauthorized_events_unchanged:
  assumes "ev_read_body req = Some b"
    and "cfg_auth_password cfg = Some pw" and "\<not> contains b ''GetSystemDateAndTime''"
    and "fst (onvif_wsse_verify (Some b) (Some (case cfg_auth_username cfg of Some u \<Rightarrow> u | None \<Rightarrow> ''admin'')) pw
           (env_now env) (uint (cfg_auth_window_secs cfg)) (cfg_auth_allow_password_text cfg) (Some cache)) \<noteq> WSSE_OK"
  shows "events_service_handler env cfg cache req s =
    ((ESP_OK, if env_mem_deny env then [Send 401 (int (length (render_doc ''utf-8'' fault_not_authorized_doc)))
        (render_doc ''utf-8'' fault_not_authorized_doc)] else []), cache, s)"
  by (simp add: events_service_handler_def assms(1) gate_denied [OF assms(2-4)])

theorem unauthorized_events_unchanged_witness:
  "snd (events_service_handler env_plain (cfg_minimal\<lparr>cfg_auth_password := Some (Some ''secret'')\<rparr>) zero_cache
     (request_of ''<a>Unsubscribe</a>'') ev_fresh) = (zero_cache, ev_fresh)"
proof -
  have b: "ev_read_body (request_of ''<a>Unsubscribe</a>'') = Some ''<a>Unsubscribe</a>''"
    by (simp add: ev_read_body_def request_of_def ONVIF_EV_BODY_MAX_def c_str_def)
  have "\<not> contains ''<a>Unsubscribe</a>'' ''UsernameToken''"
    by (simp add: contains_Cons) (simp add: contains_def)
  then have v: "fst (onvif_wsse_verify (Some ''<a>Unsubscribe</a>'') u (Some ''secret'') t w p c) \<noteq> WSSE_OK" for u t w p c
    by (simp add: onvif_wsse_verify_def)
  have "\<not> contains ''<a>Unsubscribe</a>'' ''GetSystemDateAndTime''"
    by (simp add: contains_Cons) (simp add: contains_def)
  then show ?thesis
    using unauthorized_events_unchanged [OF b, of "cfg_minimal\<lparr>cfg_auth_password := Some (Some ''secret'')\<rparr>"
        "Some ''secret''" env_plain zero_cache ev_fresh] v by simp
qed

lemma events_handler_answered:
  assumes "ring_inv (ev_ring s)"
  shows "let r = fst (events_service_handler env cfg cache req s) in
    list_all send_in_bounds (snd r) \<and> length (filter is_send (snd r)) \<le> 1 \<and>
    (ev_mtx s \<and> env_mem_resp env \<and> env_mem_deny env \<and> length (onvif_c_cfg_ip cfg) \<le> 400 \<longrightarrow>
       length (filter is_send (snd r)) = 1)"
proof (cases "ev_read_body req")
  case None
  then show ?thesis
    by (simp add: events_service_handler_def ev_fault_eqs ev_send_def render_doc_ne)
next
  case (Some b)
  show ?thesis
  proof (cases rule: device.gate_cases [of env cfg cache "Some b"])
    case allow
    then show ?thesis
      using dispatch_bounded [OF assms, of env cfg b] dispatch_answered [OF assms, of env cfg b]
      by (simp add: events_handler_open [OF Some] ev_bounded_def ev_answered_def)
  next
    case deny
    then show ?thesis using render_doc_pos [of "''utf-8''" fault_not_authorized_doc]
      by (simp add: events_service_handler_def Some case_prod_unfold Let_def)
  qed
qed

text \<open>
  C22: The events handler never hands more bytes to the transport than its buffer's text has and
  never sends twice; with memory (and a configured address of at most 400 characters) every request
  is answered by exactly one non-empty response.
\<close>

theorem events_answer_in_bounds:
  assumes "ring_inv (ev_ring s)"
  shows "let r = fst (events_service_handler env cfg cache req s) in
    list_all send_in_bounds (snd r) \<and> length (filter is_send (snd r)) \<le> 1 \<and>
    (ev_mtx s \<and> env_mem_resp env \<and> env_mem_deny env \<and> length (onvif_c_cfg_ip cfg) \<le> 400 \<longrightarrow>
       length (filter is_send (snd r)) = 1)"
  using assms by (rule events_handler_answered)

theorem events_answer_in_bounds_witness:
  "length (filter is_send (snd (fst (events_service_handler env_plain cfg_minimal zero_cache (request_of ''Renew'') ev_fresh)))) = 1"
  using events_answer_in_bounds [of ev_fresh env_plain cfg_minimal zero_cache "request_of ''Renew''"]
  by (simp add: ev_fresh_ok env_plain_def cfg_minimal_def onvif_c_cfg_ip_def Let_def)

lemma ev_fresh_registered: "snd (snd (onvif_c_events_register True True reg ev_zero)) = ev_fresh"
  by (simp add: onvif_c_events_register_def ev_fresh_def Let_def)

lemma ev_fresh_reach: "ev_reach cfg t ev_fresh"
  using ev_reach.registered [of cfg t] by (simp add: ev_fresh_registered)

text \<open>A service with a fresh subscription.\<close>

definition ev_created :: ev_state where
  "ev_created = snd (snd (events_service_handler (env_plain\<lparr>env_now := 1000\<rparr>) cfg_minimal zero_cache
     (request_of ''CreatePullPointSubscription'') ev_fresh))"

lemma ev_created_reach: "ev_reach cfg_minimal 1000 ev_created"
  using ev_reach.request [OF ev_fresh_reach, of 1000 "env_plain\<lparr>env_now := 1000\<rparr>"] by (simp add: ev_created_def)

lemma ev_created_valid: "sub_valid ev_created"
proof -
  have b: "ev_read_body (request_of ''CreatePullPointSubscription'') = Some ''CreatePullPointSubscription''"
    by (simp add: ev_read_body_def request_of_def ONVIF_EV_BODY_MAX_def c_str_def)
  have "fst (onvif_c_auth_gate (env_plain\<lparr>env_now := 1000\<rparr>) cfg_minimal zero_cache x)" for x
    by (simp add: onvif_c_auth_gate_def cfg_minimal_def)
  from events_handler_open [OF b this] show ?thesis
    by (simp add: ev_created_def dispatch_events_def contains_def handle_create_pull_point_def Let_def split: prod.split)
qed

text \<open>
  C16: The invariant of the service's state in every history of requests (of any content, with or
  without memory) and motion reports: the ring is well formed, the mutex exists, and a subscription
  marked valid was last pulled neither in the future nor after its end, which is at most an hour
  ahead.  So, seen at any later time, no subscription outlives two minutes of silence.
\<close>

theorem subscription_invariant:
  assumes "ev_reach cfg t s"
  shows "ring_inv (ev_ring s) \<and> ev_mtx s \<and>
    (sub_valid s \<longrightarrow> sub_last_pull s \<le> t \<and> sub_last_pull s \<le> sub_termination s \<and> sub_termination s \<le> t + 3600) \<and>
    (\<forall>now > t + 120. sub_view now s = None)"
  using ev_reach_ok [OF assms] ev_ok_idle [of t s] by (auto simp: ev_ok_def)

theorem subscription_invariant_witness:
  "sub_valid ev_created \<and> sub_termination ev_created \<le> 4600 \<and> sub_view 1121 ev_created = None"
  using subscription_invariant [OF ev_created_reach] ev_created_valid by simp

text \<open>The histories in which the client is idle since \<open>p\<close>, the time of the request that led to the first
  state: motions at any time, and requests of any content but the two that count as activity.\<close>

inductive ev_idle :: "config \<Rightarrow> int \<Rightarrow> ev_state \<Rightarrow> bool" for cfg p where
  last: "ev_reach cfg p s \<Longrightarrow> ev_idle cfg p s"
| motion: "ev_idle cfg p s \<Longrightarrow> ev_idle cfg p (onvif_c_motion cfg now lock active score s)"
| other: "ev_idle cfg p s \<Longrightarrow>
    (\<forall>b. ev_read_body req = Some b \<longrightarrow> \<not> contains b ''CreatePullPointSubscription'' \<and> \<not> contains b ''PullMessages'') \<Longrightarrow>
    ev_idle cfg p (snd (snd (events_service_handler env cfg cache req s)))"

definition idle_ok :: "int \<Rightarrow> ev_state \<Rightarrow> bool" where
  "idle_ok p s \<longleftrightarrow> ring_inv (ev_ring s) \<and> ev_mtx s \<and> (sub_valid s \<longrightarrow> sub_last_pull s \<le> p)"

lemma motion_idle: "idle_ok p s \<Longrightarrow> idle_ok p (onvif_c_motion cfg now lock active score s)"
  by (auto simp: onvif_c_motion_def idle_ok_def rq.inv_push split: option.split)

lemma renew_idle: "idle_ok p s \<Longrightarrow> idle_ok p (snd (handle_renew env s))"
  using refine_renew [of env s undefined] by (auto simp: idle_ok_def view_Some)

lemma dispatch_idle:
  "idle_ok p s \<Longrightarrow> \<not> contains b ''CreatePullPointSubscription'' \<Longrightarrow> \<not> contains b ''PullMessages'' \<Longrightarrow>
     idle_ok p (snd (dispatch_events env cfg b s))"
  by (auto simp: dispatch_events_def renew_idle handle_unsubscribe_def) (simp_all add: idle_ok_def)

lemma ev_idle_ok: "ev_idle cfg p s \<Longrightarrow> idle_ok p s"
proof (induction rule: ev_idle.induct)
  case (last s)
  then show ?case using ev_reach_ok [of cfg p s] by (simp add: ev_ok_def idle_ok_def)
next
  case motion
  from motion.IH show ?case by (rule motion_idle)
next
  case (other s req env cache)
  show ?case
  proof (cases "ev_read_body req")
    case (Some b)
    with other dispatch_idle [of p s b env cfg] show ?thesis
      by (simp add: events_service_handler_def Let_def case_prod_unfold)
  qed (use other in \<open>simp add: events_service_handler_def\<close>)
qed

text \<open>
  C29: Two minutes of idleness end a subscription: more than 120 seconds after the last creation or
  pull, whatever motions were reported and whatever other requests (renewals among them) were served
  since, both \<open>PullMessages\<close> and \<open>Renew\<close> answer that there is no subscription, and close it.
\<close>

theorem expired_subscription_refused:
  assumes "ev_idle cfg p s" and "p + 120 < env_now env" and "env_mem_resp env"
  shows "handle_pull_messages env body s = (ev_send env (render_doc ''UTF-8'' no_subscription), s\<lparr>sub_valid := False\<rparr>) \<and>
    handle_renew env s = (ev_send env (render_doc ''UTF-8'' no_subscription), s\<lparr>sub_valid := False\<rparr>)"
proof -
  have "idle_ok p s" by (rule ev_idle_ok [OF assms(1)])
  with assms(2) have "sub_view (env_now env) s = None" by (auto simp: idle_ok_def sub_view_def sub_tick_def)
  then show ?thesis
    using refine_pull_dead [of env s body cfg] refine_renew [of env s cfg] assms(3) by simp
qed

theorem expired_subscription_refused_witness:
  "onvif_c_events_subscribed (onvif_c_motion cfg_minimal 1100 True True 9 ev_created) \<and>
   handle_renew (env_plain\<lparr>env_now := 1121\<rparr>) (onvif_c_motion cfg_minimal 1100 True True 9 ev_created) =
     (ev_send env_plain (render_doc ''UTF-8'' no_subscription),
      onvif_c_motion cfg_minimal 1100 True True 9 ev_created\<lparr>sub_valid := False\<rparr>)"
proof -
  let ?s = "onvif_c_motion cfg_minimal 1100 True True 9 ev_created"
  have i: "ev_idle cfg_minimal 1000 ?s" by (intro ev_idle.motion ev_idle.last ev_created_reach)
  have "sub_valid ?s" "ev_mtx ?s"
    using ev_created_valid ev_reach_ok [OF ev_created_reach] by (auto simp: onvif_c_motion_def ev_ok_def)
  moreover have "env_mem_resp env_plain" by (simp add: env_plain_def)
  ultimately show ?thesis
    using expired_subscription_refused [OF i, of "env_plain\<lparr>env_now := 1121\<rparr>"]
    by (simp add: onvif_c_events_subscribed_def)
qed

end
