(* ===== verification/Lifecycle.thy ===== *)
theory Lifecycle
  imports Subscription Discovery
begin

text \<open>
  The library as a whole (\<open>onvif_c_start\<close>, \<open>onvif_c_stop\<close> of \<open>esp_idf/onvif_c_service.c\<close>): its static
  variables together, bringing it up and down.
\<close>

definition ONVIF_C_VERSION :: int where "ONVIF_C_VERSION = 200"

record onvif_c =
  s_cfg :: config                \<comment> \<open>onvif_c_service.c\<close>
  s_nonce_cache :: nonce_cache   \<comment> \<open>onvif_c_service.c\<close>
  s_ev :: ev_state               \<comment> \<open>onvif_c_events.c\<close>
  s_disc :: disc                 \<comment> \<open>onvif_c_discovery.c\<close>
  s_uris :: "string list"        \<comment> \<open>the HTTP server: where the library's handlers are registered\<close>

text \<open>What the platform answers to a start: the HTTP server's handle and its registrations, whether
  a mutex and a task can be created, mDNS.\<close>

record platform =
  pf_httpd :: bool
  pf_register :: "string \<Rightarrow> esp_err"
  pf_mutex :: bool
  pf_have_mdns :: bool
  pf_mdns_init :: esp_err
  pf_task :: bool

definition register_one :: "platform \<Rightarrow> string \<Rightarrow> onvif_c \<Rightarrow> esp_err \<times> onvif_c" where
  "register_one pf uri st =
     (let ret = pf_register pf uri in
      if ret = ESP_ERR_HTTPD_HANDLER_EXISTS then (ESP_OK, st\<lparr>s_uris := s_uris st @ [uri]\<rparr>)
      else if ret \<noteq> ESP_OK then (ret, st)
      else (ESP_OK, st\<lparr>s_uris := s_uris st @ [uri]\<rparr>))"

text \<open>The result, the new state and the outside effects.\<close>

definition onvif_c_start :: "platform \<Rightarrow> config option \<Rightarrow> onvif_c \<Rightarrow> esp_err \<times> onvif_c \<times> disc_effect list" where
  "onvif_c_start pf arg st =
     (case arg of
        None \<Rightarrow> (ESP_ERR_INVALID_ARG, st, [])
      | Some cfg \<Rightarrow>
          (if \<not> pf_httpd pf \<or> cfg_serial cfg = None \<or> cfg_uuid cfg = None \<or> cfg_ip cfg = None \<or> cfg_stream_uri cfg = None
           then (ESP_ERR_INVALID_ARG, st, [])
           else (let st = st\<lparr>s_cfg := onvif_c_cfg_set cfg\<rparr>;
                     (ret, st) = register_one pf ''/onvif/device_service'' st in
             if ret \<noteq> ESP_OK then (ret, st, [])
             else (let (ret, st) = register_one pf ''/onvif/media_service'' st in
               if ret \<noteq> ESP_OK then (ret, st, [])
               else (let (ret, st) = register_one pf ''/onvif/media2_service'' st in
                 if ret \<noteq> ESP_OK then (ret, st, [])
                 else (let (ret, uris, ev) =
                           (if onvif_c_cfg_has_events (s_cfg st)
                            then onvif_c_events_register (pf_httpd pf) (pf_mutex pf) (pf_register pf) (s_ev st)
                            else (ESP_OK, [], s_ev st));
                           st = st\<lparr>s_ev := ev\<rparr> in
                   if ret \<noteq> ESP_OK then (ret, st, [])
                   else (let (ret, d, es) = onvif_c_discovery_start (pf_have_mdns pf) (pf_mdns_init pf) (pf_task pf)
                               (s_cfg st) (s_disc st)
                         in (ret, st\<lparr>s_uris := s_uris st @ uris, s_disc := d\<rparr>, es))))))))"

definition onvif_c_stop :: "bool \<Rightarrow> bool \<Rightarrow> onvif_c \<Rightarrow> esp_err \<times> onvif_c \<times> disc_effect list" where
  "onvif_c_stop have_mdns sock st =
     (let (ret, d, es) = onvif_c_discovery_stop have_mdns sock (s_cfg st) (s_disc st)
      in (ret, st\<lparr>s_disc := d\<rparr>, es))"

definition onvif_c_version :: int where
  "onvif_c_version = ONVIF_C_VERSION"


text \<open>A POST request to a registered URI reaches the handler that \<open>onvif_c_start\<close> gave for it.\<close>

definition http_post :: "env \<Rightarrow> string \<Rightarrow> request \<Rightarrow> onvif_c \<Rightarrow> svc \<times> onvif_c" where
  "http_post env uri req st =
     (if uri \<notin> set (s_uris st) then ((ESP_OK, []), st)
      else if uri = ''/onvif/device_service'' then
        (let (r, c) = device_service_handler env (s_cfg st) (s_nonce_cache st) req in (r, st\<lparr>s_nonce_cache := c\<rparr>))
      else if uri = ''/onvif/media_service'' then
        (let (r, c) = media_service_handler env (s_cfg st) (s_nonce_cache st) req in (r, st\<lparr>s_nonce_cache := c\<rparr>))
      else if uri = ''/onvif/media2_service'' then
        (let (r, c) = media2_service_handler env (s_cfg st) (s_nonce_cache st) req in (r, st\<lparr>s_nonce_cache := c\<rparr>))
      else if uri = ''/onvif/events_service'' then
        (let (r, c, ev) = events_service_handler env (s_cfg st) (s_nonce_cache st) req (s_ev st)
         in (r, st\<lparr>s_nonce_cache := c, s_ev := ev\<rparr>))
      else ((ESP_OK, []), st))"

lemmas service_uris = http_post_def [of _ "''/onvif/device_service''"] http_post_def [of _ "''/onvif/media_service''"]
  http_post_def [of _ "''/onvif/media2_service''"] http_post_def [of _ "''/onvif/events_service''"]


section \<open>Starting\<close>

lemma register_one_ok:
  "register_one pf uri st = (ESP_OK, st') \<longleftrightarrow>
     pf_register pf uri \<in> {ESP_OK, ESP_ERR_HTTPD_HANDLER_EXISTS} \<and> st' = st\<lparr>s_uris := s_uris st @ [uri]\<rparr>"
  by (auto simp: register_one_def Let_def)

lemma events_register_ok:
  assumes "onvif_c_events_register True mem reg ev = (ESP_OK, uris, ev')"
  shows "ev' = ev\<lparr>ev_mtx := True\<rparr> \<and> uris = [''/onvif/events_service''] \<and>
    reg ''/onvif/events_service'' \<in> {ESP_OK, ESP_ERR_HTTPD_HANDLER_EXISTS}"
  using assms by (auto simp: onvif_c_events_register_def Let_def ESP_OK_def ESP_ERR_NO_MEM_def split: if_splits)

lemma discovery_start_ok:
  assumes "onvif_c_discovery_start have init created cfg d = (ESP_OK, d', es)"
  shows "disc_task d'"
  using assms by (auto simp: onvif_c_discovery_start_def ESP_OK_def ESP_FAIL_def split: if_splits prod.splits)

lemma cfg_set_events [simp]: "cfg_events_enabled (onvif_c_cfg_set cfg) = cfg_events_enabled cfg"
  by (simp add: onvif_c_cfg_set_def Let_def split: option.split)

definition core_uris :: "string list" where
  "core_uris = [''/onvif/device_service'', ''/onvif/media_service'', ''/onvif/media2_service'']"

text \<open>A start that succeeds, step by step.\<close>

lemma start_ok:
  assumes "onvif_c_start pf (Some cfg) st = (ESP_OK, st', es)"
  obtains uris ev d where "pf_httpd pf" "cfg_serial cfg \<noteq> None" "cfg_uuid cfg \<noteq> None" "cfg_ip cfg \<noteq> None"
    "cfg_stream_uri cfg \<noteq> None"
    "list_all (\<lambda>u. pf_register pf u \<in> {ESP_OK, ESP_ERR_HTTPD_HANDLER_EXISTS}) core_uris"
    "(if cfg_events_enabled cfg = None then (ESP_OK, [], s_ev st)
      else onvif_c_events_register True (pf_mutex pf) (pf_register pf) (s_ev st)) = (ESP_OK, uris, ev)"
    "onvif_c_discovery_start (pf_have_mdns pf) (pf_mdns_init pf) (pf_task pf) (onvif_c_cfg_set cfg) (s_disc st) = (ESP_OK, d, es)"
    "st' = st\<lparr>s_cfg := onvif_c_cfg_set cfg, s_ev := ev, s_disc := d, s_uris := s_uris st @ core_uris @ uris\<rparr>"
proof -
  have cb: "pf_httpd pf" "cfg_serial cfg \<noteq> None" "cfg_uuid cfg \<noteq> None" "cfg_ip cfg \<noteq> None" "cfg_stream_uri cfg \<noteq> None"
    using assms by (auto simp: onvif_c_start_def ESP_OK_def ESP_ERR_INVALID_ARG_def split: if_splits)
  let ?s0 = "st\<lparr>s_cfg := onvif_c_cfg_set cfg\<rparr>"
  obtain r1 s1 where 1: "register_one pf ''/onvif/device_service'' ?s0 = (r1, s1)" by fastforce
  with assms cb have "r1 = ESP_OK" by (auto simp: onvif_c_start_def Let_def split: if_splits)
  with 1 have s1: "pf_register pf ''/onvif/device_service'' \<in> {ESP_OK, ESP_ERR_HTTPD_HANDLER_EXISTS}"
    "s1 = ?s0\<lparr>s_uris := s_uris st @ [''/onvif/device_service'']\<rparr>" by (simp_all add: register_one_ok)
  obtain r2 s2 where 2: "register_one pf ''/onvif/media_service'' s1 = (r2, s2)" by fastforce
  with assms cb 1 \<open>r1 = ESP_OK\<close> have "r2 = ESP_OK" by (auto simp: onvif_c_start_def Let_def split: if_splits)
  with 2 have s2: "pf_register pf ''/onvif/media_service'' \<in> {ESP_OK, ESP_ERR_HTTPD_HANDLER_EXISTS}"
    "s2 = s1\<lparr>s_uris := s_uris s1 @ [''/onvif/media_service'']\<rparr>" by (simp_all add: register_one_ok)
  obtain r3 s3 where 3: "register_one pf ''/onvif/media2_service'' s2 = (r3, s3)" by fastforce
  with assms cb 1 2 \<open>r1 = ESP_OK\<close> \<open>r2 = ESP_OK\<close> have "r3 = ESP_OK"
    by (auto simp: onvif_c_start_def Let_def split: if_splits)
  with 3 have s3: "pf_register pf ''/onvif/media2_service'' \<in> {ESP_OK, ESP_ERR_HTTPD_HANDLER_EXISTS}"
    "s3 = s2\<lparr>s_uris := s_uris s2 @ [''/onvif/media2_service'']\<rparr>" by (simp_all add: register_one_ok)
  note regs = 1 2 3 [unfolded \<open>r3 = ESP_OK\<close>] \<open>r1 = ESP_OK\<close> \<open>r2 = ESP_OK\<close>
  have st: "s_cfg s3 = onvif_c_cfg_set cfg" "s_ev s3 = s_ev st" "s_disc s3 = s_disc st" "s_uris s3 = s_uris st @ core_uris"
    "s3 = st\<lparr>s_cfg := onvif_c_cfg_set cfg, s_uris := s_uris st @ core_uris\<rparr>"
    using s1(2) s2(2) s3(2) by (simp_all add: core_uris_def)
  obtain er uris ev where ev: "(if cfg_events_enabled cfg = None then (ESP_OK, [], s_ev st)
      else onvif_c_events_register True (pf_mutex pf) (pf_register pf) (s_ev st)) = (er, uris, ev)"
    by (metis prod_cases3)
  obtain dr d ds where d: "onvif_c_discovery_start (pf_have_mdns pf) (pf_mdns_init pf) (pf_task pf) (onvif_c_cfg_set cfg)
    (s_disc st) = (dr, d, ds)" by (metis prod_cases3)
  have "onvif_c_start pf (Some cfg) st =
    (if er \<noteq> ESP_OK then (er, s3\<lparr>s_ev := ev\<rparr>, [])
     else (dr, s3\<lparr>s_ev := ev, s_uris := s_uris s3 @ uris, s_disc := d\<rparr>, ds))"
    using cb regs ev d st(1-4)
    by (cases "cfg_events_enabled cfg"; clarsimp simp: onvif_c_start_def Let_def onvif_c_cfg_has_events_def)
  with assms have "er = ESP_OK" "dr = ESP_OK" "ds = es"
    "st' = s3\<lparr>s_ev := ev, s_uris := s_uris s3 @ uris, s_disc := d\<rparr>"
    by (auto split: if_splits)
  then show ?thesis
    using s1(1) s2(1) s3(1) ev d cb st(4,5) by (intro that [of uris ev d]) (simp_all add: core_uris_def)
qed


section \<open>Properties\<close>

text \<open>
  C33: \<open>onvif_c_start\<close> that returns \<open>ESP_OK\<close> has checked the required callbacks, resolved the
  configuration, registered the services it advertises (the events service, with its mutex, exactly
  when events are configured) and has a discovery task.
\<close>

theorem start_registers_services:
  assumes "onvif_c_start pf (Some cfg) st = (ESP_OK, st', es)"
  shows "pf_httpd pf \<and> cfg_serial cfg \<noteq> None \<and> cfg_uuid cfg \<noteq> None \<and> cfg_ip cfg \<noteq> None \<and> cfg_stream_uri cfg \<noteq> None \<and>
    s_cfg st' = onvif_c_cfg_set cfg \<and> s_nonce_cache st' = s_nonce_cache st \<and>
    s_uris st' = s_uris st @ [''/onvif/device_service'', ''/onvif/media_service'', ''/onvif/media2_service''] @
      (if cfg_events_enabled cfg = None then [] else [''/onvif/events_service'']) \<and>
    (cfg_events_enabled cfg \<noteq> None \<longrightarrow> ev_mtx (s_ev st')) \<and> disc_task (s_disc st')"
proof -
  obtain uris ev d where *: "pf_httpd pf" "cfg_serial cfg \<noteq> None" "cfg_uuid cfg \<noteq> None" "cfg_ip cfg \<noteq> None"
    "cfg_stream_uri cfg \<noteq> None"
    "(if cfg_events_enabled cfg = None then (ESP_OK, [], s_ev st)
      else onvif_c_events_register True (pf_mutex pf) (pf_register pf) (s_ev st)) = (ESP_OK, uris, ev)"
    "onvif_c_discovery_start (pf_have_mdns pf) (pf_mdns_init pf) (pf_task pf) (onvif_c_cfg_set cfg) (s_disc st) = (ESP_OK, d, es)"
    "st' = st\<lparr>s_cfg := onvif_c_cfg_set cfg, s_ev := ev, s_disc := d, s_uris := s_uris st @ core_uris @ uris\<rparr>"
    by (rule start_ok [OF assms])
  have "if cfg_events_enabled cfg = None then uris = [] else ev_mtx ev \<and> uris = [''/onvif/events_service'']"
    using *(6) events_register_ok [of "pf_mutex pf" "pf_register pf" "s_ev st" uris ev] by (auto split: if_splits)
  then show ?thesis using * discovery_start_ok [OF *(7)] by (simp add: core_uris_def split: if_splits)
qed

definition onvif_c_zero :: onvif_c where
  "onvif_c_zero = \<lparr>s_cfg = cfg_minimal, s_nonce_cache = zero_cache, s_ev = ev_zero, s_disc = disc_zero, s_uris = []\<rparr>"

definition platform_ok :: platform where
  "platform_ok = \<lparr>pf_httpd = True, pf_register = (\<lambda>_. ESP_OK), pf_mutex = True, pf_have_mdns = True,
     pf_mdns_init = ESP_OK, pf_task = True\<rparr>"

lemma start_works:
  assumes "cfg_serial cfg \<noteq> None" "cfg_uuid cfg \<noteq> None" "cfg_ip cfg \<noteq> None" "cfg_stream_uri cfg \<noteq> None"
    and "cfg_events_enabled cfg \<noteq> None"
  shows "onvif_c_start platform_ok (Some cfg) onvif_c_zero =
     (ESP_OK, onvif_c_zero\<lparr>s_cfg := onvif_c_cfg_set cfg, s_uris := core_uris @ [''/onvif/events_service''],
        s_ev := ev_fresh, s_disc := disc_zero\<lparr>disc_task := True, disc_pc := Entry\<rparr>\<rparr>,
      snd (init_mdns True ESP_OK (onvif_c_cfg_set cfg)))"
proof -
  have h: "onvif_c_cfg_has_events (onvif_c_cfg_set cfg)" using assms(5) by (simp add: onvif_c_cfg_has_events_def)
  show ?thesis
    using assms(1-4)
    by (simp add: onvif_c_start_def h platform_ok_def onvif_c_zero_def register_one_def Let_def core_uris_def
        onvif_c_discovery_start_def onvif_c_events_register_def disc_zero_def case_prod_unfold ev_fresh_def)
qed

lemma start_plain:
  assumes "cfg_serial cfg \<noteq> None" "cfg_uuid cfg \<noteq> None" "cfg_ip cfg \<noteq> None" "cfg_stream_uri cfg \<noteq> None"
    and "cfg_events_enabled cfg \<noteq> None" and "cfg_mdns_hostname cfg = None"
  shows "onvif_c_start platform_ok (Some cfg) onvif_c_zero =
     (ESP_OK, onvif_c_zero\<lparr>s_cfg := onvif_c_cfg_set cfg, s_uris := core_uris @ [''/onvif/events_service''],
        s_ev := ev_fresh, s_disc := disc_zero\<lparr>disc_task := True, disc_pc := Entry\<rparr>\<rparr>, [])"
proof -
  have "cfg_mdns_hostname (onvif_c_cfg_set cfg) = None"
    using assms(6) by (simp add: onvif_c_cfg_set_def Let_def split: option.split)
  then show ?thesis by (simp add: start_works [OF assms(1-5)] init_mdns_def)
qed

lemma start_minimal:
  "onvif_c_start platform_ok (Some cfg_minimal) onvif_c_zero =
     (ESP_OK, onvif_c_zero\<lparr>s_cfg := onvif_c_cfg_set cfg_minimal, s_uris := core_uris @ [''/onvif/events_service''],
        s_ev := ev_fresh, s_disc := disc_zero\<lparr>disc_task := True, disc_pc := Entry\<rparr>\<rparr>, [])"
  by (rule start_plain) (simp_all add: cfg_minimal_def)

theorem start_registers_services_witness:
  "case onvif_c_start platform_ok (Some cfg_minimal) onvif_c_zero of (ret, st', es) \<Rightarrow>
     ret = ESP_OK \<and> length (s_uris st') = 4 \<and> disc_task (s_disc st')"
  using start_registers_services [OF start_minimal] unfolding start_minimal by (simp add: onvif_c_zero_def core_uris_def)


section \<open>Who can set the clock\<close>

text \<open>The calls that change the device's time configuration.\<close>

fun is_setting :: "'r effect \<Rightarrow> bool" where
  "is_setting (Time_Apply r) = True"
| "is_setting (Ntp_Set hs) = True"
| "is_setting _ = False"

definition sets_nothing :: "svc \<Rightarrow> bool" where
  "sets_nothing r \<longleftrightarrow> list_all (\<lambda>e. \<not> is_setting e) (snd r)"

lemma send_fault_sets_nothing [simp]: "sets_nothing (send_fault env)"
  by (simp add: send_fault_def sets_nothing_def split: prod.split)

lemma send_built_sets_nothing [simp]: "sets_nothing (send_built env build)"
  using send_fault_sets_nothing [of env] by (simp add: send_built_def sets_nothing_def split: prod.split)

lemma after_sets_nothing [simp]:
  "sets_nothing (after (log_unsupported body) r) = sets_nothing r"
  "sets_nothing (after (keyframe_effect cfg) r) = sets_nothing r"
  by (auto simp: sets_nothing_def after_def keyframe_effect_def log_unsupported_def Let_def
      simp del: strchr_None_iff split: option.splits)

lemma ev_sets_nothing [simp]:
  "sets_nothing (ev_send env xml)" "sets_nothing (ev_fault env c t)" "sets_nothing (ev_resp env build)" "sets_nothing (ret, [])"
  by (simp_all add: sets_nothing_def ev_send_def ev_fault_def ev_resp_def split: prod.split)

lemma dispatch_sets_nothing:
  "sets_nothing (dispatch_media_action env cfg body)" "sets_nothing (dispatch_media2_action env cfg body)"
  by (simp_all add: dispatch_media_action_def dispatch_media2_action_def handle_get_profiles_def
      handle_get_stream_uri_def handle_get_snapshot_def Let_def split: option.split)

lemma if_sets_nothing:
  "sets_nothing (fst r1) \<Longrightarrow> sets_nothing (fst r2) \<Longrightarrow> sets_nothing (fst (if b then r1 else r2))"
  by simp

lemma pull_sets_nothing: "sets_nothing (fst (handle_pull_messages env body s))"
  unfolding handle_pull_messages_def Let_def case_prod_unfold
  by (intro if_sets_nothing) (simp_all only: fst_conv ev_sets_nothing)

lemma events_set_nothing: "sets_nothing (fst (dispatch_events env cfg body s))"
  by (simp add: dispatch_events_def pull_sets_nothing handle_create_pull_point_def handle_renew_def
      handle_unsubscribe_def Let_def case_prod_unfold)

lemma handler_sets_nothing:
  assumes "\<And>b. sets_nothing (dispatch env cfg b)"
  shows "sets_nothing (fst (service_handler dispatch env cfg cache req))"
  using assms device.gate_cases [of env cfg cache "read_body req"]
  by (cases rule: device.gate_cases [of env cfg cache "read_body req"])
    (auto simp: service_handler_def Let_def case_prod_unfold after_def sets_nothing_def)

lemma events_handler_sets_nothing: "sets_nothing (fst (events_service_handler env cfg cache req s))"
proof (cases "ev_read_body req")
  case None
  then show ?thesis by (simp add: events_service_handler_def)
next
  case (Some b)
  then show ?thesis
    using events_set_nothing [of env cfg b s]
    by (cases rule: device.gate_cases [of env cfg cache "Some b"])
      (auto simp: events_service_handler_def Let_def case_prod_unfold after_def sets_nothing_def)
qed

text \<open>
  C9: With a password configured, the clock, the zone and the NTP servers can only be set by a
  request to the device service whose own token verifies: no pre-authentication wording and no
  other service leads to the integrator's callbacks.
\<close>

theorem settings_need_credentials:
  assumes "cfg_auth_password cfg = Some pw"
  shows "(\<not> list_all (\<lambda>e. \<not> is_setting e) (snd (fst (device_service_handler env cfg cache req))) \<longrightarrow>
      (\<exists>b. read_body req = Some b \<and>
        fst (onvif_wsse_verify (Some b) (Some (case cfg_auth_username cfg of Some u \<Rightarrow> u | None \<Rightarrow> ''admin'')) pw
          (env_now env) (uint (cfg_auth_window_secs cfg)) (cfg_auth_allow_password_text cfg) (Some cache)) = WSSE_OK)) \<and>
    list_all (\<lambda>e. \<not> is_setting e) (snd (fst (media_service_handler env cfg cache req))) \<and>
    list_all (\<lambda>e. \<not> is_setting e) (snd (fst (media2_service_handler env cfg cache req))) \<and>
    list_all (\<lambda>e. \<not> is_setting e) (snd (fst (events_service_handler env cfg cache req s)))"
proof -
  let ?v = "\<lambda>b. fst (onvif_wsse_verify (Some b) (Some (case cfg_auth_username cfg of Some u \<Rightarrow> u | None \<Rightarrow> ''admin'')) pw
    (env_now env) (uint (cfg_auth_window_secs cfg)) (cfg_auth_allow_password_text cfg) (Some cache))"
  have "sets_nothing (fst (device_service_handler env cfg cache req))"
    if v: "\<And>b. read_body req = Some b \<Longrightarrow> ?v b \<noteq> WSSE_OK"
  proof (cases "read_body req")
    case None
    then show ?thesis
      by (cases rule: device.gate_cases [of env cfg cache "read_body req"])
        (auto simp: device_service_handler_def service_handler_def Let_def case_prod_unfold after_def
          dispatch_device_action_def sets_nothing_def send_fault_def)
  next
    case (Some b)
    show ?thesis
    proof (cases "contains b ''GetSystemDateAndTime''")
      case True
      with Some show ?thesis
        using device.handler_open [OF Some True, of env cfg cache]
        by (simp add: device_service_handler_def dispatch_device_action_def handle_get_system_date_and_time_def Let_def)
    next
      case False
      with Some v [OF Some] show ?thesis
        using device.handler_denied [OF assms, of req env cache]
        by (simp add: device_service_handler_def sets_nothing_def)
    qed
  qed
  then show ?thesis
    using handler_sets_nothing [of dispatch_media_action env cfg cache req] dispatch_sets_nothing
      handler_sets_nothing [of dispatch_media2_action env cfg cache req] events_handler_sets_nothing [of env cfg cache req s]
    by (auto simp: media_service_handler_def media2_service_handler_def sets_nothing_def)
qed

theorem settings_need_credentials_witness:
  "list_all (\<lambda>e. \<not> is_setting e) (snd (fst (device_service_handler env_plain
     (cfg_minimal\<lparr>cfg_auth_password := Some (Some ''secret''), cfg_ntp_set := Some (\<lambda>_. ESP_OK)\<rparr>) zero_cache
     (request_of ''<a>SetNTP</a>''))))"
proof -
  let ?cfg = "cfg_minimal\<lparr>cfg_auth_password := Some (Some ''secret''), cfg_ntp_set := Some (\<lambda>_. ESP_OK)\<rparr> :: config"
  have b: "read_body (request_of ''<a>SetNTP</a>'') = Some ''<a>SetNTP</a>''" by (rule read_request_of) simp_all
  have "\<not> contains ''<a>SetNTP</a>'' ''UsernameToken''"
    by (simp add: contains_Cons) (simp add: contains_def)
  then have "fst (onvif_wsse_verify (Some ''<a>SetNTP</a>'') u (Some ''secret'') t w p c) \<noteq> WSSE_OK" for u t w p c
    by (simp add: onvif_wsse_verify_def)
  then show ?thesis
    using settings_need_credentials [of ?cfg "Some ''secret''" env_plain zero_cache "request_of ''<a>SetNTP</a>''" ev_fresh] b
    by auto
qed

end
