(* ===== verification/Device.thy ===== *)
theory Device
  imports Lifecycle
begin

text \<open>
  The device over its whole life: any sequence of starts, requests to any service, motion reports,
  turns of the discovery task and stops, and the invariant of all static state together.
\<close>

section \<open>What a request leaves in the nonce cache\<close>

lemma ev_read_body_eq: "ev_read_body = read_body"
  by (simp add: fun_eq_iff ev_read_body_def read_body_def ONVIF_EV_BODY_MAX_def ONVIF_C_BODY_MAX_def)

abbreviation cfg_user :: "config \<Rightarrow> string" where
  "cfg_user cfg \<equiv> (case cfg_auth_username cfg of Some u \<Rightarrow> u | None \<Rightarrow> ''admin'')"

text \<open>The nonce of the digest token with which a body passes the gate.\<close>

definition accepted_nonce :: "env \<Rightarrow> config \<Rightarrow> nonce_cache \<Rightarrow> string option \<Rightarrow> byte list list" where
  "accepted_nonce env cfg cache body =
     (case (cfg_auth_password cfg, body) of
        (Some pw, Some b) \<Rightarrow>
          if \<not> contains b ''GetSystemDateAndTime'' \<and> \<not> contains b ''#PasswordText'' \<and>
             fst (onvif_wsse_verify (Some b) (Some (cfg_user cfg)) pw (env_now env)
               (uint (cfg_auth_window_secs cfg)) (cfg_auth_allow_password_text cfg) (Some cache)) = WSSE_OK
          then (case token_nonce b of Some n \<Rightarrow> [n] | None \<Rightarrow> [])
          else []
      | _ \<Rightarrow> [])"

lemma verify_needs_password: "fst (onvif_wsse_verify env user None now w at c) \<noteq> WSSE_OK"
  by (simp add: onvif_wsse_verify_def split: option.split)

lemma verify_empty: "fst (onvif_wsse_verify (Some []) user pw now w at c) \<noteq> WSSE_OK"
  by (simp add: onvif_wsse_verify_def contains_def split: option.split)

lemma gate_verified:
  assumes "cfg_auth_password cfg = Some pw" and "\<not> contains b ''GetSystemDateAndTime''"
    and "onvif_wsse_verify (Some b) (Some (cfg_user cfg)) pw (env_now env)
      (uint (cfg_auth_window_secs cfg)) (cfg_auth_allow_password_text cfg) (Some cache) = (st, Some c)"
  shows "fst (snd (onvif_c_auth_gate env cfg cache (Some b))) = c"
    and "fst (onvif_c_auth_gate env cfg cache (Some b)) \<longleftrightarrow> st = WSSE_OK"
    and "st = WSSE_OK \<Longrightarrow> onvif_c_auth_gate env cfg cache (Some b) = (True, c, [])"
  using assms by (simp_all add: onvif_c_auth_gate_def split: prod.split)

lemma gate_no_body:
  assumes "cfg_auth_password cfg = Some pw"
  shows "fst (snd (onvif_c_auth_gate env cfg cache None)) = cache"
proof -
  obtain st c where v: "onvif_wsse_verify (Some []) (Some (cfg_user cfg)) pw (env_now env)
      (uint (cfg_auth_window_secs cfg)) (cfg_auth_allow_password_text cfg) (Some cache) = (st, c)" by fastforce
  then have "st \<noteq> WSSE_OK" using verify_empty by (metis fst_conv)
  with verify_rejected [OF v] have "c = Some cache" by simp
  with v assms show ?thesis by (simp add: onvif_c_auth_gate_def split: prod.split)
qed

lemma gate_open:
  "cfg_auth_password cfg = None \<or> (\<exists>b. body = Some b \<and> contains b ''GetSystemDateAndTime'') \<Longrightarrow>
     onvif_c_auth_gate env cfg cache body = (True, cache, []) \<and> accepted_nonce env cfg cache body = []"
  by (cases "cfg_auth_password cfg") (auto simp: onvif_c_auth_gate_def accepted_nonce_def split: option.split)

lemma gate_cache_rel:
  assumes "cache_rel cache (map onvif_sha1 ns)"
  shows "cache_rel (fst (snd (onvif_c_auth_gate env cfg cache body)))
    (map onvif_sha1 (accepted_nonce env cfg cache body @ ns))"
proof -
  consider "cfg_auth_password cfg = None \<or> (\<exists>b. body = Some b \<and> contains b ''GetSystemDateAndTime'')"
    | pw where "cfg_auth_password cfg = Some pw" "body = None"
    | pw b where "cfg_auth_password cfg = Some pw" "body = Some b" "\<not> contains b ''GetSystemDateAndTime''"
    by (cases "cfg_auth_password cfg"; cases body) auto
  then show ?thesis
  proof cases
    case 1
    with assms gate_open show ?thesis by simp
  next
    case 2
    with assms gate_no_body show ?thesis by (simp add: accepted_nonce_def)
  next
    case (3 pw b)
    obtain st c' where v: "onvif_wsse_verify (Some b) (Some (cfg_user cfg)) pw (env_now env)
        (uint (cfg_auth_window_secs cfg)) (cfg_auth_allow_password_text cfg) (Some cache) = (st, c')" by fastforce
    show ?thesis
    proof (cases "st = WSSE_OK \<and> \<not> contains b ''#PasswordText''")
      case True
      from True v verify_needs_password obtain p where p: "pw = Some p" by (metis fst_conv not_None_eq)
      with v True obtain n t where n: "token_nonce b = Some n" "c' = Some (cache_store cache (onvif_sha1 n) t)"
        by (metis accepted_digest)
      then have "accepted_nonce env cfg cache body = [n]" using True v 3 by (simp add: accepted_nonce_def)
      with gate_verified(1) [OF 3(1,3) v [unfolded n(2)]] n 3(2) assms show ?thesis
        by (simp add: nonces.rel_store onvif_sha1_length)
    next
      case False
      then have "c' = Some cache"
        using v verify_rejected [OF v] verify_other_keeps [of b "Some (cfg_user cfg)"] verify_needs_password
        by (cases pw) (auto, metis fst_conv)
      moreover from False v have "accepted_nonce env cfg cache body = []" using 3 by (auto simp: accepted_nonce_def)
      ultimately show ?thesis using gate_verified(1) [OF 3(1,3)] v 3(2) assms by simp
    qed
  qed
qed

lemma service_cache:
  "snd (service_handler dispatch env cfg cache req) = fst (snd (onvif_c_auth_gate env cfg cache (read_body req)))"
  by (simp add: service_handler_def Let_def case_prod_unfold)

lemma events_cache:
  "fst (snd (events_service_handler env cfg cache req s)) =
     (case read_body req of None \<Rightarrow> cache | Some b \<Rightarrow> fst (snd (onvif_c_auth_gate env cfg cache (Some b))))"
  by (simp add: events_service_handler_def ev_read_body_eq Let_def case_prod_unfold split: option.split)


section \<open>Histories\<close>

definition service_list :: "string list" where
  "service_list = core_uris @ [''/onvif/events_service'']"

text \<open>All that can happen to a device, with the clock not going back; beside the state, the nonces
  of the digest tokens accepted so far, newest first.\<close>

inductive device_reach :: "int \<Rightarrow> onvif_c \<Rightarrow> byte list list \<Rightarrow> bool" where
  boot: "device_reach t (onvif_c_zero\<lparr>s_cfg := cfg\<rparr>) []"
| start: "device_reach t st ns \<Longrightarrow> onvif_c_start pf arg st = (ret, st', es) \<Longrightarrow> device_reach t st' ns"
| post: "device_reach t st ns \<Longrightarrow> t \<le> env_now env \<Longrightarrow> uri \<in> set (s_uris st) \<Longrightarrow>
    http_post env uri req st = (r, st') \<Longrightarrow>
    device_reach (env_now env) st' (accepted_nonce env (s_cfg st) (s_nonce_cache st) (read_body req) @ ns)"
| motion: "device_reach t st ns \<Longrightarrow> t \<le> now \<Longrightarrow>
    device_reach now (st\<lparr>s_ev := onvif_c_motion (s_cfg st) now lock active score (s_ev st)\<rparr>) ns"
| turn: "device_reach t st ns \<Longrightarrow>
    device_reach t (st\<lparr>s_disc := fst (onvif_c_discovery_task de (s_cfg st) (s_disc st))\<rparr>) ns"
| stop: "device_reach t st ns \<Longrightarrow> onvif_c_stop mdns sock st = (ret, st', es) \<Longrightarrow> device_reach t st' ns"

definition device_inv :: "int \<Rightarrow> onvif_c \<Rightarrow> byte list list \<Rightarrow> bool" where
  "device_inv t st ns \<longleftrightarrow>
     set (s_uris st) \<subseteq> set service_list \<and>
     (''/onvif/events_service'' \<in> set (s_uris st) \<longrightarrow> ev_mtx (s_ev st)) \<and>
     ev_ok t (s_ev st\<lparr>ev_mtx := True\<rparr>) \<and>
     cache_rel (s_nonce_cache st) (map onvif_sha1 ns)"

text \<open>What a start, however it ends, may change beside the configuration and the discovery task.\<close>

definition start_step :: "onvif_c \<Rightarrow> onvif_c \<Rightarrow> bool" where
  "start_step st st' \<longleftrightarrow> s_nonce_cache st' = s_nonce_cache st \<and>
     s_ev st'\<lparr>ev_mtx := True\<rparr> = s_ev st\<lparr>ev_mtx := True\<rparr> \<and> (ev_mtx (s_ev st) \<longrightarrow> ev_mtx (s_ev st')) \<and>
     set (s_uris st') \<subseteq> set (s_uris st) \<union> set service_list \<and>
     (''/onvif/events_service'' \<in> set (s_uris st') \<longrightarrow> ''/onvif/events_service'' \<in> set (s_uris st) \<or> ev_mtx (s_ev st'))"

lemma start_step_refl: "start_step st st"
  by (auto simp: start_step_def)

lemma start_step_trans: "start_step a b \<Longrightarrow> start_step b c \<Longrightarrow> start_step a c"
  by (auto simp: start_step_def)

lemma start_step_register: "u \<in> set core_uris \<Longrightarrow> start_step st (snd (register_one pf u st))"
  by (auto simp: start_step_def register_one_def Let_def service_list_def core_uris_def)

lemma start_step_events:
  "start_step st (st\<lparr>s_ev := snd (snd (onvif_c_events_register server mem reg (s_ev st))),
     s_uris := s_uris st @ fst (snd (onvif_c_events_register server mem reg (s_ev st))), s_disc := d\<rparr>)"
  "start_step st (st\<lparr>s_ev := snd (snd (onvif_c_events_register server mem reg (s_ev st)))\<rparr>)"
  "start_step st (st\<lparr>s_disc := d\<rparr>)" "start_step st (st\<lparr>s_cfg := cfg\<rparr>)"
  by (auto simp: start_step_def onvif_c_events_register_def Let_def service_list_def)

lemma start_keeps: "start_step st (fst (snd (onvif_c_start pf arg st)))"
proof (cases arg)
  case None
  then show ?thesis by (simp add: onvif_c_start_def start_step_refl)
next
  case (Some cfg)
  let ?s0 = "st\<lparr>s_cfg := onvif_c_cfg_set cfg\<rparr>"
  obtain r1 s1 where 1: "register_one pf ''/onvif/device_service'' ?s0 = (r1, s1)" by fastforce
  obtain r2 s2 where 2: "register_one pf ''/onvif/media_service'' s1 = (r2, s2)" by fastforce
  obtain r3 s3 where 3: "register_one pf ''/onvif/media2_service'' s2 = (r3, s3)" by fastforce
  have "start_step ?s0 s1" "start_step s1 s2" "start_step s2 s3"
    using start_step_register [of "''/onvif/device_service''" ?s0 pf] start_step_register [of "''/onvif/media_service''" s1 pf]
      start_step_register [of "''/onvif/media2_service''" s2 pf]
    by (simp_all add: core_uris_def 1 2 3)
  note s = this
  have a1: "start_step st s1" by (rule start_step_trans [OF start_step_events(4) s(1)])
  have a2: "start_step st s2" by (rule start_step_trans [OF a1 s(2)])
  have a3: "start_step st s3" by (rule start_step_trans [OF a2 s(3)])
  note a = a1 a2 a3 start_step_refl start_step_trans [OF a3 start_step_events(1)]
    start_step_trans [OF a3 start_step_events(2)] start_step_trans [OF a3 start_step_events(3)]
  show ?thesis
    unfolding onvif_c_start_def Some option.case Let_def 1 2 3 prod.case
    using a by (simp add: case_prod_unfold)
qed

text \<open>A request, by the service it is for.\<close>

lemma post_services:
  assumes "uri \<in> set (s_uris st)" and "set (s_uris st) \<subseteq> set service_list"
  obtains (soap) dispatch where "dispatch \<in> {dispatch_device_action, dispatch_media_action, dispatch_media2_action}"
      "http_post env uri req st =
        (let (r, c) = service_handler dispatch env (s_cfg st) (s_nonce_cache st) req in (r, st\<lparr>s_nonce_cache := c\<rparr>))"
    | (events) "uri = ''/onvif/events_service''"
      "http_post env uri req st =
        (let (r, c, ev) = events_service_handler env (s_cfg st) (s_nonce_cache st) req (s_ev st)
         in (r, st\<lparr>s_nonce_cache := c, s_ev := ev\<rparr>))"
proof -
  consider "uri = ''/onvif/device_service''" | "uri = ''/onvif/media_service''" | "uri = ''/onvif/media2_service''"
    | "uri = ''/onvif/events_service''"
    using assms by (auto simp: service_list_def core_uris_def)
  then show ?thesis
  proof cases
    case 1
    then show ?thesis using assms(1) by (intro soap [of dispatch_device_action]) (simp_all add: http_post_def device_service_handler_def)
  next
    case 2
    then show ?thesis using assms(1) by (intro soap [of dispatch_media_action]) (simp_all add: http_post_def media_service_handler_def)
  next
    case 3
    then show ?thesis using assms(1) by (intro soap [of dispatch_media2_action]) (simp_all add: http_post_def media2_service_handler_def)
  next
    case 4
    then show ?thesis using assms(1) by (intro events) (simp_all add: http_post_def)
  qed
qed

lemma device_inv_later: "device_inv t st ns \<Longrightarrow> t \<le> t' \<Longrightarrow> device_inv t' st ns"
  using ev_ok_later by (auto simp: device_inv_def)

lemma mtx_id: "ev_mtx ev \<Longrightarrow> ev\<lparr>ev_mtx := True\<rparr> = ev"
  by simp

lemma post_inv:
  assumes inv: "device_inv t st ns" and t: "env_now env = t" and uri: "uri \<in> set (s_uris st)"
  shows "device_inv t (snd (http_post env uri req st))
    (accepted_nonce env (s_cfg st) (s_nonce_cache st) (read_body req) @ ns)"
proof -
  have "set (s_uris st) \<subseteq> set service_list" using inv by (simp add: device_inv_def)
  with uri show ?thesis
  proof (cases rule: post_services [where env = env and req = req])
    case (soap dispatch)
    then show ?thesis
      using inv gate_cache_rel [of "s_nonce_cache st" ns env "s_cfg st" "read_body req"]
      by (simp add: device_inv_def service_cache case_prod_unfold Let_def)
  next
    case events
    let ?h = "events_service_handler env (s_cfg st) (s_nonce_cache st) req (s_ev st)"
    have mtx: "ev_mtx (s_ev st)" using inv uri events(1) by (simp add: device_inv_def)
    then have "ev_ok t (snd (snd ?h))" using inv t handler_ok [of t "s_ev st" env] by (simp add: device_inv_def mtx_id)
    moreover from this have "ev_mtx (snd (snd ?h))" by (simp add: ev_ok_def)
    moreover have "cache_rel (fst (snd ?h)) (map onvif_sha1 (accepted_nonce env (s_cfg st) (s_nonce_cache st) (read_body req) @ ns))"
      using inv gate_cache_rel [of "s_nonce_cache st" ns env "s_cfg st" "read_body req"]
      by (cases "read_body req") (simp_all add: events_cache device_inv_def accepted_nonce_def split: option.split)
    ultimately show ?thesis using inv events(2) by (simp add: device_inv_def case_prod_unfold mtx_id Let_def)
  qed
qed

lemma motion_mtx: "ev_mtx (onvif_c_motion cfg now lock active score s) = ev_mtx s"
  "\<not> ev_mtx s \<Longrightarrow> onvif_c_motion cfg now lock active score s = s"
  by (auto simp: onvif_c_motion_def split: option.split)

lemma device_reach_inv: "device_reach t st ns \<Longrightarrow> device_inv t st ns"
proof (induction rule: device_reach.induct)
  case (boot t cfg)
  then show ?case
    using nonces.rel_empty by (simp add: device_inv_def onvif_c_zero_def ev_ok_def ev_zero_def ring_inv_zero)
next
  case (start t st ns pf arg ret st' es)
  with start_keeps [of st pf arg] show ?case by (auto simp: device_inv_def start_step_def)
next
  case (post t st ns env uri req r st')
  then show ?case using post_inv [OF device_inv_later] by (metis snd_conv)
next
  case (motion t st ns now lock active score)
  have "device_inv now st ns" by (rule device_inv_later [OF motion.IH motion.hyps(2)])
  then show ?case
    using motion_ok [of now "s_ev st" "s_cfg st" now lock active score]
    by (cases "ev_mtx (s_ev st)") (simp_all add: device_inv_def motion_mtx mtx_id)
next
  case turn
  then show ?case by (simp add: device_inv_def)
next
  case stop
  then show ?case by (auto simp: device_inv_def onvif_c_stop_def split: prod.splits)
qed

end
