(* ===== verification/Device_Types.thy ===== *)
theory Device_Types
  imports Device
begin

text \<open>
  The types of the static state beyond what HOL's types say: arrays have the size they are declared
  with and indices stay inside, counters stay in their range, and a device that serves or announces
  anything has a configuration without the NULL pointers that a message would format.
\<close>

section \<open>The configuration in use\<close>

definition cfg_complete :: "config \<Rightarrow> bool" where
  "cfg_complete cfg \<longleftrightarrow> cfg_manufacturer cfg \<noteq> None \<and> cfg_model cfg \<noteq> None \<and> cfg_hardware_id cfg \<noteq> None \<and>
     cfg_firmware_version cfg \<noteq> None \<and> cfg_scopes cfg \<noteq> None \<and> cfg_serial cfg \<noteq> None \<and> cfg_uuid cfg \<noteq> None \<and>
     cfg_ip cfg \<noteq> None \<and> cfg_stream_uri cfg \<noteq> None \<and> 0 < cfg_port cfg"

lemma cfg_set_complete:
  assumes "cfg_serial cfg \<noteq> None" "cfg_uuid cfg \<noteq> None" "cfg_ip cfg \<noteq> None" "cfg_stream_uri cfg \<noteq> None"
  shows "cfg_complete (onvif_c_cfg_set cfg)"
  using assms
  by (auto simp: cfg_complete_def onvif_c_cfg_set_def default_to_def cfg_port_def Let_def unat_gt_0 split: option.splits)

definition in_use :: "onvif_c \<Rightarrow> bool" where
  "in_use st \<longleftrightarrow> s_uris st \<noteq> [] \<or> disc_pc (s_disc st) \<noteq> No_Task"

definition hello_counted :: "disc \<Rightarrow> bool" where
  "hello_counted d = (case disc_pc d of Listen k \<Rightarrow> k < 6 | _ \<Rightarrow> True)"

lemma task_counted:
  "hello_counted d \<Longrightarrow> hello_counted (fst (onvif_c_discovery_task env cfg d))"
  by (cases "disc_pc d")
    (auto simp: onvif_c_discovery_task_def disc_entry_def disc_outer_def disc_listen_def disc_exit_def disc_close_def
      Let_def hello_counted_def)

lemma task_in_use:
  "disc_pc (fst (onvif_c_discovery_task env cfg d)) \<noteq> No_Task \<Longrightarrow> disc_pc d \<noteq> No_Task"
  by (cases "disc_pc d") (simp_all add: onvif_c_discovery_task_def)


section \<open>Starting\<close>

text \<open>A start either leaves everything as it is or puts a complete configuration in place; the task
  it creates is at its entry.\<close>

definition start_typed :: "onvif_c \<Rightarrow> onvif_c \<Rightarrow> bool" where
  "start_typed st st' \<longleftrightarrow> st' = st \<or>
     (cfg_complete (s_cfg st') \<and> (s_disc st' = s_disc st \<or> disc_pc (s_disc st') \<in> {Entry, disc_pc (s_disc st)}))"

lemma register_one_keeps [simp]:
  "s_cfg (snd (register_one pf u st)) = s_cfg st" "s_disc (snd (register_one pf u st)) = s_disc st"
  by (simp_all add: register_one_def Let_def)

lemma discovery_start_pc: "disc_pc (fst (snd (onvif_c_discovery_start have init created cfg d))) \<in> {Entry, disc_pc d}"
  by (simp add: onvif_c_discovery_start_def case_prod_unfold Let_def)

lemma start_types: "start_typed st (fst (snd (onvif_c_start pf arg st)))"
proof (cases "\<exists>cfg. arg = Some cfg \<and> pf_httpd pf \<and> cfg_serial cfg \<noteq> None \<and> cfg_uuid cfg \<noteq> None \<and> cfg_ip cfg \<noteq> None \<and>
    cfg_stream_uri cfg \<noteq> None")
  case False
  then have "fst (snd (onvif_c_start pf arg st)) = st" by (auto simp: onvif_c_start_def split: option.split)
  then show ?thesis by (simp add: start_typed_def)
next
  case True
  then obtain cfg where cfg: "arg = Some cfg" "pf_httpd pf" "cfg_serial cfg \<noteq> None" "cfg_uuid cfg \<noteq> None"
    "cfg_ip cfg \<noteq> None" "cfg_stream_uri cfg \<noteq> None" by blast
  let ?s0 = "st\<lparr>s_cfg := onvif_c_cfg_set cfg\<rparr>"
  obtain r1 s1 where 1: "register_one pf ''/onvif/device_service'' ?s0 = (r1, s1)" by fastforce
  obtain r2 s2 where 2: "register_one pf ''/onvif/media_service'' s1 = (r2, s2)" by fastforce
  obtain r3 s3 where 3: "register_one pf ''/onvif/media2_service'' s2 = (r3, s3)" by fastforce
  have k: "s_cfg s1 = onvif_c_cfg_set cfg" "s_disc s1 = s_disc st" "s_cfg s2 = onvif_c_cfg_set cfg" "s_disc s2 = s_disc st"
    "s_cfg s3 = onvif_c_cfg_set cfg" "s_disc s3 = s_disc st"
    using register_one_keeps [of pf "''/onvif/device_service''" ?s0] register_one_keeps [of pf "''/onvif/media_service''" s1]
      register_one_keeps [of pf "''/onvif/media2_service''" s2]
    by (simp_all add: 1 2 3)
  have c: "cfg_complete (onvif_c_cfg_set cfg)" by (rule cfg_set_complete [OF cfg(3-6)])
  show ?thesis
    unfolding onvif_c_start_def cfg(1) option.case Let_def 1 2 3 prod.case
    using c cfg k discovery_start_pc [of "pf_have_mdns pf" "pf_mdns_init pf" "pf_task pf" "onvif_c_cfg_set cfg" "s_disc st"]
    by (simp add: case_prod_unfold start_typed_def)
qed

lemma device_reach_cfg:
  "device_reach t st ns \<Longrightarrow> (in_use st \<longrightarrow> cfg_complete (s_cfg st)) \<and> hello_counted (s_disc st)"
proof (induction rule: device_reach.induct)
  case (boot t cfg)
  then show ?case by (simp add: in_use_def hello_counted_def onvif_c_zero_def disc_zero_def)
next
  case (start t st ns pf arg ret st' es)
  then show ?case
    using start_types [of st pf arg] by (auto simp: start_typed_def hello_counted_def in_use_def)
next
  case (post t st ns env uri req r st')
  have "s_cfg st' = s_cfg st" "s_disc st' = s_disc st" "s_uris st' = s_uris st"
    using post.hyps(4) by (auto simp: http_post_def Let_def case_prod_unfold split: if_splits)
  with post.IH show ?case by (simp add: in_use_def)
next
  case motion
  then show ?case by (simp add: in_use_def)
next
  case turn
  then show ?case using task_in_use task_counted by (auto simp: in_use_def)
next
  case stop
  then show ?case
    by (auto simp: onvif_c_stop_def onvif_c_discovery_stop_def stop_kill_def stop_clear_def in_use_def hello_counted_def Let_def
        split: if_splits)
qed


section \<open>Properties\<close>

text \<open>
  C11: The static state is well typed in every history of the device: the nonce cache has sixteen
  slots of twenty bytes each, the event ring twelve slots with its head and its count in range, the
  \<open>hello_counter\<close> is below six; and as soon as a handler is registered or the task exists, the
  configuration has a port and no NULL pointer where a message formats a text.
\<close>

theorem device_state_typed:
  assumes "device_reach t st ns"
  shows "length (nc_hash (s_nonce_cache st)) = 16 \<and> list_all (\<lambda>h. length h = 20) (nc_hash (s_nonce_cache st)) \<and>
    length (nc_created (s_nonce_cache st)) = 16 \<and> length (nc_used (s_nonce_cache st)) = 16 \<and>
    length (ring_q (ev_ring (s_ev st))) = 12 \<and> ring_head (ev_ring (s_ev st)) < 12 \<and>
    ring_count (ev_ring (s_ev st)) \<le> 12 \<and>
    (case disc_pc (s_disc st) of Listen hello_counter \<Rightarrow> hello_counter < 6 | _ \<Rightarrow> True) \<and>
    (s_uris st = [] \<and> disc_pc (s_disc st) = No_Task \<or> cfg_complete (s_cfg st))"
proof -
  have c: "cache_rel (s_nonce_cache st) (map onvif_sha1 ns)" and r: "ring_inv (ev_ring (s_ev st))"
    using device_reach_inv [OF assms] by (simp_all add: device_inv_def ev_ok_def)
  from c have "length (nc_hash (s_nonce_cache st)) = 16 \<and> list_all (\<lambda>h. length h = 20) (nc_hash (s_nonce_cache st)) \<and>
    length (nc_created (s_nonce_cache st)) = 16 \<and> length (nc_used (s_nonce_cache st)) = 16"
    by (simp add: cache_rel_def list_all_length)
  moreover have "(in_use st \<longrightarrow> cfg_complete (s_cfg st)) \<and> hello_counted (s_disc st)"
    by (rule device_reach_cfg [OF assms])
  ultimately show ?thesis using r by (auto simp: ring_inv_def ONVIF_C_EVENT_QUEUE_MAX_def in_use_def hello_counted_def)
qed

theorem device_state_typed_witness:
  "cfg_complete (onvif_c_cfg_set cfg_minimal)"
proof -
  have "device_reach 0 (fst (snd (onvif_c_start platform_ok (Some cfg_minimal) onvif_c_zero))) []"
    using device_reach.start [OF device_reach.boot [of 0 cfg_minimal], of platform_ok "Some cfg_minimal"]
    by (simp add: onvif_c_zero_def prod_eq_iff)
  from device_state_typed [OF this] show ?thesis by (simp add: start_minimal core_uris_def)
qed

end
