(* ===== verification/Camera.thy ===== *)
theory Camera
  imports Events
begin

text \<open>
  The callbacks of the example integration \<open>examples/onvif_cam/main.c\<close> over the network interface's
  address, and what a client of the media service sees of them.

  The interface is an argument: \<open>None\<close> when \<open>esp_netif\<close> does not know it or has no address
  information, else the four bytes of the address.  \<open>app_main\<close> is not modelled: its configuration has
  string literals in place of the function pointers \<open>serial\<close> and \<open>uuid\<close>, and what calling those does is not
  defined by C.
\<close>

section \<open>The callbacks\<close>

type_synonym ip_addr = "byte \<times> byte \<times> byte \<times> byte"

definition ipstr :: "ip_addr \<Rightarrow> string" where
  "ipstr = (\<lambda>(a, b, c, d). show_nat (unat a) @ ''.'' @ show_nat (unat b) @ ''.'' @ show_nat (unat c) @ ''.'' @ show_nat (unat d))"

text \<open>The static buffer \<open>ip\<close> after a call; the call returns it.\<close>

definition my_ip :: "ip_addr option \<Rightarrow> string \<Rightarrow> string" where
  "my_ip netif ip = (case netif of Some info \<Rightarrow> snd (snprintf 16 (ipstr info)) | None \<Rightarrow> ip)"

definition my_stream_uri :: "string \<Rightarrow> string" where
  "my_stream_uri ip = snd (snprintf 64 (''http://'' @ ip @ '':81/stream''))"

definition my_events_gate :: bool where
  "my_events_gate = True"


section \<open>The address\<close>

text \<open>The buffer after any number of calls.\<close>

definition live_ip :: "ip_addr option list \<Rightarrow> string" where
  "live_ip answers = fold my_ip answers ''0.0.0.0''"

lemma ipstr_length: "length (ipstr a) \<le> 15"
proof -
  obtain b1 b2 b3 b4 where a: "a = (b1, b2, b3, b4)" by (cases a)
  show ?thesis
    using score_length [of b1] score_length [of b2] score_length [of b3] score_length [of b4]
    by (simp add: ipstr_def a)
qed

lemma my_ip_simps [simp]: "my_ip None ip = ip" "my_ip (Some a) ip = ipstr a"
  using ipstr_length [of a] by (simp_all add: my_ip_def)

lemma ipstr_text_ok: "text_ok (ipstr a)"
  by (cases a) (simp add: ipstr_def)

lemma live_ip_last:
  "live_ip answers =
     (case filter (\<lambda>a. a \<noteq> None) answers of [] \<Rightarrow> ''0.0.0.0'' | a # as \<Rightarrow> ipstr (the (last (a # as))))"
proof -
  have "fold my_ip as ip = (case filter (\<lambda>a. a \<noteq> None) as of [] \<Rightarrow> ip | b # bs \<Rightarrow> ipstr (the (last (b # bs))))" for as ip
  proof (induction as arbitrary: ip)
    case (Cons a as)
    then show ?case by (cases a) (simp_all split: list.split del: not_None_eq)
  qed simp
  then show ?thesis by (simp add: live_ip_def)
qed

lemma live_ip_ok: "length (live_ip answers) \<le> 15 \<and> text_ok (live_ip answers)"
  using ipstr_length ipstr_text_ok by (simp add: live_ip_last split: list.split)

lemma stream_uri_whole: "length ip \<le> 15 \<Longrightarrow> my_stream_uri ip = ''http://'' @ ip @ '':81/stream''"
  by (simp add: my_stream_uri_def)


section \<open>The media service\<close>

text \<open>Without a password, the media service answers a \<open>GetStreamUri\<close> with the configured text.\<close>

lemma open_stream_uri:
  assumes "cfg_auth_password cfg = None" and "cfg_stream_uri cfg = Some uri" and "text_ok uri" and "length uri \<le> 3000"
    and "read_body req = Some body" and "contains body ''GetStreamUri''" and "\<not> contains body ''GetProfiles''"
    and "env_mem_resp env"
  obtains buf where "media_service_handler env cfg cache req = ((ESP_OK, [Send 200 (int (length buf)) buf]), cache)"
    "read_doc buf = Some (stream_uri_doc uri)"
proof
  let ?s = "render_doc ''utf-8'' (stream_uri_doc uri)"
  have "length ?s < 4096" using assms(4) by (simp add: stream_uri_length)
  with assms(8) have "handle_get_stream_uri env cfg = (ESP_OK, [Send 200 (int (length ?s)) ?s])"
    by (simp add: handle_get_stream_uri_def c_text_def assms(2) send_built_eq [OF stream_uri_renders])
  with assms(1,5-7) show "media_service_handler env cfg cache req = ((ESP_OK, [Send 200 (int (length ?s)) ?s]), cache)"
    by (simp add: media_service_handler_def service_handler_def onvif_c_auth_gate_def dispatch_media_action_def after_def)
  show "read_doc ?s = Some (stream_uri_doc uri)" using stream_uri_ok [OF assms(3)] by (rule read_render_doc) simp
qed


section \<open>Properties\<close>

text \<open>
  C34: The example's stream address reaches the client: a media service without a password, whose
  \<open>stream_uri\<close> callback is the example's over its static address buffer, answers a \<open>GetStreamUri\<close> request
  (one that does not also name \<open>GetProfiles\<close>, with memory for the response) with one response, which reads as
  the document with the address the interface last reported, or \<open>0.0.0.0\<close> before it reported any; the text
  is cut nowhere on its way through the example's two buffers and the response.
\<close>

theorem stream_uri_reaches_client:
  assumes "cfg_auth_password cfg = None" and "cfg_stream_uri cfg = Some (my_stream_uri (live_ip answers))"
    and "read_body req = Some body" and "contains body ''GetStreamUri''" and "\<not> contains body ''GetProfiles''"
    and "env_mem_resp env"
    and "ip = (case filter (\<lambda>a. a \<noteq> None) answers of [] \<Rightarrow> ''0.0.0.0'' | a # as \<Rightarrow> ipstr (the (last (a # as))))"
  shows "\<exists>buf. media_service_handler env cfg cache req = ((ESP_OK, [Send 200 (int (length buf)) buf]), cache) \<and>
    read_doc buf = Some (stream_uri_doc (''http://'' @ ip @ '':81/stream''))"
proof -
  have ip: "live_ip answers = ip" unfolding assms(7) by (rule live_ip_last)
  then have ok: "length ip \<le> 15" "text_ok ip" using live_ip_ok [of answers] by auto
  then have "cfg_stream_uri cfg = Some (''http://'' @ ip @ '':81/stream'')" by (simp add: assms(2) ip stream_uri_whole)
  moreover have "text_ok (''http://'' @ ip @ '':81/stream'')" "length (''http://'' @ ip @ '':81/stream'') \<le> 3000"
    using ok by simp_all
  ultimately show ?thesis by (rule open_stream_uri [OF assms(1) _ _ _ assms(3-6)]) blast
qed

theorem stream_uri_reaches_client_witness:
  "\<exists>buf. media_service_handler env_plain
      (cfg_minimal\<lparr>cfg_stream_uri := Some (my_stream_uri (live_ip [None, Some (192, 168, 4, 17), None]))\<rparr>) zero_cache
      (request_of ''<GetStreamUri/>'') = ((ESP_OK, [Send 200 (int (length buf)) buf]), zero_cache) \<and>
    read_doc buf = Some (stream_uri_doc ''http://192.168.4.17:81/stream'')"
proof -
  let ?as = "[None, Some (192, 168, 4, 17), None]"
  have b: "read_body (request_of ''<GetStreamUri/>'') = Some ''<GetStreamUri/>''" by (rule read_request_of) simp_all
  have c: "contains ''<GetStreamUri/>'' ''GetStreamUri''" "\<not> contains ''<GetStreamUri/>'' ''GetProfiles''"
    by (simp_all add: contains_def)
  show ?thesis
    using stream_uri_reaches_client [of "cfg_minimal\<lparr>cfg_stream_uri := Some (my_stream_uri (live_ip ?as))\<rparr>" ?as
        "request_of ''<GetStreamUri/>''" _ env_plain "''192.168.4.17''" zero_cache, OF _ _ b c]
    by (simp add: cfg_minimal_def env_plain_def ipstr_def show_nat.simps digit_char_def)
qed

end
