(* ===== verification/Spec2Isabelle.thy ===== *)
theory Spec2Isabelle
  imports Sha1_Vectors Soap_Messages Responder Device_Types Camera
begin

text \<open>
  \<^bold>\<open>onvif-c: an ONVIF device endpoint for ESP-IDF.\<close>

  The library answers SOAP requests of ONVIF clients (device, media, media2 and Pull-Point events
  services over HTTP) and WS-Discovery datagrams.  Its portable core (\<open>src/core\<close>) parses and formats
  messages, checks WS-Security tokens and keeps the event queue; the port (\<open>src/esp_idf\<close>) connects it
  to the HTTP server, the network and FreeRTOS.  One definition here stands for one C function (or for
  a named part of one, such as a loop), with the C name wherever Isabelle allows it.

  \<^bold>\<open>The theories and what they model.\<close>

  \<^item> \<open>Onvif_Prelude\<close>: C strings as character lists up to the NUL, pointers into a string as suffixes,
    \<open>strstr\<close>, \<open>strchr\<close>, \<open>snprintf\<close> (the would-be length and the truncated buffer), decimal output.
  \<^item> \<open>Sha1\<close>, \<open>Sha1_Vectors\<close>: \<open>onvif_sha1\<close> on 32-bit words, and FIPS 180-4 as its reference.
  \<^item> \<open>Base64\<close>: \<open>onvif_base64_encode\<close> and \<open>onvif_base64_decode\<close> with their output bounds.
  \<^item> \<open>Calendar\<close>: \<open>onvif_wsse_parse_created\<close>, \<open>days_from_civil\<close>, \<open>iso8601\<close>; \<open>gmtime_r\<close> counts years and
    months, so it is also the reference for the closed forms.
  \<^item> \<open>Replay_Interface\<close>, \<open>Wsse\<close>: \<open>onvif_wsse_verify\<close> with token extraction and the 16-slot nonce
    cache; the cache is an instance of the locale \<open>recent_memory\<close>.
  \<^item> \<open>Queue_Interface\<close>, \<open>Event_Ring\<close>: the ring of twelve events, an instance of the locale
    \<open>drop_oldest_queue\<close>.
  \<^item> \<open>Time_Request\<close>: \<open>onvif_time_parse_set_request\<close> and \<open>onvif_time_parse_set_ntp\<close>.
  \<^item> \<open>Xml_Doc\<close>: XML trees, their rendering, and a reader that inverts it; the specification of messages.
  \<^item> \<open>Soap_Device\<close>, \<open>Soap_Media\<close>, \<open>Soap_Events\<close>, \<open>Soap_Messages\<close>: every builder of \<open>onvif_xml.c\<close>, the
    document it promises, and its length.
  \<^item> \<open>Port_Base\<close>: the configuration \<open>onvif_c_config_t\<close> and its defaults, reading a body, effects.
  \<^item> \<open>Service\<close>: \<open>onvif_c_auth_gate\<close>, the dispatchers and all actions of the device, media and media2
    services; the three are instances of the locale \<open>soap_dispatcher\<close>.
  \<^item> \<open>Events\<close>, \<open>Timed_Refinement\<close>, \<open>Subscription\<close>: the Pull-Point service on its state \<open>s_ev\<close>, the
    abstract subscription, and the refinement between them (locale \<open>timed_refinement\<close>).
  \<^item> \<open>Probe\<close>, \<open>Discovery\<close>: the datagrams of \<open>onvif_probe.c\<close>, and the responder task turn by turn of its loops,
    with \<open>onvif_c_discovery_start\<close>, \<open>onvif_c_discovery_stop\<close> and the mDNS calls.
  \<^item> \<open>Discovery_Steps\<close>: the same task cut into the steps between which another task can run (\<open>disc_step\<close>), down
    to the single calls of its way out; a turn is a run of these steps (\<open>turn_is_steps\<close>).
  \<^item> \<open>Lifecycle\<close>: \<open>onvif_c_start\<close> and \<open>onvif_c_stop\<close> over all static state, and who can set the clock.
  \<^item> \<open>Device\<close>: the histories of a whole device (starts, requests to any service, motions, turns of the
    discovery task, stops) as an inductive predicate, and their invariant; the properties that span
    components are at the end of this theory.
  \<^item> \<open>Responder\<close>: the discovery responder over time: every interleaving of the task's steps and the two
    halves of a stop (\<open>disc_reach\<close>), the outcomes of a stop, the announcements and the watchdog in a run.
  \<^item> \<open>Device_Types\<close>: the types of the static state that HOL's types do not express.
  \<^item> \<open>Camera\<close>: the callbacks of the example integration \<open>examples/onvif_cam/main.c\<close> under the media service.

  \<^bold>\<open>How state and effects correspond.\<close>  The static variables are records (\<open>nonce_cache\<close>,
  \<open>onvif_c_event_ring\<close>, \<open>ev_state\<close>, \<open>disc\<close>, together \<open>onvif_c\<close>) that the operations map to new ones.  The
  events service takes its mutex around each access, so its operations are atomic steps.  A handler's
  result is its return code with the list of effects on the outside: bytes handed to the transport with
  their claimed length, calls of the integrator's callbacks.  A configuration callback is its answer at
  the request (\<open>None\<close> for a NULL pointer); a callback may answer differently at the next request.  What
  the platform decides (the clock, whether an allocation succeeds, the pieces a socket hands out, the
  results of lwIP and FreeRTOS calls) is an argument, so a theorem without a hypothesis on it holds for
  every behaviour of the platform.

  \<^bold>\<open>What is shown.\<close>
  \<^item> Authentication: a token is accepted exactly under the documented conditions, an honest client is
    accepted, a replay is refused as long as its nonce is in the cache, a rejected request has no effect
    on any service; and the two ways around it that the code leaves open (long nonces, the
    pre-authentication test).
  \<^item> Functional correctness: SHA-1 against FIPS 180-4, Base64, time stamps and civil dates in both
    directions, and a signed request to set the time from the pieces that the transport delivers through
    the gate to the integrator's callback.
  \<^item> Messages: every response that reports to fit its buffer reads as the document it promises, with
    its namespaces declared; none is longer than its text where it is sent, but for the farewell of the
    discovery responder.
  \<^item> Events: the queue is the last twelve events, the service refines an abstract subscription over any
    sequence of operations, motion reaches the client, an idle subscription is refused, and the
    invariant of all histories.
  \<^item> The whole device: in every history every request is answered exactly once, the state is well
    typed, and a token that one service has accepted is refused by all of them, as long as fewer than
    sixteen others follow it (and not longer: the guard is exact).
  \<^item> Discovery: probes are answered, the responder comes up and stays announced with the address of the
    turn, the watchdog is fed however long \<open>recvfrom\<close> blocks, when a stop is clean and what it leaves
    behind otherwise, what a failed start leaves behind, and the account of what is leaked in any history.
  \<^item> The example's callbacks: a client is told the stream's address the interface last reported.

  \<^bold>\<open>Bounds.\<close>  Loops that the code bounds are recursion on that bound: a pull takes at most six events
  of at most 428 characters each, which with head and tail stay below the 4096 bytes of its buffer; the
  nonce cache has 16 slots and the ring 12.  Loops over a string are recursion on its length.  No fuel is used.

  \<^bold>\<open>Not modelled.\<close>  Logging (except that an unsupported action's name is copied in bounds), socket
  options and addresses, task stack sizes, mDNS beyond the calls made, the HTTP server's own parsing,
  memory beyond whether an allocation succeeds; \<open>strtol\<close> does not saturate, as no field that reaches it
  has more than five digits where the value is used, and \<open>MessageLimit\<close> is cut at six.  The times of
  \<open>gmtime_r\<close> start at 1970.  \<open>device_reach\<close> and \<open>disc_reach\<close> assume that one thread at a time starts and
  stops the library.  The accessors \<open>onvif_c_cfg\<close> and \<open>onvif_c_cfg_scopes\<close> are the fields they return.
  \<open>app_main\<close> of the example is not modelled: it has string literals in place of the callbacks \<open>serial\<close> and
  \<open>uuid\<close>, and calling them is undefined.  A NULL \<open>serial\<close> or \<open>uuid\<close> reads as the empty text where the C code would call
  NULL; \<open>onvif_c_start\<close> refuses such a configuration and \<open>device_state_typed\<close> shows that no started device
  has one.  Lengths that the C code casts to \<open>int\<close> (as \<open>rem\<close> in \<open>onvif_base64_encode\<close>) are below 2^31.  The responder's
  steps are atomic against a stop as \<open>Discovery_Steps\<close> cuts them; in \<open>device_reach\<close> its turns are whole.
  Tests, stubs and build files are not part of the library.
\<close>


section \<open>Properties of the whole device\<close>

text \<open>
  C10: A started device answers: in every reachable state, whatever happened before, every request
  to a registered service (any body, authorised or not) is answered by exactly one response, none of
  whose bytes lie outside the text in its buffer, as long as memory is available.
\<close>

theorem device_answers_every_request:
  assumes "device_reach t st ns" and "uri \<in> set (s_uris st)"
    and "env_mem_resp env" and "env_mem_fault env" and "env_mem_deny env"
    and "length (onvif_c_cfg_ip (s_cfg st)) \<le> 400"
  shows "list_all send_in_bounds (snd (fst (http_post env uri req st))) \<and>
    length (filter is_send (snd (fst (http_post env uri req st)))) = 1"
proof -
  have inv: "set (s_uris st) \<subseteq> set service_list" "ring_inv (ev_ring (s_ev st))"
    "''/onvif/events_service'' \<in> set (s_uris st) \<longrightarrow> ev_mtx (s_ev st)"
    using device_reach_inv [OF assms(1)] by (simp_all add: device_inv_def ev_ok_def)
  show ?thesis
  proof (cases rule: post_services [OF assms(2) inv(1), of env req])
    case (1 dispatch)
    then show ?thesis
      using device.handler_answered [of env "s_cfg st" "s_nonce_cache st" req]
        media.handler_answered [of env "s_cfg st" "s_nonce_cache st" req]
        media2.handler_answered [of env "s_cfg st" "s_nonce_cache st" req] assms(3-5)
      by (auto simp: case_prod_unfold Let_def)
  next
    case 2
    then show ?thesis
      using events_handler_answered [OF inv(2), of env "s_cfg st" "s_nonce_cache st" req] inv(3) assms
      by (simp add: case_prod_unfold Let_def)
  qed
qed

lemma minimal_reach:
  "device_reach t (onvif_c_zero\<lparr>s_cfg := onvif_c_cfg_set cfg_minimal, s_uris := core_uris @ [''/onvif/events_service''],
     s_ev := ev_fresh, s_disc := disc_zero\<lparr>disc_task := True, disc_pc := Entry\<rparr>\<rparr>) []"
  using device_reach.start [OF device_reach.boot [of t cfg_minimal]] start_minimal
  by (simp add: onvif_c_zero_def)

theorem device_answers_every_request_witness:
  "length (filter is_send (snd (fst (http_post env_plain ''/onvif/events_service'' (request_of ''Renew'')
     (onvif_c_zero\<lparr>s_cfg := onvif_c_cfg_set cfg_minimal, s_uris := core_uris @ [''/onvif/events_service''],
        s_ev := ev_fresh, s_disc := disc_zero\<lparr>disc_task := True, disc_pc := Entry\<rparr>\<rparr>))))) = 1"
  using device_answers_every_request [OF minimal_reach [of 0], of "''/onvif/events_service''" env_plain "request_of ''Renew''"]
  by (simp add: env_plain_def minimal_scopes(3))

text \<open>
  C8: A token works once on the whole device: after any history of starts, requests, motions and
  stops, with a password configured, a request whose digest token carries one of the sixteen most
  recently accepted nonces is refused by every registered service, whichever service accepted it first,
  and leaves no trace but the 401 fault (nothing when there is no memory for it).  It must be read as a
  body that contains neither \<open>#PasswordText\<close> nor \<open>GetSystemDateAndTime\<close>: the latter word opens every service
  without a token.
\<close>

theorem token_works_once:
  assumes "device_reach t st ns" and "n \<in> set (take 16 ns)" and "uri \<in> set (s_uris st)"
    and "read_body req = Some b" and "token_nonce b = Some n" and "\<not> contains b ''#PasswordText''"
    and "\<not> contains b ''GetSystemDateAndTime''" and "cfg_auth_password (s_cfg st) = Some pw"
  shows "http_post env uri req st =
    ((ESP_OK, if env_mem_deny env then [Send 401 (int (length (render_doc ''utf-8'' fault_not_authorized_doc)))
        (render_doc ''utf-8'' fault_not_authorized_doc)] else []), st)"
proof -
  let ?v = "onvif_wsse_verify (Some b) (Some (cfg_user (s_cfg st))) pw (env_now env)
    (uint (cfg_auth_window_secs (s_cfg st))) (cfg_auth_allow_password_text (s_cfg st)) (Some (s_nonce_cache st))"
  have inv: "set (s_uris st) \<subseteq> set service_list" "cache_rel (s_nonce_cache st) (map onvif_sha1 ns)"
    using device_reach_inv [OF assms(1)] by (simp_all add: device_inv_def)
  then have seen: "cache_seen (s_nonce_cache st) (onvif_sha1 n)"
    using assms(2) nonces.rel_seen [OF inv(2), of "onvif_sha1 n"]
    by (simp add: onvif_sha1_length ONVIF_WSSE_NONCE_SLOTS_def take_map)
  have "fst ?v \<noteq> WSSE_OK"
  proof
    assume ok: "fst ?v = WSSE_OK"
    with verify_needs_password obtain p where p: "pw = Some p" by (metis not_None_eq)
    from ok obtain c where "?v = (WSSE_OK, c)" by (metis prod.collapse)
    with p assms(5,6) seen show False by (metis accepted_digest option.inject)
  qed
  note gate = gate_denied [OF assms(8,7) this]
  show ?thesis
  proof (cases rule: post_services [OF assms(3) inv(1), of env req])
    case (1 dispatch)
    then show ?thesis by (simp add: service_handler_def assms(4) gate)
  next
    case 2
    then show ?thesis by (simp add: events_service_handler_def ev_read_body_eq assms(4) gate)
  qed
qed

text \<open>A device with a password, and a client's request for it.\<close>

definition long_password :: string where
  "long_password = replicate 100 (CHR ''a'')"

definition locked_device :: onvif_c where
  "locked_device = onvif_c_zero\<lparr>s_cfg := onvif_c_cfg_set (cfg_minimal\<lparr>cfg_auth_password := Some (Some long_password)\<rparr>),
     s_uris := core_uris @ [''/onvif/events_service''], s_ev := ev_fresh,
     s_disc := disc_zero\<lparr>disc_task := True, disc_pc := Entry\<rparr>\<rparr>"

lemma locked_reach: "device_reach t locked_device []"
proof -
  let ?cfg = "cfg_minimal\<lparr>cfg_auth_password := Some (Some long_password)\<rparr> :: config"
  have "onvif_c_start platform_ok (Some ?cfg) onvif_c_zero = (ESP_OK, locked_device, [])"
    unfolding locked_device_def by (rule start_plain) (simp_all add: cfg_minimal_def)
  moreover have "device_reach t onvif_c_zero []"
    using device_reach.boot [of t cfg_minimal] by (simp add: onvif_c_zero_def)
  ultimately show ?thesis by (rule device_reach.start [rotated])
qed

definition token_body :: string where
  "token_body = client_envelope ''admin'' ''Z0UjAe/Nq4mYutz+EDJUdsPS4fA='' ''AQID'' ''2024-01-01T00:00:00Z'' ''<s:Body/></s:Envelope>''"

lemma token_body_read: "read_body (request_of token_body) = Some token_body"
  by (rule read_request_of) (simp_all add: token_body_def client_envelope_def)

lemma token_body_plain: "\<not> contains token_body ''GetSystemDateAndTime''"
  by (simp add: token_body_def client_envelope_def contains_Cons contains_Nil)

lemma token_body_verified:
  "onvif_wsse_verify (Some token_body) (Some ''admin'') (Some long_password) 1704067300 0 False cache =
     wsse_replay_guard cache [1, 2, 3] 1704067200"
  "token_nonce token_body = Some [1, 2, 3]" "\<not> contains token_body ''#PasswordText''"
proof -
  let ?cr = "''2024-01-01T00:00:00Z''" and ?n = "[1, 2, 3] :: byte list"
  have d: "digest_bytes sha1_init = onvif_sha1 (?n @ bytes_of ?cr @ bytes_of long_password)"
    by (rule sha1_constant [symmetric]) (simp add: bytes_of_def long_password_def)
  have t: "token_body = client_envelope ''admin'' (b64_text (digest_bytes sha1_init)) (b64_text ?n) ?cr ''<s:Body/></s:Envelope>''"
    unfolding token_body_def by (rule arg_cong2 [where f = "\<lambda>d n. client_envelope ''admin'' d n ?cr ''<s:Body/></s:Envelope>''"]; code_simp)
  have pre: "CHR ''<'' \<notin> set ''admin'' \<union> set ?cr" "CHR ''#'' \<notin> set ''admin'' \<union> set ?cr"
    "\<not> contains ''<s:Body/></s:Envelope>'' ''#PasswordText''" "length ''admin'' < 64" "length ?cr < 40"
    "length ?n \<le> 189" "user_ok (Some ''admin'') ''admin''" "long_password \<noteq> []"
    by (simp_all add: contains_def user_ok_def long_password_def)
  have win: "\<bar>1704067300 - 1704067200\<bar> \<le> wsse_window 0" by (simp add: wsse_window_def)
  have fits: "length ?n + length ?cr + length long_password < 512" by (simp add: long_password_def)
  note v = client_verify(1) [OF pre parse_2024 win fits d, of False, folded t]
    client_verify(2,3) [OF pre parse_2024 win fits d, folded t]
  show "onvif_wsse_verify (Some token_body) (Some ''admin'') (Some long_password) 1704067300 0 False cache =
     wsse_replay_guard cache [1, 2, 3] 1704067200" "\<not> contains token_body ''#PasswordText''"
    using v(1,3) by simp_all
  show "token_nonce token_body = Some [1, 2, 3]"
    using v(2) by (auto simp: token_nonce_def digest_fields_def onvif_base64_decode_text simp del: b64_text.simps split: option.splits)
qed

lemma http_post_keeps:
  "s_cfg (snd (http_post env uri req st)) = s_cfg st \<and> s_uris (snd (http_post env uri req st)) = s_uris st"
  by (simp add: http_post_def case_prod_unfold Let_def)

lemma locked_config:
  "cfg_auth_password (s_cfg locked_device) = Some (Some long_password)" "cfg_auth_username (s_cfg locked_device) = None"
  "cfg_auth_window_secs (s_cfg locked_device) = 0" "\<not> cfg_auth_allow_password_text (s_cfg locked_device)"
  "s_nonce_cache locked_device = zero_cache" "s_uris locked_device = service_list"
  by (simp_all add: locked_device_def onvif_c_zero_def onvif_c_cfg_set_def cfg_minimal_def default_to_def Let_def service_list_def)

text \<open>The first use of the token is accepted, by the media service.\<close>

lemma token_accepted:
  "accepted_nonce env_plain (s_cfg locked_device) (s_nonce_cache locked_device) (read_body (request_of token_body)) = [[1, 2, 3]]"
proof -
  have "\<not> cache_seen zero_cache (onvif_sha1 [1, 2, 3])"
    using nonces.rel_seen [OF nonces.rel_empty onvif_sha1_length] by simp
  then show ?thesis
    using token_body_verified token_body_plain
    by (simp add: accepted_nonce_def token_body_read locked_config env_plain_def wsse_replay_guard_def)
qed

theorem token_works_once_witness:
  "let st = snd (http_post env_plain ''/onvif/media_service'' (request_of token_body) locked_device)
   in http_post env_plain ''/onvif/device_service'' (request_of token_body) st =
     ((ESP_OK, [Send 401 (int (length (render_doc ''utf-8'' fault_not_authorized_doc)))
        (render_doc ''utf-8'' fault_not_authorized_doc)]), st)"
proof -
  let ?p = "http_post env_plain ''/onvif/media_service'' (request_of token_body) locked_device"
  have now: "0 \<le> env_now env_plain" and mem: "env_mem_deny env_plain" by (simp_all add: env_plain_def)
  have uri: "''/onvif/media_service'' \<in> set (s_uris locked_device)" "''/onvif/device_service'' \<in> set (s_uris (snd ?p))"
    unfolding http_post_keeps [THEN conjunct2] locked_config by (simp_all add: service_list_def core_uris_def)
  have "device_reach (env_now env_plain) (snd ?p) [[1, 2, 3]]"
    using device_reach.post [OF locked_reach now uri(1), of "request_of token_body" "fst ?p" "snd ?p"]
    by (simp add: token_accepted)
  from token_works_once [OF this _ uri(2) token_body_read token_body_verified(2,3) token_body_plain, of "Some long_password" env_plain]
  show ?thesis using http_post_keeps [of env_plain "''/onvif/media_service''" "request_of token_body" locked_device]
    by (simp add: locked_config mem Let_def)
qed

end
